(* ===== verification/Path_Matching.thy ===== *)
theory Path_Matching
  imports Prelude
begin

text \<open>
  Request paths: the segment-boundary prefixes and the unsafe-path test of
  \<open>gateway-config/src/path_match.rs\<close>, the anchored path patterns and method
  lists of \<open>gateway/src/rbac/matcher.rs\<close>, and the capture grammar the validating
  parse checks in \<open>gateway-config/src/rbac/path_pattern.rs\<close>.

  The matcher decides a pattern by a reachability vector over the path's
  segments; \<open>seg_match\<close> is the declarative reading of a pattern, and the two
  are shown equal.
\<close>

section \<open>Prefixes and unsafe paths\<close>

definition GATEWAY_EXACT_ROUTE_PATHS :: "string list" where
  "GATEWAY_EXACT_ROUTE_PATHS =
     [''/health'', ''/livez'', ''/startupz'', ''/readyz'', ''/version'', ''/metrics'']"

definition path_prefix_matches :: "string \<Rightarrow> string \<Rightarrow> bool" where
  "path_prefix_matches path path_prefix =
     (if \<not> starts_with path_prefix ''/'' then False
      else if path = path_prefix then True
      else if ends_with path_prefix ''/'' then starts_with path path_prefix
      else (case strip_prefix path path_prefix of
              None \<Rightarrow> False
            | Some remaining \<Rightarrow> starts_with remaining ''/''))"

definition exempt_path_matches :: "string \<Rightarrow> string \<Rightarrow> bool" where
  "exempt_path_matches path exempt_path =
     (if exempt_path \<in> set GATEWAY_EXACT_ROUTE_PATHS then path = exempt_path
      else path_prefix_matches path exempt_path)"

definition is_unsafe_request_path :: "string \<Rightarrow> bool" where
  "is_unsafe_request_path path =
     (str_contains path ''%''
      \<or> str_contains path [CHR 0x5C]
      \<or> str_contains path ''//''
      \<or> list_ex (\<lambda>segment. segment = ''.'' \<or> segment = ''..'') (str_split CHR ''/'' path))"

section \<open>Method lists\<close>

datatype MethodMatcher = MM_Any | MM_Exact "string list"

fun method_matcher_loop :: "string list \<Rightarrow> string list \<Rightarrow> MethodMatcher" where
  "method_matcher_loop exact_methods [] = MM_Exact exact_methods"
| "method_matcher_loop exact_methods (m # ms) =
     (let m' = str_trim m in
      if m' = ''*'' then MM_Any else method_matcher_loop (exact_methods @ [m']) ms)"

definition MethodMatcher_new :: "string list \<Rightarrow> MethodMatcher" where
  "MethodMatcher_new methods =
     (if methods = [] then MM_Any else method_matcher_loop [] methods)"

fun MethodMatcher_matches :: "MethodMatcher \<Rightarrow> string \<Rightarrow> bool" where
  "MethodMatcher_matches MM_Any m = True"
| "MethodMatcher_matches (MM_Exact methods) m =
     list_ex (\<lambda>configured. eq_ignore_ascii_case configured m) methods"

definition method_matches :: "string list \<Rightarrow> string \<Rightarrow> bool" where
  "method_matches methods m = MethodMatcher_matches (MethodMatcher_new methods) m"

definition matches_every_method :: "string list \<Rightarrow> bool" where
  "matches_every_method methods = (MethodMatcher_new methods = MM_Any)"

definition methods_cover :: "string list \<Rightarrow> string list \<Rightarrow> bool" where
  "methods_cover covering covered =
     (case (MethodMatcher_new covering, MethodMatcher_new covered) of
        (MM_Any, _) \<Rightarrow> True
      | (MM_Exact _, MM_Any) \<Rightarrow> False
      | (MM_Exact covering, MM_Exact covered) \<Rightarrow>
          list_all (\<lambda>m. list_ex (\<lambda>candidate. eq_ignore_ascii_case candidate m) covering) covered)"

section \<open>Path patterns\<close>

datatype PathSegment = Literal string | SingleWildcard | DeepWildcard | Capture | Never

definition is_valid_capture_name :: "string \<Rightarrow> bool" where
  "is_valid_capture_name name =
     (case name of
        [] \<Rightarrow> False
      | first # rest \<Rightarrow>
          (is_ascii_alphabetic first \<or> first = CHR ''_'')
          \<and> list_all (\<lambda>ch. is_ascii_alphanumeric ch \<or> ch = CHR ''_'') rest)"

definition is_capture_segment :: "string \<Rightarrow> bool" where
  "is_capture_segment segment =
     (case Option.bind (strip_prefix segment ''{'') (\<lambda>v. strip_suffix v ''}'') of
        None \<Rightarrow> False
      | Some name \<Rightarrow> is_valid_capture_name name)"

definition has_capture_delimiter :: "string \<Rightarrow> bool" where
  "has_capture_delimiter segment = list_ex (\<lambda>b. b = CHR ''{'' \<or> b = CHR ''}'') segment"

definition PathSegment_new :: "string \<Rightarrow> PathSegment" where
  "PathSegment_new segment =
     (if segment = ''*'' then SingleWildcard
      else if segment = ''**'' then DeepWildcard
      else if is_capture_segment segment then Capture
      else if has_capture_delimiter segment then Never
      else Literal segment)"

fun PathSegment_matches :: "PathSegment \<Rightarrow> string \<Rightarrow> bool" where
  "PathSegment_matches (Literal literal) path_segment = (literal = path_segment)"
| "PathSegment_matches SingleWildcard path_segment = (path_segment \<noteq> [])"
| "PathSegment_matches Capture path_segment = (path_segment \<noteq> [])"
| "PathSegment_matches DeepWildcard path_segment = False"
| "PathSegment_matches Never path_segment = False"

definition absolute_path_segments :: "string \<Rightarrow> string list option" where
  "absolute_path_segments s =
     (case strip_prefix s ''/'' of
        None \<Rightarrow> None
      | Some tail \<Rightarrow> Some (if tail = [] then [] else str_split CHR ''/'' tail))"

text \<open>
  The two loops of \<open>path_segments_match\<close>: \<open>deep_step\<close> carries the flag
  \<open>can_reach_here\<close> along the vector, \<open>single_step\<close> sets \<open>next_reachable[index + 1]\<close>
  for every index the segment matches at.
\<close>

fun deep_step :: "bool \<Rightarrow> bool list \<Rightarrow> bool list" where
  "deep_step can_reach_here [] = []"
| "deep_step can_reach_here (r # rs) =
     (let here = (can_reach_here \<or> r) in here # deep_step here rs)"

definition single_step :: "PathSegment \<Rightarrow> string list \<Rightarrow> bool list \<Rightarrow> bool list" where
  "single_step segment path reachable =
     foldl (\<lambda>next_reachable (index, path_segment).
              if reachable ! index \<and> PathSegment_matches segment path_segment
              then next_reachable[index + 1 := True] else next_reachable)
           (replicate (length path + 1) False) (List.enumerate 0 path)"

definition match_step :: "string list \<Rightarrow> bool list \<Rightarrow> PathSegment \<Rightarrow> bool list" where
  "match_step path reachable segment =
     (if segment = DeepWildcard then deep_step False reachable
      else single_step segment path reachable)"

definition path_segments_match :: "PathSegment list \<Rightarrow> string list \<Rightarrow> bool" where
  "path_segments_match pat path =
     foldl (match_step path) (True # replicate (length path) False) pat ! length path"

definition PathPattern_new :: "string \<Rightarrow> PathSegment list option" where
  "PathPattern_new pat = map_option (map PathSegment_new) (absolute_path_segments pat)"

definition PathPattern_matches :: "PathSegment list option \<Rightarrow> string \<Rightarrow> bool" where
  "PathPattern_matches segments path =
     (case segments of
        None \<Rightarrow> False
      | Some pattern_segments \<Rightarrow>
          (case absolute_path_segments path of
             None \<Rightarrow> False
           | Some path_segments \<Rightarrow> path_segments_match pattern_segments path_segments))"

definition path_pattern_matches :: "string \<Rightarrow> string \<Rightarrow> bool" where
  "path_pattern_matches pat path = PathPattern_matches (PathPattern_new pat) path"

datatype PatternSegment = PS_Literal string | PS_One | PS_Any | PS_Never

definition pattern_segments :: "string \<Rightarrow> PatternSegment list option" where
  "pattern_segments pat =
     map_option
       (map (\<lambda>segment. case PathSegment_new segment of
                Literal _ \<Rightarrow> PS_Literal segment
              | SingleWildcard \<Rightarrow> PS_One
              | Capture \<Rightarrow> PS_One
              | DeepWildcard \<Rightarrow> PS_Any
              | Never \<Rightarrow> PS_Never))
       (absolute_path_segments pat)"

definition find_malformed_capture_segment :: "string \<Rightarrow> string option" where
  "find_malformed_capture_segment pat =
     (case strip_prefix pat ''/'' of
        None \<Rightarrow> None
      | Some tail \<Rightarrow>
          if tail = [] then None
          else find (\<lambda>segment. segment \<noteq> ''*'' \<and> segment \<noteq> ''**''
                               \<and> has_capture_delimiter segment \<and> \<not> is_capture_segment segment)
                    (str_split CHR ''/'' tail))"

lemmas path_defs = GATEWAY_EXACT_ROUTE_PATHS_def path_prefix_matches_def exempt_path_matches_def
  is_unsafe_request_path_def MethodMatcher_new_def method_matches_def matches_every_method_def
  methods_cover_def is_valid_capture_name_def is_capture_segment_def has_capture_delimiter_def
  PathSegment_new_def absolute_path_segments_def single_step_def match_step_def
  path_segments_match_def PathPattern_new_def PathPattern_matches_def path_pattern_matches_def
  pattern_segments_def find_malformed_capture_segment_def

declare path_defs [eval_defs]

section \<open>The declarative reading of a pattern\<close>

text \<open>
  A pattern denotes a language of segment lists: \<open>**\<close> any list of segments, a
  literal itself, \<open>*\<close> and a capture one non-empty segment.
\<close>

inductive seg_match :: "PathSegment list \<Rightarrow> string list \<Rightarrow> bool" where
  seg_nil: "seg_match [] []"
| seg_deep: "seg_match ps ys \<Longrightarrow> seg_match (DeepWildcard # ps) (xs @ ys)"
| seg_one: "PathSegment_matches p x \<Longrightarrow> seg_match ps ys \<Longrightarrow> seg_match (p # ps) (x # ys)"

inductive_cases seg_match_NilE [elim!]: "seg_match [] xs"
inductive_cases seg_match_ConsE: "seg_match (p # ps) xs"
inductive_simps seg_match_Nil [simp]: "seg_match [] xs"

lemma seg_match_append:
  "seg_match ps xs \<Longrightarrow> seg_match qs ys \<Longrightarrow> seg_match (ps @ qs) (xs @ ys)"
  by (induction rule: seg_match.induct) (auto intro: seg_match.intros)

lemma seg_match_appendD:
  "seg_match (ps @ qs) zs \<Longrightarrow> \<exists>xs ys. zs = xs @ ys \<and> seg_match ps xs \<and> seg_match qs ys"
proof (induction ps arbitrary: zs)
  case (Cons p ps)
  from Cons.prems have "seg_match (p # (ps @ qs)) zs" by simp
  then consider (deep) xs ys where "p = DeepWildcard" "zs = xs @ ys" "seg_match (ps @ qs) ys"
    | (one) x ys where "zs = x # ys" "PathSegment_matches p x" "seg_match (ps @ qs) ys"
    by (auto elim: seg_match_ConsE)
  then show ?case
  proof cases
    case deep
    with Cons.IH obtain us vs where "ys = us @ vs" "seg_match ps us" "seg_match qs vs" by blast
    with deep show ?thesis by (metis append_assoc seg_deep)
  next
    case one
    with Cons.IH obtain us vs where "ys = us @ vs" "seg_match ps us" "seg_match qs vs" by blast
    with one show ?thesis by (metis append_Cons seg_one)
  qed
qed auto

lemma seg_match_deep_single: "seg_match [DeepWildcard] xs"
  using seg_deep [OF seg_nil, of xs] by simp

lemma seg_match_single: "seg_match [p] xs \<longleftrightarrow> p = DeepWildcard \<or> (\<exists>x. xs = [x] \<and> PathSegment_matches p x)"
  by (auto elim!: seg_match_ConsE intro: seg_match_deep_single seg_one [OF _ seg_nil])

lemma seg_match_snoc:
  "seg_match (ps @ [p]) zs \<longleftrightarrow>
     (\<exists>xs ys. zs = xs @ ys \<and> seg_match ps xs \<and> seg_match [p] ys)"
  using seg_match_append seg_match_appendD by blast

section \<open>The reachability vector\<close>

lemma length_deep_step [simp]: "length (deep_step c rs) = length rs"
  by (induction rs arbitrary: c) (auto simp: Let_def)

lemma deep_step_nth:
  "i < length rs \<Longrightarrow> deep_step c rs ! i \<longleftrightarrow> c \<or> (\<exists>j\<le>i. rs ! j)"
proof (induction rs arbitrary: c i)
  case (Cons r rs)
  show ?case
  proof (cases i)
    case (Suc k)
    then have "deep_step c (r # rs) ! i \<longleftrightarrow> (c \<or> r) \<or> (\<exists>j\<le>k. rs ! j)"
      using Cons.IH [of k "c \<or> r"] Cons.prems by (simp add: Let_def)
    also have "\<dots> \<longleftrightarrow> c \<or> (\<exists>j\<le>i. (r # rs) ! j)"
      using Suc by (simp add: Ex_less_Suc2 flip: less_Suc_eq_le)
    finally show ?thesis .
  qed (auto simp: Let_def)
qed simp

lemma single_loop_nth:
  fixes path :: "string list" and reachable :: "bool list"
  assumes "n + length path < length acc" "i < length acc"
  shows "foldl (\<lambda>next_reachable (index, path_segment).
              if reachable ! index \<and> PathSegment_matches segment path_segment
              then next_reachable[index + 1 := True] else next_reachable)
           acc (List.enumerate n path) ! i
         \<longleftrightarrow> acc ! i \<or> (\<exists>k<length path. i = n + k + 1 \<and> reachable ! (n + k)
                              \<and> PathSegment_matches segment (path ! k))"
  using assms
proof (induction path arbitrary: n acc)
  case (Cons p path)
  let ?acc = "if reachable ! n \<and> PathSegment_matches segment p then acc[n + 1 := True] else acc"
  let ?P = "\<lambda>n path. \<exists>k<length path. i = n + k + 1 \<and> reachable ! (n + k)
                              \<and> PathSegment_matches segment (path ! k)"
  have split: "?P n (p # path) \<longleftrightarrow>
      (i = n + 1 \<and> reachable ! n \<and> PathSegment_matches segment p) \<or> ?P (Suc n) path"
    by (simp add: Ex_less_Suc2)
  have "?acc ! i \<longleftrightarrow> acc ! i \<or> (i = n + 1 \<and> reachable ! n \<and> PathSegment_matches segment p)"
    using Cons.prems by (auto simp: nth_list_update)
  then show ?case using Cons.IH [of "Suc n" ?acc] Cons.prems split by auto
qed simp

lemma single_loop_length:
  "length (foldl (\<lambda>next_reachable (index, path_segment).
              if P index path_segment then next_reachable[index + 1 := True] else next_reachable)
           acc xs) = length acc"
  by (induction xs arbitrary: acc) (auto split: prod.splits)

lemma length_single_step [simp]: "length (single_step s path r) = length path + 1"
  by (simp add: single_step_def single_loop_length)

lemma single_step_nth:
  assumes "i \<le> length path"
  shows "single_step s path r ! i
         \<longleftrightarrow> (\<exists>k<length path. i = k + 1 \<and> r ! k \<and> PathSegment_matches s (path ! k))"
  using single_loop_nth [of 0 path "replicate (length path + 1) False" i r s] assms
  by (simp add: single_step_def nth_Cons split: nat.splits)

lemma take_split: "i \<le> length xs \<Longrightarrow>
  (\<exists>us vs. take i xs = us @ vs \<and> P us \<and> Q vs) \<longleftrightarrow>
  (\<exists>j\<le>i. P (take j xs) \<and> Q (drop j (take i xs)))" (is "_ \<Longrightarrow> ?L \<longleftrightarrow> ?R")
proof
  assume i: "i \<le> length xs"
  { assume ?L
    then obtain us vs where uv: "take i xs = us @ vs" "P us" "Q vs" by blast
    then have "length us \<le> i" by (metis i length_append le_add1 length_take min.absorb2)
    moreover have "take (length us) xs = us"
      by (metis append_eq_conv_conj min.absorb1 take_take uv(1) calculation)
    moreover have "drop (length us) (take i xs) = vs" by (simp add: uv(1))
    ultimately show ?R using uv by metis }
  { assume ?R
    then obtain j where "j \<le> i" "P (take j xs)" "Q (drop j (take i xs))" by blast
    moreover have "take i xs = take j xs @ drop j (take i xs)"
      by (metis append_take_drop_id \<open>j \<le> i\<close> min.absorb1 take_take)
    ultimately show ?L by blast }
qed

lemma match_step_length:
  "length r = length path + 1 \<Longrightarrow> length (match_step path r s) = length path + 1"
  by (simp add: match_step_def)

lemma match_step_reach:
  assumes len: "length r = length path + 1"
    and inv: "\<forall>i\<le>length path. r ! i \<longleftrightarrow> seg_match ps (take i path)"
    and i: "i \<le> length path"
  shows "match_step path r s ! i \<longleftrightarrow> seg_match (ps @ [s]) (take i path)"
proof (cases "s = DeepWildcard")
  case True
  have "match_step path r s ! i \<longleftrightarrow> (\<exists>j\<le>i. r ! j)"
    using True len i by (simp add: match_step_def deep_step_nth)
  also have "\<dots> \<longleftrightarrow> (\<exists>j\<le>i. seg_match ps (take j path) \<and> seg_match [s] (drop j (take i path)))"
    using inv i True by (auto simp: seg_match_deep_single)
  finally show ?thesis by (simp add: seg_match_snoc take_split [OF i])
next
  case False
  have "match_step path r s ! i
        \<longleftrightarrow> (\<exists>k<length path. i = k + 1 \<and> r ! k \<and> PathSegment_matches s (path ! k))"
    using False i by (simp add: match_step_def single_step_nth)
  also have "\<dots> \<longleftrightarrow> (\<exists>j\<le>i. seg_match ps (take j path) \<and> seg_match [s] (drop j (take i path)))"
  proof -
    have one: "(\<exists>x. drop j (take i path) = [x] \<and> PathSegment_matches s x)
               \<longleftrightarrow> i = j + 1 \<and> PathSegment_matches s (path ! j)" if "j \<le> i" for j
    proof (cases "i = j + 1")
      case True
      then have "drop j (take i path) = [path ! j]"
        using i by (simp add: take_Suc_conv_app_nth)
      then show ?thesis using True by simp
    next
      case False
      have "length (drop j (take i path)) = i - j" using i by simp
      with False that have "length (drop j (take i path)) \<noteq> 1" by linarith
      then have "drop j (take i path) \<noteq> [x]" for x
        by (metis One_nat_def length_Cons list.size(3))
      then show ?thesis using False by simp
    qed
    have "seg_match [s] (drop j (take i path)) \<longleftrightarrow> i = j + 1 \<and> PathSegment_matches s (path ! j)"
      if "j \<le> i" for j
      using False one [OF that] by (simp add: seg_match_single)
    then have "(\<exists>j\<le>i. seg_match ps (take j path) \<and> seg_match [s] (drop j (take i path)))
          \<longleftrightarrow> (\<exists>j\<le>i. seg_match ps (take j path) \<and> i = j + 1 \<and> PathSegment_matches s (path ! j))"
      by metis
    then show ?thesis using inv i by auto
  qed
  finally show ?thesis by (simp add: seg_match_snoc take_split [OF i])
qed

lemma path_segments_reach:
  "length (foldl (match_step path) (True # replicate (length path) False) ps) = length path + 1
   \<and> (\<forall>i\<le>length path. foldl (match_step path) (True # replicate (length path) False) ps ! i
        \<longleftrightarrow> seg_match ps (take i path))"
proof (induction ps rule: rev_induct)
  case Nil
  have "(True # replicate (length path) False) ! i \<longleftrightarrow> seg_match [] (take i path)"
    if "i \<le> length path" for i
  proof (cases i)
    case (Suc k)
    then have "k < length path" "take i path \<noteq> []" using that by (auto simp: Suc_le_eq)
    then show ?thesis using Suc by simp
  qed simp
  then show ?case by simp
next
  case (snoc s ps)
  let ?r = "foldl (match_step path) (True # replicate (length path) False) ps"
  from snoc have len: "length ?r = length path + 1"
    and inv: "\<forall>i\<le>length path. ?r ! i \<longleftrightarrow> seg_match ps (take i path)" by blast+
  have fold: "foldl (match_step path) (True # replicate (length path) False) (ps @ [s])
      = match_step path ?r s" by simp
  show ?case
    unfolding fold using match_step_length [OF len, of s] match_step_reach [OF len inv, of _ s]
    by metis
qed

lemma path_segments_match_iff: "path_segments_match ps path \<longleftrightarrow> seg_match ps path"
  using path_segments_reach [of path ps] by (simp add: path_segments_match_def)

section \<open>Properties\<close>

lemma path_prefix_matches_iff:
  "path_prefix_matches path p \<longleftrightarrow>
     starts_with p ''/'' \<and>
     (path = p \<or> (if ends_with p ''/'' then \<exists>t. path = p @ t else \<exists>t. path = p @ CHR ''/'' # t))"
proof -
  have "(case strip_prefix path p of None \<Rightarrow> False | Some r \<Rightarrow> starts_with r ''/'')
        \<longleftrightarrow> (\<exists>t. path = p @ CHR ''/'' # t)"
    by (cases "strip_prefix path p") (auto simp: strip_prefix_eq_Some starts_with_single)
  then show ?thesis by (auto simp: path_prefix_matches_def starts_with_iff [of path p])
qed

text \<open>
  a path prefix is compared segment by segment. An absolute prefix without
  a trailing slash matches exactly the paths whose segment list it begins, and one
  with a trailing slash exactly the paths strictly below it.
\<close>

theorem path_prefix_matches_segments:
  "path_prefix_matches path p \<longleftrightarrow>
     starts_with p ''/'' \<and>
     (if ends_with p ''/''
      then strict_prefix (butlast (str_split CHR ''/'' p)) (str_split CHR ''/'' path)
      else prefix (str_split CHR ''/'' p) (str_split CHR ''/'' path))"
proof (cases "ends_with p ''/''")
  case True
  then obtain q where q: "p = q @ ''/''" by (auto simp: ends_with_iff)
  then have split: "str_split CHR ''/'' p = str_split CHR ''/'' q @ [[]]"
    using str_split_append_sep [of "CHR ''/''" q "[]"] by simp
  have "strict_prefix (str_split CHR ''/'' q) (str_split CHR ''/'' path)
        \<longleftrightarrow> (\<exists>t. path = q @ CHR ''/'' # t)"
    by (auto simp: strict_prefix_def prefix_str_split str_split_inj)
  moreover have "path_prefix_matches path p \<longleftrightarrow> starts_with p ''/'' \<and> (\<exists>t. path = q @ CHR ''/'' # t)"
    unfolding path_prefix_matches_iff using True q by auto
  ultimately show ?thesis using True by (simp add: split)
next
  case False
  then show ?thesis by (auto simp: path_prefix_matches_iff prefix_str_split)
qed

lemma PathSegment_new_Never:
  "PathSegment_new s = Never \<longleftrightarrow>
     s \<noteq> ''*'' \<and> s \<noteq> ''**'' \<and> has_capture_delimiter s \<and> \<not> is_capture_segment s"
  by (auto simp: PathSegment_new_def)

lemma find_malformed_Never:
  "find_malformed_capture_segment pat \<noteq> None \<longleftrightarrow>
     (\<exists>ps. PathPattern_new pat = Some ps \<and> Never \<in> set ps)"
proof (cases "strip_prefix pat ''/''")
  case None
  then show ?thesis
    by (simp add: find_malformed_capture_segment_def PathPattern_new_def absolute_path_segments_def)
next
  case (Some tail)
  have "Never \<in> set (map PathSegment_new ss) \<longleftrightarrow> (\<exists>s\<in>set ss. PathSegment_new s = Never)" for ss
    by (metis (no_types) imageE image_eqI list.set_map)
  with Some show ?thesis
    by (cases "tail = []")
       (simp_all add: Bex_def find_malformed_capture_segment_def PathPattern_new_def
          absolute_path_segments_def find_None_iff flip: PathSegment_new_Never)
qed

lemma seg_match_no_Never: "seg_match ps xs \<Longrightarrow> Never \<notin> set ps"
  by (induction rule: seg_match.induct) auto

text \<open>
  C27: the reachability vector decides the declarative language of a pattern. A
  path matches exactly when pattern and path are both absolute and the path's
  segments are in the language of the pattern's segments.
\<close>

theorem path_pattern_matches_language:
  "path_pattern_matches pat path \<longleftrightarrow>
     (\<exists>ps xs. PathPattern_new pat = Some ps \<and> absolute_path_segments path = Some xs
              \<and> seg_match ps xs)"
  by (auto simp: path_pattern_matches_def PathPattern_matches_def path_segments_match_iff
      split: option.splits)

text \<open>
  the validating parse and the matcher agree on the capture grammar. The
  parse reports a malformed segment in a pattern exactly when the matcher compiles
  some segment of it to the one that matches nothing, and a pattern it reports
  matches no path.
\<close>

theorem find_malformed_capture_segment_exact:
  "(find_malformed_capture_segment pat \<noteq> None \<longleftrightarrow>
     (\<exists>ps. PathPattern_new pat = Some ps \<and> Never \<in> set ps))
   \<and> (find_malformed_capture_segment pat \<noteq> None \<longrightarrow> \<not> path_pattern_matches pat path)"
proof -
  have "\<not> path_pattern_matches pat path" if "find_malformed_capture_segment pat \<noteq> None"
    using that unfolding find_malformed_Never
    by (auto simp: path_pattern_matches_def PathPattern_matches_def path_segments_match_iff
        dest: seg_match_no_Never split: option.splits)
  then show ?thesis using find_malformed_Never by blast
qed

theorem find_malformed_capture_segment_exact_witness:
  "find_malformed_capture_segment ''/a/{b'' \<noteq> None \<and> \<not> path_pattern_matches ''/a/{b'' ''/a/x''"
proof -
  have "find_malformed_capture_segment ''/a/{b'' \<noteq> None"
    by (simp add: eval_defs)
  then show ?thesis using find_malformed_capture_segment_exact [of "''/a/{b''" "''/a/x''"] by blast
qed

section \<open>Method lists cover each other exactly\<close>

lemma method_matcher_loop_Any:
  "method_matcher_loop acc ms = MM_Any \<longleftrightarrow> ''*'' \<in> str_trim ` set ms"
  by (induction acc ms rule: method_matcher_loop.induct) (auto simp: Let_def)

lemma method_matcher_loop_Exact:
  "''*'' \<notin> str_trim ` set ms \<Longrightarrow> method_matcher_loop acc ms = MM_Exact (acc @ map str_trim ms)"
  by (induction acc ms rule: method_matcher_loop.induct) (auto simp: Let_def)

lemma MethodMatcher_new_cases:
  "MethodMatcher_new ms =
     (if ms = [] \<or> ''*'' \<in> str_trim ` set ms then MM_Any else MM_Exact (map str_trim ms))"
  by (auto simp: MethodMatcher_new_def method_matcher_loop_Any method_matcher_loop_Exact)

lemma exact_misses_some_method:
  "\<exists>m. \<not> MethodMatcher_matches (MM_Exact xs) m"
proof -
  let ?m = "replicate (Suc (sum_list (map length xs))) CHR ''a''"
  have "length x < length ?m" if "x \<in> set xs" for x
    using member_le_sum_list [of "length x" "map length xs"] that by simp
  then have "\<not> eq_ignore_ascii_case x ?m" if "x \<in> set xs" for x
    using that by (metis eq_ignore_ascii_case_def length_str_lower less_irrefl)
  then show ?thesis by (auto simp: list_ex_iff)
qed

text \<open>
  \<open>methods_cover\<close> is exact. One method list covers another exactly when every
  request method the second matches is one the first matches.
\<close>

theorem methods_cover_exact:
  "methods_cover covering covered \<longleftrightarrow>
     (\<forall>m. method_matches covered m \<longrightarrow> method_matches covering m)"
proof (cases "MethodMatcher_new covering")
  case MM_Any
  then show ?thesis by (simp add: methods_cover_def method_matches_def)
next
  case (MM_Exact xs)
  show ?thesis
  proof (cases "MethodMatcher_new covered")
    case MM_Any
    with MM_Exact show ?thesis
      using exact_misses_some_method [of xs] by (simp add: methods_cover_def method_matches_def)
  next
    case (MM_Exact ys)
    with \<open>MethodMatcher_new covering = MM_Exact xs\<close> show ?thesis
      by (simp add: methods_cover_def method_matches_def list_ex_iff list_all_iff)
         (metis eq_ignore_ascii_case_refl eq_ignore_ascii_case_trans)
  qed
qed

end
