(* ===== verification/Principals.thy ===== *)
theory Principals
  imports Path_Matching "HOL-Library.Word"
begin

text \<open>
  Identities and the constraints a policy states on them: the authenticated
  principal of \<open>gateway/src/auth/principal.rs\<close>, the identity bounds and issuer
  labels of \<open>gateway-config/src/auth.rs\<close>, the principal matchers of
  \<open>gateway/src/rbac/rule.rs\<close> and the role engine of \<open>gateway/src/rbac/engine.rs\<close>.

  JSON values are \<open>serde_json::Value\<close>. The workspace builds \<open>serde_json\<close> with
  \<open>arbitrary_precision\<close>, so a number is its source text; an object is its
  members in the order its iterator yields them.
\<close>

section \<open>JSON values and addresses\<close>

datatype json =
    JNull
  | JBool bool
  | JNumber string
  | JString string
  | JArray "json list"
  | JObject "(string \<times> json) list"

fun json_as_str :: "json \<Rightarrow> string option" where
  "json_as_str (JString s) = Some s"
| "json_as_str _ = None"

fun json_as_object :: "json \<Rightarrow> (string \<times> json) list option" where
  "json_as_object (JObject members) = Some members"
| "json_as_object _ = None"

fun json_as_array :: "json \<Rightarrow> json list option" where
  "json_as_array (JArray xs) = Some xs"
| "json_as_array _ = None"

definition json_get :: "json \<Rightarrow> string \<Rightarrow> json option" where
  "json_get v key = Option.bind (json_as_object v) (\<lambda>members. map_of members key)"

datatype IpAddr = V4 "32 word" | V6 "128 word"

text \<open>\<open>IpAddr::to_canonical\<close>: an IPv4-mapped IPv6 address \<open>::ffff:a.b.c.d\<close> is the IPv4 address.\<close>

fun to_canonical :: "IpAddr \<Rightarrow> IpAddr" where
  "to_canonical (V4 a) = V4 a"
| "to_canonical (V6 a) = (if drop_bit 32 a = 0xFFFF then V4 (ucast a) else V6 a)"

section \<open>Authentication methods\<close>

datatype AuthMethod = Cookie | Bearer | ServiceToken | ClientCertificate

definition AUTH_METHOD_BEARER_TOKEN :: string where
  "AUTH_METHOD_BEARER_TOKEN = ''bearer_token''"
definition AUTH_METHOD_SESSION_COOKIE :: string where
  "AUTH_METHOD_SESSION_COOKIE = ''session_cookie''"
definition AUTH_METHOD_SERVICE_TOKEN :: string where
  "AUTH_METHOD_SERVICE_TOKEN = ''service_token''"
definition AUTH_METHOD_CLIENT_CERTIFICATE :: string where
  "AUTH_METHOD_CLIENT_CERTIFICATE = ''client_certificate''"

lemmas auth_method_names = AUTH_METHOD_BEARER_TOKEN_def AUTH_METHOD_SESSION_COOKIE_def
  AUTH_METHOD_SERVICE_TOKEN_def AUTH_METHOD_CLIENT_CERTIFICATE_def

definition ALL_AUTH_METHOD_NAMES :: "string list" where
  "ALL_AUTH_METHOD_NAMES =
     [AUTH_METHOD_BEARER_TOKEN, AUTH_METHOD_SESSION_COOKIE,
      AUTH_METHOD_SERVICE_TOKEN, AUTH_METHOD_CLIENT_CERTIFICATE]"

definition valid_auth_method_name :: "string \<Rightarrow> bool" where
  "valid_auth_method_name s = (s \<in> set ALL_AUTH_METHOD_NAMES)"

fun auth_method_policy_value :: "AuthMethod \<Rightarrow> string" where
  "auth_method_policy_value Bearer = AUTH_METHOD_BEARER_TOKEN"
| "auth_method_policy_value Cookie = AUTH_METHOD_SESSION_COOKIE"
| "auth_method_policy_value ServiceToken = AUTH_METHOD_SERVICE_TOKEN"
| "auth_method_policy_value ClientCertificate = AUTH_METHOD_CLIENT_CERTIFICATE"

fun audit_mode :: "AuthMethod \<Rightarrow> string" where
  "audit_mode Cookie = ''session_cookie''"
| "audit_mode Bearer = ''bearer_token''"
| "audit_mode ServiceToken = ''service_token''"
| "audit_mode ClientCertificate = ''client_certificate''"

section \<open>Principals\<close>

record VerifiedClaim =
  claim_name :: string
  claim_values :: "json list"

record Principal =
  user_id :: string
  issuer :: "string option"
  email :: "string option"
  org_id :: "string option"
  roles :: "string list"
  session_id :: string
  auth_method :: AuthMethod
  scopes :: "string list option"
  verified_claims :: "VerifiedClaim list"

definition MAX_PRINCIPAL_ROLES :: nat where "MAX_PRINCIPAL_ROLES = 256"
definition MAX_PRINCIPAL_SCOPES :: nat where "MAX_PRINCIPAL_SCOPES = 256"
definition MAX_PRINCIPAL_ISSUER_BYTES :: nat where "MAX_PRINCIPAL_ISSUER_BYTES = 4096"
definition MAX_PRINCIPAL_ROLE_BYTES :: nat where "MAX_PRINCIPAL_ROLE_BYTES = 256"
definition MAX_PRINCIPAL_SUBJECT_BYTES :: nat where "MAX_PRINCIPAL_SUBJECT_BYTES = 4096"
definition MAX_VERIFIED_CLAIMS :: nat where "MAX_VERIFIED_CLAIMS = 16"
definition MAX_VERIFIED_CLAIM_NAME_BYTES :: nat where "MAX_VERIFIED_CLAIM_NAME_BYTES = 256"
definition MAX_PRINCIPAL_SCOPE_BYTES :: nat where "MAX_PRINCIPAL_SCOPE_BYTES = 256"
definition MAX_VERIFIED_CLAIM_VALUE_BYTES :: nat where "MAX_VERIFIED_CLAIM_VALUE_BYTES = 256"
definition MAX_VERIFIED_CLAIM_VALUES :: nat where "MAX_VERIFIED_CLAIM_VALUES = 32"

lemmas principal_bounds = MAX_PRINCIPAL_ROLES_def MAX_PRINCIPAL_SCOPES_def MAX_PRINCIPAL_ISSUER_BYTES_def
  MAX_PRINCIPAL_ROLE_BYTES_def MAX_PRINCIPAL_SUBJECT_BYTES_def
  MAX_VERIFIED_CLAIMS_def MAX_VERIFIED_CLAIM_NAME_BYTES_def MAX_PRINCIPAL_SCOPE_BYTES_def
  MAX_VERIFIED_CLAIM_VALUE_BYTES_def MAX_VERIFIED_CLAIM_VALUES_def

declare principal_bounds [eval_defs]

datatype PrincipalShapeError =
    TooManyRoles | SubjectTooLong | IssuerTooLong | RoleTooLong | EmptySubject | EmptyRole

definition PrincipalShapeError_is_size :: "PrincipalShapeError \<Rightarrow> bool" where
  "PrincipalShapeError_is_size e = (e \<noteq> EmptySubject \<and> e \<noteq> EmptyRole)"

definition check_roles_size :: "string list \<Rightarrow> (PrincipalShapeError, unit) result" where
  "check_roles_size rs =
     (if length rs > MAX_PRINCIPAL_ROLES then Inl TooManyRoles
      else if list_ex (\<lambda>role. length role > MAX_PRINCIPAL_ROLE_BYTES) rs then Inl RoleTooLong
      else Inr ())"

definition check_roles_emptiness :: "string list \<Rightarrow> (PrincipalShapeError, unit) result" where
  "check_roles_emptiness rs = (if list_ex (\<lambda>role. role = []) rs then Inl EmptyRole else Inr ())"

definition check_roles_shape :: "string list \<Rightarrow> (PrincipalShapeError, unit) result" where
  "check_roles_shape rs =
     (case check_roles_size rs of Inl e \<Rightarrow> Inl e | Inr _ \<Rightarrow> check_roles_emptiness rs)"

definition check_principal_shape ::
    "string \<Rightarrow> string option \<Rightarrow> string list \<Rightarrow> (PrincipalShapeError, unit) result" where
  "check_principal_shape uid iss rs =
     (if length uid > MAX_PRINCIPAL_SUBJECT_BYTES then Inl SubjectTooLong
      else if (case iss of None \<Rightarrow> False | Some i \<Rightarrow> length i > MAX_PRINCIPAL_ISSUER_BYTES)
      then Inl IssuerTooLong
      else (case check_roles_size rs of
              Inl e \<Rightarrow> Inl e
            | Inr _ \<Rightarrow> if uid = [] then Inl EmptySubject else check_roles_emptiness rs))"

definition check_shape :: "Principal \<Rightarrow> (PrincipalShapeError, unit) result" where
  "check_shape p = check_principal_shape (user_id p) (issuer p) (roles p)"

section \<open>Issuers, scopes and claims\<close>

fun trim_end_slashes_rev :: "string \<Rightarrow> string" where
  "trim_end_slashes_rev [] = []"
| "trim_end_slashes_rev (c # s) = (if c = CHR ''/'' then trim_end_slashes_rev s else c # s)"

definition canonical_issuer :: "string \<Rightarrow> string option" where
  "canonical_issuer iss =
     (let i = rev (trim_end_slashes_rev (rev (str_trim iss))) in
      if i = [] then None else Some i)"

definition PROVIDER_ISSUER_PREFIX :: string where
  "PROVIDER_ISSUER_PREFIX = ''provider:''"

definition hex_upper :: "nat \<Rightarrow> char" where
  "hex_upper n = ''0123456789ABCDEF'' ! n"

fun provider_encode :: "string \<Rightarrow> string" where
  "provider_encode [] = []"
| "provider_encode (c # s) =
     (if is_ascii_alphanumeric c \<or> c \<in> {CHR ''-'', CHR ''.'', CHR ''_'', CHR ''~''}
      then c # provider_encode s
      else CHR ''%'' # hex_upper (byte c div 16) # hex_upper (byte c mod 16) # provider_encode s)"

definition provider_issuer :: "string \<Rightarrow> string" where
  "provider_issuer provider_name = PROVIDER_ISSUER_PREFIX @ provider_encode provider_name"

definition is_scope_token :: "string \<Rightarrow> bool" where
  "is_scope_token s =
     (s \<noteq> [] \<and> length s \<le> MAX_PRINCIPAL_SCOPE_BYTES
      \<and> list_all (\<lambda>b. byte b = 0x21 \<or> (0x23 \<le> byte b \<and> byte b \<le> 0x5b)
                      \<or> (0x5d \<le> byte b \<and> byte b \<le> 0x7e)) s)"

text \<open>
  \<open>text.chars().any(char::is_control)\<close>: the control characters are U+0000 to
  U+001F and U+007F to U+009F, the last encoded as \<open>C2 80\<close> to \<open>C2 9F\<close>.
\<close>

fun has_control :: "string \<Rightarrow> bool" where
  "has_control [] = False"
| "has_control (c # s) =
     (is_ascii_control c
      \<or> (byte c = 0xC2 \<and> (case s of [] \<Rightarrow> False | d # _ \<Rightarrow> 0x80 \<le> byte d \<and> byte d \<le> 0x9F))
      \<or> has_control s)"

definition is_verified_claim_text :: "string \<Rightarrow> bool" where
  "is_verified_claim_text s = (length s \<le> MAX_VERIFIED_CLAIM_VALUE_BYTES \<and> \<not> has_control s)"

definition RESERVED_CLAIM_NAMES :: "string list" where
  "RESERVED_CLAIM_NAMES =
     [''iss'', ''sub'', ''aud'', ''exp'', ''nbf'', ''iat'', ''jti'', ''sid'', ''nonce'', ''at_hash'',
      ''c_hash'', ''s_hash'', ''cnf'', ''scope'', ''scp'', ''email'']"

definition CREDENTIAL_CLAIM_FRAGMENTS :: "string list" where
  "CREDENTIAL_CLAIM_FRAGMENTS = [''token'', ''secret'', ''passw'', ''credential'']"

datatype ClaimNameProblem = ClaimNameLength | ClaimNameText | ClaimNameReserved

definition verified_claim_name_problem :: "string \<Rightarrow> ClaimNameProblem option" where
  "verified_claim_name_problem name =
     (if name = [] \<or> length name > MAX_VERIFIED_CLAIM_NAME_BYTES then Some ClaimNameLength
      else if has_control name \<or> str_trim name \<noteq> name then Some ClaimNameText
      else if name \<in> set RESERVED_CLAIM_NAMES
              \<or> list_ex (\<lambda>fragment. str_contains (str_lower name) fragment) CREDENTIAL_CLAIM_FRAGMENTS
      then Some ClaimNameReserved
      else None)"

section \<open>Principal constraints\<close>

record PrincipalMatcher =
  pm_roles :: "string list"
  pm_issuers :: "string list"
  pm_auth_methods :: "string list"
  pm_principal_ids :: "string list"

definition is_unconstrained :: "PrincipalMatcher \<Rightarrow> bool" where
  "is_unconstrained m =
     (pm_roles m = [] \<and> pm_issuers m = [] \<and> pm_auth_methods m = [] \<and> pm_principal_ids m = [])"

definition constraint_matches :: "string list \<Rightarrow> (string \<Rightarrow> bool) \<Rightarrow> bool" where
  "constraint_matches vs matches_value = (vs = [] \<or> list_ex matches_value vs)"

definition principal_identity_matches ::
    "string list \<Rightarrow> string list \<Rightarrow> Principal \<Rightarrow> bool" where
  "principal_identity_matches issuers auth_methods p =
     (constraint_matches issuers (\<lambda>i. issuer p = Some i)
      \<and> constraint_matches auth_methods (\<lambda>m. m = auth_method_policy_value (auth_method p)))"

definition PrincipalMatcher_matches :: "PrincipalMatcher \<Rightarrow> Principal option \<Rightarrow> bool" where
  "PrincipalMatcher_matches m caller =
     (if is_unconstrained m then True
      else (case caller of
              None \<Rightarrow> False
            | Some p \<Rightarrow>
                constraint_matches (pm_roles m)
                  (\<lambda>role. list_ex (\<lambda>principal_role. principal_role = role) (roles p))
                \<and> principal_identity_matches (pm_issuers m) (pm_auth_methods m) p
                \<and> constraint_matches (pm_principal_ids m) (\<lambda>pid. user_id p = pid)))"

section \<open>The role engine\<close>

record RoleEntry =
  re_permissions :: "string list"
  re_issuers :: "string list"
  re_auth_methods :: "string list"
  re_description :: "string option"

definition matches_principal_identity :: "RoleEntry \<Rightarrow> Principal \<Rightarrow> bool" where
  "matches_principal_identity entry p =
     principal_identity_matches (re_issuers entry) (re_auth_methods entry) p"

definition grants_permission :: "string list \<Rightarrow> string \<Rightarrow> bool" where
  "grants_permission permissions permission =
     list_ex (\<lambda>grant. grant = ''*'' \<or> grant = permission) permissions"

definition active_entries :: "(string \<rightharpoonup> RoleEntry) \<Rightarrow> Principal \<Rightarrow> RoleEntry list" where
  "active_entries policy_roles p =
     filter (\<lambda>entry. matches_principal_identity entry p) (List.map_filter policy_roles (roles p))"

definition principal_has_permission ::
    "(string \<rightharpoonup> RoleEntry) \<Rightarrow> Principal \<Rightarrow> string \<Rightarrow> bool" where
  "principal_has_permission policy_roles p permission =
     list_ex (\<lambda>entry. grants_permission (re_permissions entry) permission)
       (active_entries policy_roles p)"

definition principal_has_wildcard :: "(string \<rightharpoonup> RoleEntry) \<Rightarrow> Principal \<Rightarrow> bool" where
  "principal_has_wildcard policy_roles p =
     list_ex (\<lambda>grant. grant = ''*'') (concat (map re_permissions (active_entries policy_roles p)))"

definition principal_has_active_role ::
    "(string \<rightharpoonup> RoleEntry) \<Rightarrow> Principal \<Rightarrow> string \<Rightarrow> bool" where
  "principal_has_active_role policy_roles p role =
     (list_ex (\<lambda>held. held = role) (roles p)
      \<and> (case policy_roles role of
           None \<Rightarrow> False
         | Some entry \<Rightarrow> matches_principal_identity entry p))"

lemmas principal_defs = check_roles_size_def check_roles_emptiness_def check_roles_shape_def
  check_principal_shape_def check_shape_def canonical_issuer_def PROVIDER_ISSUER_PREFIX_def
  provider_issuer_def is_scope_token_def is_verified_claim_text_def verified_claim_name_problem_def
  is_unconstrained_def constraint_matches_def principal_identity_matches_def
  PrincipalMatcher_matches_def matches_principal_identity_def grants_permission_def
  active_entries_def principal_has_permission_def principal_has_wildcard_def
  principal_has_active_role_def ALL_AUTH_METHOD_NAMES_def valid_auth_method_name_def

declare principal_defs [eval_defs] auth_method_names [eval_defs]

section \<open>Properties\<close>

text \<open>The principal shape predicate\<close>

lemma check_roles_size_iff:
  "check_roles_size rs = Inr () \<longleftrightarrow>
     length rs \<le> MAX_PRINCIPAL_ROLES \<and> (\<forall>r\<in>set rs. length r \<le> MAX_PRINCIPAL_ROLE_BYTES)"
  by (auto simp: check_roles_size_def list_ex_iff not_less) force+

lemma check_roles_size_error: "check_roles_size rs = Inl e \<Longrightarrow> PrincipalShapeError_is_size e"
  by (auto simp: check_roles_size_def PrincipalShapeError_is_size_def split: if_splits)

lemma check_roles_emptiness_iff: "check_roles_emptiness rs = Inr () \<longleftrightarrow> [] \<notin> set rs"
  by (auto simp: check_roles_emptiness_def list_ex_iff)

lemma check_roles_emptiness_error: "check_roles_emptiness rs = Inl e \<Longrightarrow> e = EmptyRole"
  by (auto simp: check_roles_emptiness_def split: if_splits)

definition within_sizes :: "string \<Rightarrow> string option \<Rightarrow> string list \<Rightarrow> bool" where
  "within_sizes uid iss rs =
     (length uid \<le> MAX_PRINCIPAL_SUBJECT_BYTES
      \<and> (\<forall>i. iss = Some i \<longrightarrow> length i \<le> MAX_PRINCIPAL_ISSUER_BYTES)
      \<and> length rs \<le> MAX_PRINCIPAL_ROLES
      \<and> (\<forall>r\<in>set rs. length r \<le> MAX_PRINCIPAL_ROLE_BYTES))"

lemma check_principal_shape_ok:
  "check_principal_shape uid iss rs = Inr () \<longleftrightarrow>
     within_sizes uid iss rs \<and> uid \<noteq> [] \<and> [] \<notin> set rs"
  by (cases "check_roles_size rs")
     (use check_roles_size_iff [of rs] in
       \<open>auto simp: check_principal_shape_def within_sizes_def check_roles_emptiness_iff
          split: option.splits\<close>)

lemma check_principal_shape_size:
  "(\<exists>e. check_principal_shape uid iss rs = Inl e \<and> PrincipalShapeError_is_size e)
   \<longleftrightarrow> \<not> within_sizes uid iss rs"
proof (cases "check_roles_size rs")
  case (Inl e)
  then show ?thesis
    using check_roles_size_error [OF Inl] check_roles_size_iff [of rs]
    by (auto simp: check_principal_shape_def within_sizes_def PrincipalShapeError_is_size_def
        split: option.splits)
next
  case (Inr u)
  then show ?thesis
    using check_roles_size_iff [of rs] check_roles_emptiness_error [of rs]
    by (auto simp: check_principal_shape_def within_sizes_def PrincipalShapeError_is_size_def
        split: option.splits)
qed

text \<open>
  the principal shape check accepts exactly the identities within every size
  bound with a non-empty subject and no empty role, and judges size before
  emptiness: it reports a size fault exactly when some size bound is exceeded,
  whatever else is wrong, so the kernel's two error classes never overlap.
\<close>

theorem check_principal_shape_exact:
  "(check_principal_shape uid iss rs = Inr () \<longleftrightarrow>
      within_sizes uid iss rs \<and> uid \<noteq> [] \<and> [] \<notin> set rs)
   \<and> ((\<exists>e. check_principal_shape uid iss rs = Inl e \<and> PrincipalShapeError_is_size e)
      \<longleftrightarrow> \<not> within_sizes uid iss rs)"
  by (simp only: check_principal_shape_ok check_principal_shape_size simp_thms)

text \<open>Provider labels\<close>

lemma hex_upper_inj:
  assumes "a < 16" "b < 16" "hex_upper a = hex_upper b" shows "a = b"
proof -
  have "distinct ''0123456789ABCDEF''" by simp
  then show ?thesis using assms by (simp add: hex_upper_def nth_eq_iff_index_eq)
qed

lemma byte_hex_inj:
  assumes "hex_upper (byte c div 16) = hex_upper (byte d div 16)"
    and "hex_upper (byte c mod 16) = hex_upper (byte d mod 16)"
  shows "c = d"
proof -
  have "byte c < 256" "byte d < 256" by (rule nat_of_char_less_256)+
  then have "byte c div 16 < 16" "byte d div 16 < 16" by linarith+
  then have "byte c div 16 = byte d div 16" "byte c mod 16 = byte d mod 16"
    using assms by (auto intro: hex_upper_inj)
  then have "byte c = byte d" by (metis div_mult_mod_eq)
  then show ?thesis by simp
qed

lemma provider_encode_inj: "provider_encode a = provider_encode b \<longleftrightarrow> a = b"
proof (induction a arbitrary: b)
  case Nil
  then show ?case by (cases b) auto
next
  case (Cons c a)
  have pct: "\<not> is_ascii_alphanumeric CHR ''%''" by (simp add: ascii_defs)
  show ?case
  proof (cases b)
    case (Cons d b')
    then show ?thesis using Cons.IH [of b'] pct by (auto dest: byte_hex_inj)
  qed simp
qed

text \<open>
  the identity-boundary label of a provider without an issuer is injective in
  its name, so principals of two such providers never share an issuer, and it begins with the reserved prefix.
\<close>

theorem provider_issuer_injective:
  "(provider_issuer a = provider_issuer b \<longleftrightarrow> a = b)
   \<and> starts_with (provider_issuer a) PROVIDER_ISSUER_PREFIX"
  by (simp add: provider_issuer_def provider_encode_inj)

text \<open>Permissions\<close>

lemma active_entries_set:
  "entry \<in> set (active_entries policy_roles p) \<longleftrightarrow>
     (\<exists>role\<in>set (roles p). policy_roles role = Some entry \<and> matches_principal_identity entry p)"
  by (force simp: active_entries_def map_filter_def)

lemma grants_permission_iff:
  "grants_permission permissions permission \<longleftrightarrow>
     ''*'' \<in> set permissions \<or> permission \<in> set permissions"
  by (auto simp: grants_permission_def list_ex_iff)

lemma principal_has_permission_iff:
  "principal_has_permission policy_roles p permission \<longleftrightarrow>
     (\<exists>role\<in>set (roles p). \<exists>entry. policy_roles role = Some entry
        \<and> matches_principal_identity entry p
        \<and> (''*'' \<in> set (re_permissions entry) \<or> permission \<in> set (re_permissions entry)))"
  unfolding principal_has_permission_def list_ex_iff grants_permission_iff Bex_def active_entries_set
  by blast

lemma principal_has_wildcard_iff:
  "principal_has_wildcard policy_roles p \<longleftrightarrow>
     (\<exists>role\<in>set (roles p). \<exists>entry. policy_roles role = Some entry
        \<and> matches_principal_identity entry p \<and> ''*'' \<in> set (re_permissions entry))"
proof -
  have "principal_has_wildcard policy_roles p \<longleftrightarrow>
    (\<exists>entry\<in>set (active_entries policy_roles p). ''*'' \<in> set (re_permissions entry))"
    by (auto simp: principal_has_wildcard_def list_ex_iff)
  then show ?thesis unfolding Bex_def active_entries_set by blast
qed

text \<open>
  a principal holds a permission exactly through one of its active roles: a role
  it carries, that the policy defines, and that is active for its issuer and
  authentication method, lists the permission or the wildcard; a principal with
  the wildcard holds every permission.
\<close>

theorem principal_has_permission_active:
  "(principal_has_permission policy_roles p permission \<longleftrightarrow>
      (\<exists>role entry. principal_has_active_role policy_roles p role
         \<and> policy_roles role = Some entry \<and> grants_permission (re_permissions entry) permission))
   \<and> (principal_has_wildcard policy_roles p \<longleftrightarrow>
        (\<forall>perm. principal_has_permission policy_roles p perm))"
proof -
  have "principal_has_wildcard policy_roles p"
    if all: "\<forall>perm. principal_has_permission policy_roles p perm"
  proof (rule ccontr)
    assume no: "\<not> principal_has_wildcard policy_roles p"
    let ?grants = "concat (map re_permissions (active_entries policy_roles p))"
    obtain perm where fresh: "perm \<notin> set ?grants"
      using ex_new_if_finite [OF infinite_UNIV_listI, of "set ?grants"] by blast
    from all have "principal_has_permission policy_roles p perm" by blast
    with no fresh show False
      by (auto simp: principal_has_wildcard_def principal_has_permission_def list_ex_iff
          grants_permission_def)
  qed
  then have "principal_has_wildcard policy_roles p \<longleftrightarrow>
        (\<forall>perm. principal_has_permission policy_roles p perm)"
    unfolding principal_has_permission_iff principal_has_wildcard_iff by blast
  note wild = this
  have active: "principal_has_active_role policy_roles p role \<longleftrightarrow>
      role \<in> set (roles p) \<and> (\<exists>e. policy_roles role = Some e \<and> matches_principal_identity e p)" for role
    by (auto simp: principal_has_active_role_def list_ex_iff split: option.splits)
  have "principal_has_permission policy_roles p permission \<longleftrightarrow>
      (\<exists>role entry. principal_has_active_role policy_roles p role
         \<and> policy_roles role = Some entry \<and> grants_permission (re_permissions entry) permission)"
    unfolding principal_has_permission_iff active grants_permission_iff
    by (metis (no_types, lifting) option.inject)
  with wild show ?thesis by blast
qed

end
