(* ===== verification/Conditions.thy ===== *)
theory Conditions
  imports Principals Complex_Main "HOL-Library.List_Lexorder" "HOL-Library.Char_ord"
begin

text \<open>
  Typed rule conditions: the condition tree of
  \<open>gateway-config/src/rbac/conditions.rs\<close> and its evaluation in
  \<open>gateway/src/rbac/conditions.rs\<close>, over facts a lane may or may not have
  captured. Answers are three-valued: a leaf over a fact that was never captured
  is unknown, and the combinators are Kleene's.

  The functions of third-party crates the evaluation calls are the fields of
  \<open>externals\<close>, an argument of the definitions that use them: \<open>IpNet\<close> parsing,
  truncation and membership (\<open>ipnet\<close>), \<open>Number::as_f64\<close> and \<open>Value::pointer\<close>
  (\<open>serde_json\<close>; a finite double is a rational), RFC 3339 parsing (\<open>time\<close>) and
  the ASCII origin of a parsed URL (\<open>url\<close>).
\<close>

record 'net externals =
  ext_parse_net :: "string \<Rightarrow> 'net option"
  ext_net_trunc :: "'net \<Rightarrow> 'net"
  ext_net_contains :: "'net \<Rightarrow> IpAddr \<Rightarrow> bool"
  ext_as_f64 :: "string \<Rightarrow> rat option"
  ext_pointer :: "json \<Rightarrow> string \<Rightarrow> json option"
  ext_rfc3339 :: "string \<Rightarrow> int option"
  ext_origin :: "string \<Rightarrow> string option"

text \<open>
  One concrete choice of the external functions, at which the properties are
  instantiated: a single network \<open>10.0.0.0/8\<close>, numbers without a double, pointers of
  one token, no instants, and URLs that are their own origin.
\<close>

definition sample_externals :: "unit externals" where
  "sample_externals =
     \<lparr>ext_parse_net = (\<lambda>s. if s = ''10.0.0.0/8'' then Some () else None),
      ext_net_trunc = (\<lambda>n. n),
      ext_net_contains = (\<lambda>_ a. case a of V4 w \<Rightarrow> drop_bit 24 w = 10 | V6 _ \<Rightarrow> False),
      ext_as_f64 = (\<lambda>_. None),
      ext_pointer = (\<lambda>v p. json_get v (drop 1 p)),
      ext_rfc3339 = (\<lambda>_. None),
      ext_origin = Some\<rparr>"

section \<open>Truth values\<close>

datatype Truth = TFalse | TTrue | TUnknown

definition Truth_of :: "bool \<Rightarrow> Truth" where
  "Truth_of b = (if b then TTrue else TFalse)"

fun Truth_not :: "Truth \<Rightarrow> Truth" where
  "Truth_not TFalse = TTrue"
| "Truth_not TTrue = TFalse"
| "Truth_not TUnknown = TUnknown"

fun Truth_and_then :: "Truth \<Rightarrow> Truth \<Rightarrow> Truth" where
  "Truth_and_then TFalse next = TFalse"
| "Truth_and_then TTrue next = next"
| "Truth_and_then TUnknown next =
     (case next of TFalse \<Rightarrow> TFalse | TTrue \<Rightarrow> TUnknown | TUnknown \<Rightarrow> TUnknown)"

fun Truth_or_else :: "Truth \<Rightarrow> Truth \<Rightarrow> Truth" where
  "Truth_or_else TTrue next = TTrue"
| "Truth_or_else TFalse next = next"
| "Truth_or_else TUnknown next =
     (case next of TTrue \<Rightarrow> TTrue | TFalse \<Rightarrow> TUnknown | TUnknown \<Rightarrow> TUnknown)"

section \<open>Facts\<close>

datatype 'a Fact = Uncaptured | Captured 'a

record PolicyFacts =
  pf_organization :: "string option Fact"
  pf_scopes :: "string list Fact"
  pf_claims :: "VerifiedClaim list Fact"
  pf_source_ip :: "IpAddr Fact"
  pf_headers :: "(string \<times> string) list Fact"
  pf_query :: "(string \<times> string) list Fact"
  pf_tool_arguments :: "json Fact"
  pf_now :: "int Fact"

definition uncaptured :: PolicyFacts where
  "uncaptured =
     \<lparr>pf_organization = Uncaptured, pf_scopes = Uncaptured, pf_claims = Uncaptured,
      pf_source_ip = Uncaptured, pf_headers = Uncaptured, pf_query = Uncaptured,
      pf_tool_arguments = Uncaptured, pf_now = Uncaptured\<rparr>"

definition any_captured :: "PolicyFacts \<Rightarrow> bool" where
  "any_captured f =
     (\<not> (pf_organization f = Uncaptured \<and> pf_scopes f = Uncaptured \<and> pf_claims f = Uncaptured
         \<and> pf_source_ip f = Uncaptured \<and> pf_headers f = Uncaptured \<and> pf_query f = Uncaptured
         \<and> pf_tool_arguments f = Uncaptured \<and> pf_now f = Uncaptured))"

section \<open>Condition trees\<close>

datatype Condition =
    Cond_All "Condition list"
  | Cond_Any "Condition list"
  | Cond_Not Condition
  | Cond_Organization string "string list"
  | Cond_Scope string "string list"
  | Cond_Claim string string "json list"
  | Cond_SourceNetwork "string list"
  | Cond_Header string "string list"
  | Cond_Query string "string list"
  | Cond_ToolArgument string "json list"
  | Cond_TimeWindow "string option" "string option"

datatype 'net CompiledCondition =
    CC_All "'net CompiledCondition list"
  | CC_Any "'net CompiledCondition list"
  | CC_Not "'net CompiledCondition"
  | CC_Organization string "string list"
  | CC_Scope string "string list"
  | CC_Claim string string "json list"
  | CC_SourceNetwork "'net list"
  | CC_Header string "string list"
  | CC_Query string "string list"
  | CC_ToolArgument string "json list"
  | CC_TimeWindow "int option" "int option"
  | CC_Unusable

definition parse_utc_instant :: "'net externals \<Rightarrow> string \<Rightarrow> int option" where
  "parse_utc_instant ext s =
     (if length s \<noteq> 20 \<or> s ! 10 \<noteq> CHR ''T'' \<or> s ! 19 \<noteq> CHR ''Z'' then None
      else ext_rfc3339 ext s)"

text \<open>\<open>iter().map(f).collect::<Option<Vec<_>>>()\<close>\<close>

fun collect_options :: "'a option list \<Rightarrow> 'a list option" where
  "collect_options [] = Some []"
| "collect_options (None # xs) = None"
| "collect_options (Some x # xs) = map_option ((#) x) (collect_options xs)"

fun CompiledCondition_new :: "'net externals \<Rightarrow> Condition \<Rightarrow> 'net CompiledCondition" where
  "CompiledCondition_new ext (Cond_All operands) = CC_All (map (CompiledCondition_new ext) operands)"
| "CompiledCondition_new ext (Cond_Any operands) = CC_Any (map (CompiledCondition_new ext) operands)"
| "CompiledCondition_new ext (Cond_Not operand) = CC_Not (CompiledCondition_new ext operand)"
| "CompiledCondition_new ext (Cond_Organization iss vs) =
     (case canonical_issuer iss of Some i \<Rightarrow> CC_Organization i vs | None \<Rightarrow> CC_Unusable)"
| "CompiledCondition_new ext (Cond_Scope iss vs) =
     (case canonical_issuer iss of Some i \<Rightarrow> CC_Scope i vs | None \<Rightarrow> CC_Unusable)"
| "CompiledCondition_new ext (Cond_Claim iss name vs) =
     (case canonical_issuer iss of Some i \<Rightarrow> CC_Claim i name vs | None \<Rightarrow> CC_Unusable)"
| "CompiledCondition_new ext (Cond_SourceNetwork cidrs) =
     (case collect_options (map (ext_parse_net ext) cidrs) of
        None \<Rightarrow> CC_Unusable
      | Some networks \<Rightarrow> CC_SourceNetwork networks)"
| "CompiledCondition_new ext (Cond_Header name vs) = CC_Header (str_lower name) vs"
| "CompiledCondition_new ext (Cond_Query name vs) = CC_Query name vs"
| "CompiledCondition_new ext (Cond_ToolArgument ptr vs) = CC_ToolArgument ptr vs"
| "CompiledCondition_new ext (Cond_TimeWindow from until) =
     (case (map_option (parse_utc_instant ext) from, map_option (parse_utc_instant ext) until) of
        (Some None, _) \<Rightarrow> CC_Unusable
      | (_, Some None) \<Rightarrow> CC_Unusable
      | (None, None) \<Rightarrow> CC_Unusable
      | (from', until') \<Rightarrow> CC_TimeWindow (Option.bind from' id) (Option.bind until' id))"

definition issued_by :: "Principal option \<Rightarrow> string \<Rightarrow> bool" where
  "issued_by caller iss = (case caller of None \<Rightarrow> False | Some p \<Rightarrow> issuer p = Some iss)"

fun scalar_eq :: "'net externals \<Rightarrow> json \<Rightarrow> json \<Rightarrow> bool" where
  "scalar_eq ext (JString a) (JString b) = (a = b)"
| "scalar_eq ext (JBool a) (JBool b) = (a = b)"
| "scalar_eq ext (JNumber a) (JNumber b) =
     (a = b \<or> (case (ext_as_f64 ext a, ext_as_f64 ext b) of
                 (Some x, Some y) \<Rightarrow> x = y
               | _ \<Rightarrow> False))"
| "scalar_eq ext _ _ = False"

fun evaluate ::
    "'net externals \<Rightarrow> 'net CompiledCondition \<Rightarrow> Principal option \<Rightarrow> PolicyFacts \<Rightarrow> Truth" where
  "evaluate ext (CC_All operands) caller facts =
     foldl (\<lambda>truth operand. Truth_and_then truth (evaluate ext operand caller facts)) TTrue operands"
| "evaluate ext (CC_Any operands) caller facts =
     foldl (\<lambda>truth operand. Truth_or_else truth (evaluate ext operand caller facts)) TFalse operands"
| "evaluate ext (CC_Not operand) caller facts = Truth_not (evaluate ext operand caller facts)"
| "evaluate ext (CC_Organization iss vs) caller facts =
     (if \<not> issued_by caller iss then TFalse
      else (case pf_organization facts of
              Uncaptured \<Rightarrow> TUnknown
            | Captured None \<Rightarrow> TFalse
            | Captured (Some organization) \<Rightarrow> Truth_of (organization \<in> set vs)))"
| "evaluate ext (CC_Scope iss vs) caller facts =
     (if \<not> issued_by caller iss then TFalse
      else (case pf_scopes facts of
              Uncaptured \<Rightarrow> TUnknown
            | Captured granted \<Rightarrow> Truth_of (list_ex (\<lambda>scope. scope \<in> set vs) granted)))"
| "evaluate ext (CC_Claim iss name vs) caller facts =
     (if \<not> issued_by caller iss then TFalse
      else (case pf_claims facts of
              Uncaptured \<Rightarrow> TUnknown
            | Captured claims \<Rightarrow>
                (case find (\<lambda>claim. claim_name claim = name) claims of
                   None \<Rightarrow> TUnknown
                 | Some claim \<Rightarrow>
                     Truth_of (list_ex (\<lambda>actual. list_ex (\<lambda>authored. scalar_eq ext authored actual) vs)
                                 (claim_values claim)))))"
| "evaluate ext (CC_SourceNetwork networks) caller facts =
     (case pf_source_ip facts of
        Uncaptured \<Rightarrow> TUnknown
      | Captured address \<Rightarrow>
          Truth_of (list_ex (\<lambda>network. ext_net_contains ext network (to_canonical address)) networks))"
| "evaluate ext (CC_Header name vs) caller facts =
     (case pf_headers facts of
        Uncaptured \<Rightarrow> TUnknown
      | Captured headers \<Rightarrow>
          Truth_of (list_ex (\<lambda>(field, v). eq_ignore_ascii_case field name \<and> v \<in> set vs) headers))"
| "evaluate ext (CC_Query name vs) caller facts =
     (case pf_query facts of
        Uncaptured \<Rightarrow> TUnknown
      | Captured pairs \<Rightarrow> Truth_of (list_ex (\<lambda>(key, v). key = name \<and> v \<in> set vs) pairs))"
| "evaluate ext (CC_ToolArgument ptr vs) caller facts =
     (case pf_tool_arguments facts of
        Uncaptured \<Rightarrow> TUnknown
      | Captured arguments \<Rightarrow>
          Truth_of (case ext_pointer ext arguments ptr of
                      None \<Rightarrow> False
                    | Some actual \<Rightarrow> list_ex (\<lambda>v. scalar_eq ext v actual) vs))"
| "evaluate ext (CC_TimeWindow from until) caller facts =
     (case pf_now facts of
        Uncaptured \<Rightarrow> TUnknown
      | Captured now \<Rightarrow>
          Truth_of ((case from of None \<Rightarrow> True | Some t \<Rightarrow> now \<ge> t)
                    \<and> (case until of None \<Rightarrow> True | Some t \<Rightarrow> now < t)))"
| "evaluate ext CC_Unusable caller facts = TUnknown"

section \<open>Capturing more facts\<close>

text \<open>
  \<open>truth_le\<close> is the information order on answers, and \<open>facts_le f g\<close> says that \<open>g\<close>
  captured at least what \<open>f\<close> did and agrees with it there. Claims are ordered by name,
  since a claim name without an entry was not captured.
\<close>

definition truth_le :: "Truth \<Rightarrow> Truth \<Rightarrow> bool" where
  "truth_le a b = (a = TUnknown \<or> a = b)"

definition fact_le :: "'a Fact \<Rightarrow> 'a Fact \<Rightarrow> bool" where
  "fact_le a b = (a = Uncaptured \<or> a = b)"

definition lookup_claim :: "VerifiedClaim list \<Rightarrow> string \<Rightarrow> VerifiedClaim option" where
  "lookup_claim claims name = find (\<lambda>claim. claim_name claim = name) claims"

definition claims_le :: "VerifiedClaim list Fact \<Rightarrow> VerifiedClaim list Fact \<Rightarrow> bool" where
  "claims_le a b =
     (a = Uncaptured
      \<or> (\<exists>xs ys. a = Captured xs \<and> b = Captured ys
           \<and> (\<forall>name c. lookup_claim xs name = Some c \<longrightarrow> lookup_claim ys name = Some c)))"

definition facts_le :: "PolicyFacts \<Rightarrow> PolicyFacts \<Rightarrow> bool" where
  "facts_le f g =
     (fact_le (pf_organization f) (pf_organization g) \<and> fact_le (pf_scopes f) (pf_scopes g)
      \<and> claims_le (pf_claims f) (pf_claims g) \<and> fact_le (pf_source_ip f) (pf_source_ip g)
      \<and> fact_le (pf_headers f) (pf_headers g) \<and> fact_le (pf_query f) (pf_query g)
      \<and> fact_le (pf_tool_arguments f) (pf_tool_arguments g) \<and> fact_le (pf_now f) (pf_now g))"

lemma truth_le_refl [simp]: "truth_le a a"
  by (simp add: truth_le_def)

lemma truth_le_Unknown [simp]: "truth_le TUnknown a"
  by (simp add: truth_le_def)

lemma truth_le_decided: "truth_le a b \<Longrightarrow> a \<noteq> TUnknown \<Longrightarrow> b = a"
  by (simp add: truth_le_def)

lemma Truth_not_mono: "truth_le a b \<Longrightarrow> truth_le (Truth_not a) (Truth_not b)"
  by (cases a; cases b) (simp_all add: truth_le_def)

lemma Truth_and_mono:
  "truth_le a b \<Longrightarrow> truth_le c d \<Longrightarrow> truth_le (Truth_and_then a c) (Truth_and_then b d)"
  by (cases a; cases b; cases c; cases d) (simp_all add: truth_le_def)

lemma Truth_or_mono:
  "truth_le a b \<Longrightarrow> truth_le c d \<Longrightarrow> truth_le (Truth_or_else a c) (Truth_or_else b d)"
  by (cases a; cases b; cases c; cases d) (simp_all add: truth_le_def)

lemma fact_le_refl [simp]: "fact_le a a"
  by (simp add: fact_le_def)

lemma fact_le_trans: "fact_le a b \<Longrightarrow> fact_le b c \<Longrightarrow> fact_le a c"
  by (auto simp: fact_le_def)

lemma claims_le_refl [simp]: "claims_le a a"
  by (cases a) (auto simp: claims_le_def)

lemma claims_le_trans: "claims_le a b \<Longrightarrow> claims_le b c \<Longrightarrow> claims_le a c"
  by (auto simp: claims_le_def)

lemma facts_le_refl [simp]: "facts_le f f"
  by (simp add: facts_le_def)

lemma facts_le_trans: "facts_le f g \<Longrightarrow> facts_le g h \<Longrightarrow> facts_le f h"
  by (auto simp: facts_le_def intro: fact_le_trans claims_le_trans)

lemma uncaptured_least: "facts_le uncaptured f"
  by (simp add: facts_le_def uncaptured_def fact_le_def claims_le_def)

lemma facts_leD:
  assumes "facts_le f g"
  shows "fact_le (pf_organization f) (pf_organization g)" "fact_le (pf_scopes f) (pf_scopes g)"
    "claims_le (pf_claims f) (pf_claims g)" "fact_le (pf_source_ip f) (pf_source_ip g)"
    "fact_le (pf_headers f) (pf_headers g)" "fact_le (pf_query f) (pf_query g)"
    "fact_le (pf_tool_arguments f) (pf_tool_arguments g)" "fact_le (pf_now f) (pf_now g)"
  using assms by (simp_all add: facts_le_def)

text \<open>Reading one fact is monotone, whatever a leaf does with the captured value.\<close>

lemma read_fact_mono:
  "fact_le a b \<Longrightarrow>
     truth_le (case a of Uncaptured \<Rightarrow> TUnknown | Captured x \<Rightarrow> r x)
              (case b of Uncaptured \<Rightarrow> TUnknown | Captured x \<Rightarrow> r x)"
  by (auto simp: fact_le_def)

lemma foldl_truth_mono:
  assumes "\<And>a b c d. truth_le a b \<Longrightarrow> truth_le c d \<Longrightarrow> truth_le (op a c) (op b d)"
    and "\<And>x. x \<in> set xs \<Longrightarrow> truth_le (h x) (k x)" and "truth_le a b"
  shows "truth_le (foldl (\<lambda>t x. op t (h x)) a xs) (foldl (\<lambda>t x. op t (k x)) b xs)"
  using assms(2,3) by (induction xs arbitrary: a b) (auto intro: assms(1))

text \<open>
  The contract a matcher offers the scans above it: an answer that more facts
  can only determine, never change.
\<close>

locale truth_source =
  fixes le :: "'f \<Rightarrow> 'f \<Rightarrow> bool"
    and truth :: "'r \<Rightarrow> 'f \<Rightarrow> Truth"
  assumes truth_mono: "le f g \<Longrightarrow> truth_le (truth r f) (truth r g)"
begin

lemma truth_stable: "le f g \<Longrightarrow> truth r f \<noteq> TUnknown \<Longrightarrow> truth r g = truth r f"
  using truth_mono truth_le_decided by blast

lemma or_fold_mono:
  "le f g \<Longrightarrow> truth_le a b \<Longrightarrow>
     truth_le (foldl (\<lambda>t r. Truth_or_else t (truth r f)) a rs)
              (foldl (\<lambda>t r. Truth_or_else t (truth r g)) b rs)"
  by (rule foldl_truth_mono) (auto intro: Truth_or_mono truth_mono)

end

lemma claim_leaf_mono:
  assumes "claims_le a b"
  shows "truth_le
     (case a of Uncaptured \<Rightarrow> TUnknown
      | Captured claims \<Rightarrow> (case find (\<lambda>claim. claim_name claim = name) claims of
                               None \<Rightarrow> TUnknown | Some c \<Rightarrow> r c))
     (case b of Uncaptured \<Rightarrow> TUnknown
      | Captured claims \<Rightarrow> (case find (\<lambda>claim. claim_name claim = name) claims of
                               None \<Rightarrow> TUnknown | Some c \<Rightarrow> r c))"
  using assms by (cases a) (auto simp: claims_le_def lookup_claim_def split: option.splits)

lemma evaluate_mono:
  assumes "facts_le f g"
  shows "truth_le (evaluate ext c caller f) (evaluate ext c caller g)"
  using assms
proof (induction ext c caller f rule: evaluate.induct)
  case (1 ext operands caller facts)
  then show ?case by (auto intro!: foldl_truth_mono Truth_and_mono)
next
  case (2 ext operands caller facts)
  then show ?case by (auto intro!: foldl_truth_mono Truth_or_mono)
next
  case (3 ext operand caller facts)
  then show ?case by (simp add: Truth_not_mono)
next
  case (4 ext iss vs caller facts)
  then show ?case by (simp add: read_fact_mono facts_leD)
next
  case (5 ext iss vs caller facts)
  then show ?case by (simp add: read_fact_mono facts_leD)
next
  case (6 ext iss name vs caller facts)
  then show ?case by (simp add: claim_leaf_mono facts_leD)
qed (simp_all add: read_fact_mono facts_leD)

interpretation cond: truth_source facts_le "\<lambda>c f. evaluate ext c caller f" for ext caller
  by unfold_locales (rule evaluate_mono)

end
