(* ===== verification/Rule_Matching.thy ===== *)
theory Rule_Matching
  imports Conditions
begin

text \<open>
  Direct firewall rules: the rule model of \<open>gateway-config/src/rbac/rule.rs\<close> and the
  compiled first-match evaluator of \<open>gateway/src/rbac/matcher.rs\<close>, with its dispatch
  matchers, source-order and action-major scans.
\<close>

section \<open>Rules\<close>

datatype RuleAction = Allow | Deny | Shadow

datatype RuleDispatchKind = Contextless | Legacy | Route

record RuleDispatchMatcher =
  rdm_kind :: RuleDispatchKind
  rdm_upstream_origin :: "string option"
  rdm_route_id :: "string option"

record Rule =
  rule_id :: "string option"
  rule_enabled :: bool
  rule_methods :: "string list"
  rule_path :: string
  rule_tool_name :: "string option"
  rule_dispatch :: "RuleDispatchMatcher option"
  rule_principal :: PrincipalMatcher
  rule_conditions :: "Condition option"
  rule_action :: RuleAction

record RuleDecision =
  rd_rule_index :: nat
  rd_action :: RuleAction

record RuleDispatchContext =
  routing_context_known :: bool
  ctx_route_id :: "string option"
  ctx_route_host :: "string option"
  ctx_route_path_prefix :: "string option"
  ctx_upstream_origin :: "string option"

definition dispatch_unknown :: RuleDispatchContext where
  "dispatch_unknown =
     \<lparr>routing_context_known = False, ctx_route_id = None, ctx_route_host = None,
      ctx_route_path_prefix = None, ctx_upstream_origin = None\<rparr>"

definition dispatch_contextless :: RuleDispatchContext where
  "dispatch_contextless =
     \<lparr>routing_context_known = True, ctx_route_id = None, ctx_route_host = None,
      ctx_route_path_prefix = None, ctx_upstream_origin = None\<rparr>"

definition classified_with_route_id ::
    "string option \<Rightarrow> string option \<Rightarrow> string option \<Rightarrow> string option \<Rightarrow> RuleDispatchContext" where
  "classified_with_route_id rid host pfx origin =
     \<lparr>routing_context_known = True, ctx_route_id = rid, ctx_route_host = host,
      ctx_route_path_prefix = pfx, ctx_upstream_origin = origin\<rparr>"

datatype RuleScan = Matched RuleDecision | NoMatch | Undetermined nat

section \<open>Compiled rules\<close>

record CompiledDispatchMatcher =
  cdm_kind :: RuleDispatchKind
  cdm_upstream_origin :: "string option"
  cdm_route_id :: "string option"
  cdm_valid :: bool

definition CompiledDispatchMatcher_new ::
    "'net externals \<Rightarrow> RuleDispatchMatcher \<Rightarrow> CompiledDispatchMatcher" where
  "CompiledDispatchMatcher_new ext m =
     (let origin = Option.bind (rdm_upstream_origin m) (ext_origin ext) in
      \<lparr>cdm_kind = rdm_kind m,
       cdm_upstream_origin = origin,
       cdm_route_id = rdm_route_id m,
       cdm_valid =
         (case rdm_kind m of
            Contextless \<Rightarrow> rdm_upstream_origin m = None \<and> rdm_route_id m = None
          | Legacy \<Rightarrow> origin \<noteq> None \<and> rdm_route_id m = None
          | Route \<Rightarrow> rdm_upstream_origin m = None \<and> rdm_route_id m \<noteq> None)\<rparr>)"

definition CompiledDispatchMatcher_matches ::
    "CompiledDispatchMatcher \<Rightarrow> RuleDispatchContext \<Rightarrow> bool" where
  "CompiledDispatchMatcher_matches m ctx =
     (if \<not> cdm_valid m \<or> \<not> routing_context_known ctx then False
      else (case cdm_kind m of
              Contextless \<Rightarrow>
                ctx_route_id ctx = None \<and> ctx_route_host ctx = None
                \<and> ctx_route_path_prefix ctx = None \<and> ctx_upstream_origin ctx = None
            | Legacy \<Rightarrow>
                ctx_route_host ctx = None \<and> ctx_route_path_prefix ctx = None
                \<and> cdm_upstream_origin m = ctx_upstream_origin ctx
            | Route \<Rightarrow> cdm_route_id m = ctx_route_id ctx))"

datatype RuleTarget =
    RT_Http MethodMatcher "PathSegment list option"
  | RT_Tool string

record 'net CompiledRule =
  cr_rule_index :: nat
  cr_enabled :: bool
  cr_target :: RuleTarget
  cr_principal :: PrincipalMatcher
  cr_dispatch :: "CompiledDispatchMatcher option"
  cr_conditions :: "'net CompiledCondition option"
  cr_action :: RuleAction

definition CompiledRule_new :: "'net externals \<Rightarrow> nat \<Rightarrow> Rule \<Rightarrow> 'net CompiledRule" where
  "CompiledRule_new ext rule_index rule =
     \<lparr>cr_rule_index = rule_index,
      cr_enabled = rule_enabled rule,
      cr_target =
        (case rule_tool_name rule of
           Some tool_name \<Rightarrow> RT_Tool tool_name
         | None \<Rightarrow> RT_Http (MethodMatcher_new (rule_methods rule)) (PathPattern_new (rule_path rule))),
      cr_principal = rule_principal rule,
      cr_dispatch = map_option (CompiledDispatchMatcher_new ext) (rule_dispatch rule),
      cr_conditions = map_option (CompiledCondition_new ext) (rule_conditions rule),
      cr_action = rule_action rule\<rparr>"

definition with_conditions ::
    "'net externals \<Rightarrow> 'net CompiledRule \<Rightarrow> bool \<Rightarrow> Principal option \<Rightarrow> PolicyFacts \<Rightarrow> Truth" where
  "with_conditions ext rule predicates_hold caller facts =
     (if \<not> predicates_hold then TFalse
      else (case cr_conditions rule of
              None \<Rightarrow> TTrue
            | Some conditions \<Rightarrow> evaluate ext conditions caller facts))"

definition http_truth ::
    "'net externals \<Rightarrow> 'net CompiledRule \<Rightarrow> string \<Rightarrow> string \<Rightarrow> Principal option
       \<Rightarrow> RuleDispatchContext \<Rightarrow> PolicyFacts \<Rightarrow> Truth" where
  "http_truth ext rule m path caller ctx facts =
     (case cr_target rule of
        RT_Tool _ \<Rightarrow> TFalse
      | RT_Http methods pattern \<Rightarrow>
          with_conditions ext rule
            (cr_enabled rule
             \<and> MethodMatcher_matches methods m
             \<and> PathPattern_matches pattern path
             \<and> (case cr_dispatch rule of
                  None \<Rightarrow> True
                | Some dispatch \<Rightarrow> CompiledDispatchMatcher_matches dispatch ctx)
             \<and> PrincipalMatcher_matches (cr_principal rule) caller)
            caller facts)"

definition tool_truth ::
    "'net externals \<Rightarrow> 'net CompiledRule \<Rightarrow> string \<Rightarrow> Principal option \<Rightarrow> PolicyFacts \<Rightarrow> Truth" where
  "tool_truth ext rule tool_name caller facts =
     (case cr_target rule of
        RT_Http _ _ \<Rightarrow> TFalse
      | RT_Tool rule_tool \<Rightarrow>
          with_conditions ext rule
            (cr_enabled rule \<and> rule_tool = tool_name
             \<and> PrincipalMatcher_matches (cr_principal rule) caller)
            caller facts)"

section \<open>Scans\<close>

fun first_match :: "('net CompiledRule \<times> Truth) list \<Rightarrow> RuleScan" where
  "first_match [] = NoMatch"
| "first_match ((rule, truth) # rest) =
     (case truth of
        TTrue \<Rightarrow> Matched \<lparr>rd_rule_index = cr_rule_index rule, rd_action = cr_action rule\<rparr>
      | TUnknown \<Rightarrow> Undetermined (cr_rule_index rule)
      | TFalse \<Rightarrow> first_match rest)"

type_synonym 'net RuleMatcher = "'net CompiledRule list"

definition RuleMatcher_new :: "'net externals \<Rightarrow> Rule list \<Rightarrow> 'net RuleMatcher" where
  "RuleMatcher_new ext rules =
     map (\<lambda>(rule_index, rule). CompiledRule_new ext rule_index rule) (List.enumerate 0 rules)"

definition scan_with_dispatch ::
    "'net externals \<Rightarrow> 'net RuleMatcher \<Rightarrow> string \<Rightarrow> string \<Rightarrow> Principal option
       \<Rightarrow> RuleDispatchContext \<Rightarrow> PolicyFacts \<Rightarrow> RuleScan" where
  "scan_with_dispatch ext rules m path caller ctx facts =
     first_match (map (\<lambda>rule. (rule, http_truth ext rule m path caller ctx facts)) rules)"

definition action_truth ::
    "'net externals \<Rightarrow> 'net CompiledRule \<Rightarrow> string \<Rightarrow> string list \<Rightarrow> Principal option
       \<Rightarrow> RuleDispatchContext \<Rightarrow> RuleAction \<Rightarrow> PolicyFacts \<Rightarrow> Truth" where
  "action_truth ext rule m paths caller ctx action facts =
     (if cr_action rule = action
      then foldl (\<lambda>truth path. Truth_or_else truth (http_truth ext rule m path caller ctx facts))
             TFalse paths
      else TFalse)"

fun scan_matching_paths_by_action ::
    "'net externals \<Rightarrow> 'net RuleMatcher \<Rightarrow> string \<Rightarrow> string list \<Rightarrow> Principal option
       \<Rightarrow> RuleDispatchContext \<Rightarrow> RuleAction list \<Rightarrow> PolicyFacts \<Rightarrow> RuleScan" where
  "scan_matching_paths_by_action ext rules m paths caller ctx [] facts = NoMatch"
| "scan_matching_paths_by_action ext rules m paths caller ctx (action # actions) facts =
     (let scan = first_match
                   (map (\<lambda>rule. (rule, action_truth ext rule m paths caller ctx action facts)) rules) in
      if scan \<noteq> NoMatch then scan
      else scan_matching_paths_by_action ext rules m paths caller ctx actions facts)"

definition scan_denies_with_dispatch ::
    "'net externals \<Rightarrow> 'net RuleMatcher \<Rightarrow> string \<Rightarrow> string \<Rightarrow> Principal option
       \<Rightarrow> RuleDispatchContext \<Rightarrow> PolicyFacts \<Rightarrow> RuleScan" where
  "scan_denies_with_dispatch ext rules m path caller ctx facts =
     scan_matching_paths_by_action ext rules m [path] caller ctx [Deny] facts"

definition scan_equivalent_paths_with_dispatch ::
    "'net externals \<Rightarrow> 'net RuleMatcher \<Rightarrow> string \<Rightarrow> string list \<Rightarrow> Principal option
       \<Rightarrow> RuleDispatchContext \<Rightarrow> bool \<Rightarrow> PolicyFacts \<Rightarrow> RuleScan" where
  "scan_equivalent_paths_with_dispatch ext rules m paths caller ctx denies_only facts =
     (if denies_only
      then scan_matching_paths_by_action ext rules m paths caller ctx [Deny] facts
      else scan_matching_paths_by_action ext rules m paths caller ctx [Deny, Shadow, Allow] facts)"

definition scan_tool ::
    "'net externals \<Rightarrow> 'net RuleMatcher \<Rightarrow> string \<Rightarrow> Principal option \<Rightarrow> PolicyFacts \<Rightarrow> RuleScan" where
  "scan_tool ext rules tool_name caller facts =
     first_match (map (\<lambda>rule. (rule, tool_truth ext rule tool_name caller facts)) rules)"

definition rule_matches ::
    "'net externals \<Rightarrow> Rule \<Rightarrow> string \<Rightarrow> string \<Rightarrow> Principal option \<Rightarrow> bool" where
  "rule_matches ext rule m path caller =
     (http_truth ext (CompiledRule_new ext 0 rule) m path caller dispatch_contextless uncaptured
      = TTrue)"

lemmas rule_defs = dispatch_unknown_def dispatch_contextless_def classified_with_route_id_def
  CompiledDispatchMatcher_new_def CompiledDispatchMatcher_matches_def CompiledRule_new_def
  with_conditions_def http_truth_def tool_truth_def RuleMatcher_new_def scan_with_dispatch_def
  action_truth_def scan_denies_with_dispatch_def scan_equivalent_paths_with_dispatch_def
  scan_tool_def rule_matches_def

declare rule_defs [eval_defs]

section \<open>First match\<close>

text \<open>
  \<open>scan_le\<close> is the information order on scans, and the scans of any truth source
  are monotone in it: more facts can settle an undetermined scan and never change
  a settled one.
\<close>

definition scan_le :: "RuleScan \<Rightarrow> RuleScan \<Rightarrow> bool" where
  "scan_le a b = ((\<exists>i. a = Undetermined i) \<or> a = b)"

lemma scan_le_refl [simp]: "scan_le a a"
  by (simp add: scan_le_def)

lemma scan_le_Undetermined [simp]: "scan_le (Undetermined i) a"
  by (simp add: scan_le_def)

context truth_source
begin

lemma first_match_mono:
  fixes item :: "'r \<Rightarrow> 'net CompiledRule"
  assumes "le f g"
  shows "scan_le (first_match (map (\<lambda>r. (item r, truth r f)) rs))
                 (first_match (map (\<lambda>r. (item r, truth r g)) rs))"
proof (induction rs)
  case (Cons r rs)
  from truth_mono [OF assms, of r] consider "truth r f = TUnknown" | "truth r f = truth r g"
    by (auto simp: truth_le_def)
  then show ?case
  proof cases
    case 2
    then show ?thesis using Cons.IH by (simp split: Truth.splits)
  qed simp
qed simp

end

lemma with_conditions_mono:
  "facts_le f g \<Longrightarrow>
     truth_le (with_conditions ext rule b caller f) (with_conditions ext rule b caller g)"
  by (auto simp: with_conditions_def cond.truth_mono split: option.splits)

interpretation http: truth_source facts_le "\<lambda>rule f. http_truth ext rule m path caller ctx f"
  for ext m path caller ctx
  by unfold_locales (simp add: http_truth_def with_conditions_mono split: RuleTarget.splits)

interpretation http_path: truth_source facts_le "\<lambda>path f. http_truth ext rule m path caller ctx f"
  for ext rule m caller ctx
  by unfold_locales (rule http.truth_mono)

interpretation tool: truth_source facts_le "\<lambda>rule f. tool_truth ext rule tool_name caller f"
  for ext tool_name caller
  by unfold_locales (simp add: tool_truth_def with_conditions_mono split: RuleTarget.splits)

interpretation action: truth_source facts_le
  "\<lambda>rule f. action_truth ext rule m paths caller ctx a f"
  for ext m paths caller ctx a
  by unfold_locales (simp add: action_truth_def http_path.or_fold_mono)

lemma scan_by_action_mono:
  assumes "facts_le f g"
  shows "scan_le (scan_matching_paths_by_action ext rules m paths caller ctx actions f)
                 (scan_matching_paths_by_action ext rules m paths caller ctx actions g)"
proof (induction actions)
  case (Cons a actions)
  let ?s = "\<lambda>h. first_match (map (\<lambda>rule. (rule, action_truth ext rule m paths caller ctx a h)) rules)"
  have "scan_le (?s f) (?s g)" by (rule action.first_match_mono [OF assms, of "\<lambda>r. r"])
  then show ?case using Cons.IH by (auto simp: scan_le_def Let_def)
qed simp

section \<open>What a scan's answer says about the rules\<close>

lemma first_match_NoMatch: "first_match xs = NoMatch \<longleftrightarrow> (\<forall>(r, t)\<in>set xs. t = TFalse)"
  by (induction xs rule: first_match.induct) (auto split: Truth.splits)

lemma first_match_append_False:
  "\<forall>(r, t)\<in>set ys. t = TFalse \<Longrightarrow> first_match (ys @ zs) = first_match zs"
  by (induction ys rule: first_match.induct) auto

lemma first_match_MatchedD:
  "first_match xs = Matched d \<Longrightarrow>
     \<exists>ys r zs. xs = ys @ (r, TTrue) # zs \<and> (\<forall>(r, t)\<in>set ys. t = TFalse)
                \<and> d = \<lparr>rd_rule_index = cr_rule_index r, rd_action = cr_action r\<rparr>"
proof (induction xs rule: first_match.induct)
  case (2 r t rest)
  show ?case
  proof (cases t)
    case TFalse
    with 2 obtain ys r' zs where "rest = ys @ (r', TTrue) # zs" "\<forall>(r, t)\<in>set ys. t = TFalse"
      "d = \<lparr>rd_rule_index = cr_rule_index r', rd_action = cr_action r'\<rparr>" by auto
    with TFalse show ?thesis
      by (intro exI [of _ "(r, t) # ys"] exI [of _ r'] exI [of _ zs]) simp
  next
    case TTrue
    with 2 show ?thesis by (intro exI [of _ "[]"] exI [of _ r] exI [of _ rest]) simp
  next
    case TUnknown
    with 2 show ?thesis by simp
  qed
qed simp

lemma first_match_Matched:
  "first_match xs = Matched d \<longleftrightarrow>
     (\<exists>ys r zs. xs = ys @ (r, TTrue) # zs \<and> (\<forall>(r, t)\<in>set ys. t = TFalse)
                \<and> d = \<lparr>rd_rule_index = cr_rule_index r, rd_action = cr_action r\<rparr>)"
  using first_match_MatchedD [of xs d] by (auto simp: first_match_append_False)

lemma or_fold_False:
  "foldl (\<lambda>t x. Truth_or_else t (h x)) a xs = TFalse \<longleftrightarrow> a = TFalse \<and> (\<forall>x\<in>set xs. h x = TFalse)"
proof (induction xs arbitrary: a)
  case (Cons x xs)
  have "Truth_or_else a (h x) = TFalse \<longleftrightarrow> a = TFalse \<and> h x = TFalse"
    by (cases a; cases "h x") simp_all
  then show ?case using Cons.IH by simp
qed simp

lemma or_fold_True:
  "foldl (\<lambda>t x. Truth_or_else t (h x)) a xs = TTrue \<longleftrightarrow> a = TTrue \<or> (\<exists>x\<in>set xs. h x = TTrue)"
proof (induction xs arbitrary: a)
  case (Cons x xs)
  have "Truth_or_else a (h x) = TTrue \<longleftrightarrow> a = TTrue \<or> h x = TTrue"
    by (cases a; cases "h x") simp_all
  then show ?case using Cons.IH by simp
qed simp

lemma action_truth_False:
  "action_truth ext rule m paths caller ctx a facts = TFalse \<longleftrightarrow>
     cr_action rule \<noteq> a \<or> (\<forall>path\<in>set paths. http_truth ext rule m path caller ctx facts = TFalse)"
  by (simp add: action_truth_def or_fold_False)

lemma action_truth_True:
  "action_truth ext rule m paths caller ctx a facts = TTrue \<longleftrightarrow>
     cr_action rule = a \<and> (\<exists>path\<in>set paths. http_truth ext rule m path caller ctx facts = TTrue)"
  by (simp add: action_truth_def or_fold_True)

lemma action_scan_Matched:
  assumes "first_match (map (\<lambda>rule. (rule, action_truth ext rule m paths caller ctx a facts)) rules)
           = Matched d"
  shows "rd_action d = a"
    and "\<exists>rule\<in>set rules. \<exists>path\<in>set paths. cr_action rule = a \<and> cr_rule_index rule = rd_rule_index d
           \<and> http_truth ext rule m path caller ctx facts = TTrue"
proof -
  from assms obtain ys r zs where
    "map (\<lambda>rule. (rule, action_truth ext rule m paths caller ctx a facts)) rules = ys @ (r, TTrue) # zs"
    and d: "d = \<lparr>rd_rule_index = cr_rule_index r, rd_action = cr_action r\<rparr>"
    by (auto simp: first_match_Matched)
  then have "(r, TTrue) \<in> set (map (\<lambda>rule. (rule, action_truth ext rule m paths caller ctx a facts)) rules)"
    by simp
  then have r: "r \<in> set rules" "action_truth ext r m paths caller ctx a facts = TTrue" by auto
  then show "rd_action d = a"
    and "\<exists>rule\<in>set rules. \<exists>path\<in>set paths. cr_action rule = a \<and> cr_rule_index rule = rd_rule_index d
           \<and> http_truth ext rule m path caller ctx facts = TTrue"
    using d by (auto simp: action_truth_True)
qed

lemma action_scan_NoMatch:
  "first_match (map (\<lambda>rule. (rule, action_truth ext rule m paths caller ctx a facts)) rules) = NoMatch
   \<longleftrightarrow> (\<forall>rule\<in>set rules. \<forall>path\<in>set paths. cr_action rule = a \<longrightarrow>
          http_truth ext rule m path caller ctx facts = TFalse)"
  by (auto simp: first_match_NoMatch action_truth_False)

text \<open>
  An answer of the action-major scan is one of its actions, some rule with that
  action matches one of the paths, and no rule with an earlier action matches any.
\<close>

lemma scan_by_action_Matched:
  assumes "scan_matching_paths_by_action ext rules m paths caller ctx actions facts = Matched d"
  shows "\<exists>pre post. actions = pre @ rd_action d # post
           \<and> (\<exists>rule\<in>set rules. \<exists>path\<in>set paths. cr_action rule = rd_action d
                \<and> cr_rule_index rule = rd_rule_index d
                \<and> http_truth ext rule m path caller ctx facts = TTrue)
           \<and> (\<forall>rule\<in>set rules. \<forall>path\<in>set paths. cr_action rule \<in> set pre \<longrightarrow>
                http_truth ext rule m path caller ctx facts = TFalse)"
  using assms
proof (induction actions)
  case (Cons a actions)
  let ?s = "first_match (map (\<lambda>rule. (rule, action_truth ext rule m paths caller ctx a facts)) rules)"
  show ?case
  proof (cases "?s = NoMatch")
    case True
    with Cons.prems have "scan_matching_paths_by_action ext rules m paths caller ctx actions facts
        = Matched d" by simp
    from Cons.IH [OF this] obtain pre post where *: "actions = pre @ rd_action d # post"
      "\<exists>rule\<in>set rules. \<exists>path\<in>set paths. cr_action rule = rd_action d
                \<and> cr_rule_index rule = rd_rule_index d
                \<and> http_truth ext rule m path caller ctx facts = TTrue"
      "\<forall>rule\<in>set rules. \<forall>path\<in>set paths. cr_action rule \<in> set pre \<longrightarrow>
                http_truth ext rule m path caller ctx facts = TFalse" by blast
    from True have "\<forall>rule\<in>set rules. \<forall>path\<in>set paths. cr_action rule \<in> set (a # pre) \<longrightarrow>
                http_truth ext rule m path caller ctx facts = TFalse"
      using *(3) by (auto simp: action_scan_NoMatch)
    then show ?thesis using * by (intro exI [of _ "a # pre"] exI [of _ post]) simp
  next
    case False
    with Cons.prems have "?s = Matched d" by (simp add: Let_def)
    from action_scan_Matched [OF this] show ?thesis
      by (intro exI [of _ "[]"] exI [of _ actions]) auto
  qed
qed simp

lemma scan_by_action_NoMatch:
  "scan_matching_paths_by_action ext rules m paths caller ctx actions facts = NoMatch \<longleftrightarrow>
     (\<forall>rule\<in>set rules. \<forall>path\<in>set paths. cr_action rule \<in> set actions \<longrightarrow>
        http_truth ext rule m path caller ctx facts = TFalse)"
  by (induction actions) (auto simp: Let_def action_scan_NoMatch)

lemma equivalent_paths_deny_wins:
  assumes deny: "rule \<in> set rules" "cr_action rule = Deny" "path \<in> set paths"
      "http_truth ext rule m path caller ctx facts \<noteq> TFalse"
  shows "(\<exists>i. scan_equivalent_paths_with_dispatch ext rules m paths caller ctx denies facts = Undetermined i)
       \<or> (\<exists>d. scan_equivalent_paths_with_dispatch ext rules m paths caller ctx denies facts = Matched d
              \<and> rd_action d = Deny)"
proof -
  let ?s = "first_match (map (\<lambda>rule. (rule, action_truth ext rule m paths caller ctx Deny facts)) rules)"
  have "?s \<noteq> NoMatch" using deny by (auto simp: action_scan_NoMatch)
  then have "scan_equivalent_paths_with_dispatch ext rules m paths caller ctx denies facts = ?s"
    by (simp add: scan_equivalent_paths_with_dispatch_def Let_def)
  then show ?thesis
    using \<open>?s \<noteq> NoMatch\<close> action_scan_Matched(1) [of ext m paths caller ctx Deny facts rules]
    by (cases ?s) auto
qed

end
