(* ===== verification/Identity_Mappings.thy ===== *)
theory Identity_Mappings
  imports Conditions
begin

text \<open>
  Mapped-role mode: the internal roles a principal holds under a policy's identity
  mappings (\<open>gateway/src/rbac/identity_mappings.rs\<close>, model in
  \<open>gateway-config/src/rbac/identity_mappings.rs\<close>). A \<open>BTreeSet\<close> of role names is a
  set, collected in its iteration order, which is ascending byte order.
\<close>

record IdentityMapping =
  im_id :: string
  im_issuer :: string
  im_auth_methods :: "string list"
  im_subjects :: "string list"
  im_organizations :: "string list"
  im_claimed_roles :: "string list"
  im_scopes :: "string list"
  im_grant_roles :: "string list"

definition listed :: "string list \<Rightarrow> string \<Rightarrow> bool" where
  "listed vs present = (vs = [] \<or> list_ex (\<lambda>v. v = present) vs)"

definition identity_holds :: "IdentityMapping \<Rightarrow> Principal \<Rightarrow> bool" where
  "identity_holds mapping p =
     (issuer p = Some (im_issuer mapping)
      \<and> listed (im_auth_methods mapping) (auth_method_policy_value (auth_method p))
      \<and> listed (im_subjects mapping) (user_id p)
      \<and> (im_claimed_roles mapping = []
         \<or> list_ex (\<lambda>role. role \<in> set (im_claimed_roles mapping)) (roles p)))"

definition mapping_applies :: "IdentityMapping \<Rightarrow> Principal \<Rightarrow> PolicyFacts \<Rightarrow> Truth" where
  "mapping_applies mapping p facts =
     (if \<not> identity_holds mapping p then TFalse
      else
        let organization =
              (if im_organizations mapping = [] then TTrue
               else (case pf_organization facts of
                       Uncaptured \<Rightarrow> TUnknown
                     | Captured None \<Rightarrow> TFalse
                     | Captured (Some org) \<Rightarrow> Truth_of (org \<in> set (im_organizations mapping))))
        in Truth_and_then organization
             (if im_scopes mapping = [] then TTrue
              else (case pf_scopes facts of
                      Uncaptured \<Rightarrow> TUnknown
                    | Captured granted \<Rightarrow>
                        Truth_of (list_ex (\<lambda>scope. scope \<in> set (im_scopes mapping)) granted))))"

fun effective_roles_loop ::
    "string set \<Rightarrow> IdentityMapping list \<Rightarrow> Principal \<Rightarrow> PolicyFacts \<Rightarrow> string list option" where
  "effective_roles_loop granted [] p facts = Some (sorted_list_of_set granted)"
| "effective_roles_loop granted (mapping # mappings) p facts =
     (case mapping_applies mapping p facts of
        TTrue \<Rightarrow> effective_roles_loop (granted \<union> set (im_grant_roles mapping)) mappings p facts
      | TFalse \<Rightarrow> effective_roles_loop granted mappings p facts
      | TUnknown \<Rightarrow> None)"

definition effective_roles ::
    "IdentityMapping list \<Rightarrow> Principal \<Rightarrow> PolicyFacts \<Rightarrow> string list option" where
  "effective_roles mappings p facts = effective_roles_loop {} mappings p facts"

definition admitted_auth_methods :: "IdentityMapping \<Rightarrow> string list" where
  "admitted_auth_methods mapping =
     filter (\<lambda>m. m \<noteq> AUTH_METHOD_SERVICE_TOKEN
                 \<and> (im_auth_methods mapping = [] \<or> list_ex (\<lambda>l. l = m) (im_auth_methods mapping)))
       ALL_AUTH_METHOD_NAMES"

lemmas mapping_defs = listed_def identity_holds_def mapping_applies_def effective_roles_def
  admitted_auth_methods_def

declare mapping_defs [eval_defs]

section \<open>Lemmas\<close>

lemma mapping_applies_mono:
  "facts_le f g \<Longrightarrow> truth_le (mapping_applies mapping p f) (mapping_applies mapping p g)"
  by (auto simp: mapping_applies_def Let_def intro!: Truth_and_mono read_fact_mono facts_leD)

interpretation mapping: truth_source facts_le "\<lambda>mapping f. mapping_applies mapping p f" for p
  by unfold_locales (rule mapping_applies_mono)

lemma effective_roles_loop_eq:
  "effective_roles_loop granted mappings p facts =
     (if \<exists>mapping\<in>set mappings. mapping_applies mapping p facts = TUnknown then None
      else Some (sorted_list_of_set
             (granted \<union> (\<Union>mapping\<in>{m \<in> set mappings. mapping_applies m p facts = TTrue}.
                            set (im_grant_roles mapping)))))"
proof (induction granted mappings p facts rule: effective_roles_loop.induct)
  case (2 granted mapping mappings p facts)
  have "{m \<in> set (mapping # mappings). mapping_applies m p facts = TTrue} =
        (if mapping_applies mapping p facts = TTrue then {mapping} else {})
          \<union> {m \<in> set mappings. mapping_applies m p facts = TTrue}"
    by auto
  then show ?case using 2 by (auto simp: Un_assoc split: Truth.splits)
qed simp

text \<open>
  The roles held: every mapping determined, and exactly the roles some applying
  mapping grants.
\<close>

lemma effective_roles_Some:
  "effective_roles mappings p facts = Some rs \<longleftrightarrow>
     (\<forall>mapping\<in>set mappings. mapping_applies mapping p facts \<noteq> TUnknown)
     \<and> rs = sorted_list_of_set
         (\<Union>mapping\<in>{m \<in> set mappings. mapping_applies m p facts = TTrue}.
            set (im_grant_roles mapping))"
  by (auto simp: effective_roles_def effective_roles_loop_eq)

lemma effective_roles_stable:
  assumes "facts_le f g" "effective_roles mappings p f = Some rs"
  shows "effective_roles mappings p g = Some rs"
proof -
  have "mapping_applies m p g = mapping_applies m p f" if "m \<in> set mappings" for m
    using assms that mapping.truth_stable by (auto simp: effective_roles_Some)
  then have "{m \<in> set mappings. mapping_applies m p g = TTrue}
      = {m \<in> set mappings. mapping_applies m p f = TTrue}"
    and "\<forall>m\<in>set mappings. mapping_applies m p g \<noteq> TUnknown"
    using assms by (auto simp: effective_roles_Some)
  then show ?thesis using assms(2) by (simp add: effective_roles_Some)
qed

lemma effective_roles_no_issuer:
  assumes "issuer p = None" shows "effective_roles mappings p facts = Some []"
proof -
  have none: "mapping_applies m p facts = TFalse" for m
    using assms by (simp add: mapping_applies_def identity_holds_def)
  then show ?thesis by (simp add: effective_roles_Some)
qed

section \<open>Properties\<close>

text \<open>
  C28: mapped-role mode. The internal roles a principal holds are sorted without
  repetition and are exactly those granted by the mappings that apply to it; they
  do not depend on the order or repetition of the mappings; and a principal
  without an issuer, which every service token is, holds none whatever its
  claimed roles.
\<close>

theorem effective_roles_exact:
  "(effective_roles mappings p facts = Some rs \<longrightarrow>
      sorted rs \<and> distinct rs
      \<and> set rs = (\<Union>mapping\<in>{m \<in> set mappings. mapping_applies m p facts = TTrue}.
                    set (im_grant_roles mapping)))
   \<and> (set mappings = set mappings' \<longrightarrow>
        effective_roles mappings p facts = effective_roles mappings' p facts)
   \<and> (issuer p = None \<longrightarrow> effective_roles mappings p facts = Some [])"
proof (intro conjI impI)
  assume "effective_roles mappings p facts = Some rs"
  then show "sorted rs" and "distinct rs"
    and "set rs = (\<Union>mapping\<in>{m \<in> set mappings. mapping_applies m p facts = TTrue}.
                    set (im_grant_roles mapping))"
    by (auto simp: effective_roles_Some)
next
  assume "set mappings = set mappings'"
  then show "effective_roles mappings p facts = effective_roles mappings' p facts"
    by (simp add: effective_roles_def effective_roles_loop_eq)
next
  assume "issuer p = None"
  then show "effective_roles mappings p facts = Some []" by (rule effective_roles_no_issuer)
qed

theorem effective_roles_exact_witness:
  "let p = \<lparr>user_id = ''u'', issuer = Some ''https://i'', email = None, org_id = None,
            roles = [''ops'', ''admin''], session_id = ''s'', auth_method = Bearer, scopes = None,
            verified_claims = []\<rparr>;
       m = \<lparr>im_id = ''m'', im_issuer = ''https://i'', im_auth_methods = [], im_subjects = [],
            im_organizations = [], im_claimed_roles = [''ops''], im_scopes = [],
            im_grant_roles = [''b'', ''a'', ''b'']\<rparr>
   in effective_roles [m, m] p uncaptured = Some [''a'', ''b'']
      \<and> effective_roles [m] p uncaptured = effective_roles [m, m] p uncaptured
      \<and> effective_roles [m] (p\<lparr>issuer := None\<rparr>) uncaptured = Some []"
proof -
  define p :: Principal where "p = \<lparr>user_id = ''u'', issuer = Some ''https://i'', email = None,
            org_id = None, roles = [''ops'', ''admin''], session_id = ''s'', auth_method = Bearer,
            scopes = None, verified_claims = []\<rparr>"
  define m where "m = \<lparr>im_id = ''m'', im_issuer = ''https://i'', im_auth_methods = [],
            im_subjects = [], im_organizations = [], im_claimed_roles = [''ops''], im_scopes = [],
            im_grant_roles = [''b'', ''a'', ''b'']\<rparr>"
  have "effective_roles [m, m] p uncaptured = Some [''a'', ''b'']"
    unfolding m_def p_def by code_simp
  moreover have "effective_roles [m] p uncaptured = effective_roles [m, m] p uncaptured"
    using effective_roles_exact [of "[m]" p uncaptured undefined "[m, m]"] by simp
  moreover have "effective_roles [m] (p\<lparr>issuer := None\<rparr>) uncaptured = Some []"
    using effective_roles_exact [of "[m]" "p\<lparr>issuer := None\<rparr>" uncaptured undefined "[m]"] by simp
  ultimately show ?thesis unfolding Let_def m_def [symmetric] p_def [symmetric] by blast
qed

end
