(* ===== verification/Fact_Capture.thy ===== *)
theory Fact_Capture
  imports Rule_Matching Identity_Mappings
begin

text \<open>
  The facts a lane captures: what a policy's conditions and mappings read
  (\<open>FactNeeds\<close> of \<open>gateway/src/rbac/conditions.rs\<close>), the principal's facts
  (\<open>CompiledPolicy::serving_facts\<close>), and the request and tool-call facts of
  \<open>gateway/src/middleware/policy_facts.rs\<close>.

  A header map is the \<open>http\<close> crate's; a request gives \<open>get_all\<close>, the values of
  a field by lower-case name in the order received. The client address and the
  clock are what \<open>canonical_client_addr\<close> and \<open>PolicyClock::now\<close> returned.
  A \<open>BTreeMap\<close> of argument pointers is an association list.
\<close>

section \<open>What a policy reads\<close>

record FactNeeds =
  fn_organization :: bool
  fn_scopes :: bool
  fn_claims :: "string list"
  fn_source_ip :: bool
  fn_headers :: "string list"
  fn_query :: "string list"
  fn_tool_arguments :: "(string \<times> string list) list"
  fn_now :: bool

fun push_entry :: "string \<Rightarrow> string \<Rightarrow> (string \<times> string list) list \<Rightarrow> (string \<times> string list) list" where
  "push_entry k v [] = [(k, [v])]"
| "push_entry k v ((k', vs) # rest) =
     (if k = k' then (k', vs @ [v]) # rest else (k', vs) # push_entry k v rest)"

fun FactNeeds_add :: "FactNeeds \<Rightarrow> Condition \<Rightarrow> string option \<Rightarrow> FactNeeds" where
  "FactNeeds_add needs (Cond_All operands) tool_name =
     foldl (\<lambda>n operand. FactNeeds_add n operand tool_name) needs operands"
| "FactNeeds_add needs (Cond_Any operands) tool_name =
     foldl (\<lambda>n operand. FactNeeds_add n operand tool_name) needs operands"
| "FactNeeds_add needs (Cond_Not operand) tool_name = FactNeeds_add needs operand tool_name"
| "FactNeeds_add needs (Cond_Organization _ _) tool_name = needs\<lparr>fn_organization := True\<rparr>"
| "FactNeeds_add needs (Cond_Scope _ _) tool_name = needs\<lparr>fn_scopes := True\<rparr>"
| "FactNeeds_add needs (Cond_Claim _ name _) tool_name =
     needs\<lparr>fn_claims := fn_claims needs @ [name]\<rparr>"
| "FactNeeds_add needs (Cond_SourceNetwork _) tool_name = needs\<lparr>fn_source_ip := True\<rparr>"
| "FactNeeds_add needs (Cond_Header name _) tool_name =
     needs\<lparr>fn_headers := fn_headers needs @ [str_lower name]\<rparr>"
| "FactNeeds_add needs (Cond_Query name _) tool_name =
     needs\<lparr>fn_query := fn_query needs @ [name]\<rparr>"
| "FactNeeds_add needs (Cond_ToolArgument ptr _) tool_name =
     (case tool_name of
        None \<Rightarrow> needs
      | Some tool \<Rightarrow> needs\<lparr>fn_tool_arguments := push_entry tool ptr (fn_tool_arguments needs)\<rparr>)"
| "FactNeeds_add needs (Cond_TimeWindow _ _) tool_name = needs\<lparr>fn_now := True\<rparr>"

definition sort_dedup :: "string list \<Rightarrow> string list" where
  "sort_dedup names = remdups_adj (sort names)"

definition FactNeeds_of :: "Rule list \<Rightarrow> IdentityMapping list option \<Rightarrow> FactNeeds" where
  "FactNeeds_of rules mappings =
     (let needs = \<lparr>fn_organization = (mappings \<noteq> None),
                   fn_scopes = (case mappings of None \<Rightarrow> False
                                | Some ms \<Rightarrow> list_ex (\<lambda>m. im_scopes m \<noteq> []) ms),
                   fn_claims = [], fn_source_ip = False, fn_headers = [], fn_query = [],
                   fn_tool_arguments = [], fn_now = False\<rparr>;
          needs = foldl (\<lambda>n rule. case rule_conditions rule of
                                   None \<Rightarrow> n
                                 | Some c \<Rightarrow> FactNeeds_add n c (rule_tool_name rule)) needs rules
      in needs\<lparr>fn_headers := sort_dedup (fn_headers needs),
               fn_query := sort_dedup (fn_query needs),
               fn_claims := sort_dedup (fn_claims needs),
               fn_tool_arguments := map (\<lambda>(tool, ptrs). (tool, sort_dedup ptrs)) (fn_tool_arguments needs)\<rparr>)"

definition tool_argument_pointers :: "FactNeeds \<Rightarrow> string \<Rightarrow> string list" where
  "tool_argument_pointers needs tool_name =
     (case map_of (fn_tool_arguments needs) tool_name of None \<Rightarrow> [] | Some ptrs \<Rightarrow> ptrs)"

definition reads_request_facts :: "FactNeeds \<Rightarrow> bool" where
  "reads_request_facts needs =
     (fn_source_ip needs \<or> fn_headers needs \<noteq> [] \<or> fn_query needs \<noteq> []
      \<or> fn_tool_arguments needs \<noteq> [] \<or> fn_now needs)"

section \<open>The principal's facts\<close>

definition captured :: "'a option \<Rightarrow> 'a Fact" where
  "captured v = (case v of None \<Rightarrow> Uncaptured | Some x \<Rightarrow> Captured x)"

definition serving_facts :: "FactNeeds \<Rightarrow> Principal option \<Rightarrow> PolicyFacts" where
  "serving_facts needs caller =
     uncaptured
       \<lparr>pf_organization := (if fn_organization needs then Captured (Option.bind caller org_id) else Uncaptured),
        pf_scopes := (if fn_scopes needs
                      then (case caller of None \<Rightarrow> Captured [] | Some p \<Rightarrow> captured (scopes p))
                      else Uncaptured),
        pf_claims := (if fn_claims needs \<noteq> []
                      then Captured (case caller of
                                       None \<Rightarrow> []
                                     | Some p \<Rightarrow> filter (\<lambda>c. claim_name c \<in> set (fn_claims needs))
                                                   (verified_claims p))
                      else Uncaptured)\<rparr>"

section \<open>UTF-8\<close>

text \<open>
  One step of \<open>Utf8Chunks\<close>: whether the sequence at the head is a character, and
  how many bytes were read, at least one.
\<close>

definition byte_at :: "string \<Rightarrow> nat \<Rightarrow> nat" where
  "byte_at bs i = (if i < length bs then byte (bs ! i) else 0)"

definition is_cont :: "nat \<Rightarrow> bool" where
  "is_cont b = (128 \<le> b \<and> b \<le> 191)"

definition utf8_step :: "string \<Rightarrow> bool \<times> nat" where
  "utf8_step bs =
     (let b0 = byte_at bs 0; b1 = byte_at bs 1; b2 = byte_at bs 2; b3 = byte_at bs 3 in
      if b0 < 128 then (True, 1)
      else if 0xC2 \<le> b0 \<and> b0 \<le> 0xDF then (if is_cont b1 then (True, 2) else (False, 1))
      else if 0xE0 \<le> b0 \<and> b0 \<le> 0xEF then
        (if \<not> ((b0 = 0xE0 \<and> 0xA0 \<le> b1 \<and> b1 \<le> 0xBF) \<or> (0xE1 \<le> b0 \<and> b0 \<le> 0xEC \<and> is_cont b1)
               \<or> (b0 = 0xED \<and> 0x80 \<le> b1 \<and> b1 \<le> 0x9F) \<or> (0xEE \<le> b0 \<and> is_cont b1))
         then (False, 1)
         else if is_cont b2 then (True, 3) else (False, 2))
      else if 0xF0 \<le> b0 \<and> b0 \<le> 0xF4 then
        (if \<not> ((b0 = 0xF0 \<and> 0x90 \<le> b1 \<and> b1 \<le> 0xBF) \<or> (0xF1 \<le> b0 \<and> b0 \<le> 0xF3 \<and> is_cont b1)
               \<or> (b0 = 0xF4 \<and> 0x80 \<le> b1 \<and> b1 \<le> 0x8F))
         then (False, 1)
         else if \<not> is_cont b2 then (False, 2)
         else if is_cont b3 then (True, 4) else (False, 3))
      else (False, 1))"

lemma utf8_step_pos: "utf8_step bs = (v, n) \<Longrightarrow> 0 < n"
  by (auto simp: utf8_step_def Let_def split: if_splits)

function valid_utf8 :: "string \<Rightarrow> bool" where
  "valid_utf8 bs =
     (if bs = [] then True
      else (case utf8_step bs of (v, n) \<Rightarrow> v \<and> valid_utf8 (drop n bs)))"
  by pat_completeness auto
termination
  by (relation "measure length") (auto dest!: sym [THEN utf8_step_pos])

function from_utf8_lossy :: "string \<Rightarrow> string" where
  "from_utf8_lossy bs =
     (if bs = [] then []
      else (case utf8_step bs of
              (v, n) \<Rightarrow> (if v then take n bs else [CHR 0xEF, CHR 0xBF, CHR 0xBD])
                        @ from_utf8_lossy (drop n bs)))"
  by pat_completeness auto
termination
  by (relation "measure length") (auto dest!: sym [THEN utf8_step_pos])

declare valid_utf8.simps [simp del] from_utf8_lossy.simps [simp del]

section \<open>Request facts\<close>

definition MAX_FACT_ENTRIES :: nat where "MAX_FACT_ENTRIES = 128"
definition MAX_FACT_NAME_BYTES :: nat where "MAX_FACT_NAME_BYTES = 256"
definition MAX_FACT_VALUE_BYTES :: nat where "MAX_FACT_VALUE_BYTES = 8192"

datatype FactsRefusal = QueryUndecodable | FactsTooLarge

fun copy_headers ::
    "(string \<times> string) list \<Rightarrow> string \<Rightarrow> string list \<Rightarrow> (FactsRefusal, (string \<times> string) list) result" where
  "copy_headers copied name [] = Inr copied"
| "copy_headers copied name (v # vs) =
     (if length copied = MAX_FACT_ENTRIES then Inl FactsTooLarge
      else let text = from_utf8_lossy v in
           if length text > MAX_FACT_VALUE_BYTES then Inl FactsTooLarge
           else copy_headers (copied @ [(name, text)]) name vs)"

fun referenced_headers_loop ::
    "(string \<Rightarrow> string list) \<Rightarrow> (string \<times> string) list \<Rightarrow> string list
       \<Rightarrow> (FactsRefusal, (string \<times> string) list) result" where
  "referenced_headers_loop get_all copied [] = Inr copied"
| "referenced_headers_loop get_all copied (name # names) =
     (case copy_headers copied name (get_all name) of
        Inl e \<Rightarrow> Inl e
      | Inr copied' \<Rightarrow> referenced_headers_loop get_all copied' names)"

definition referenced_headers ::
    "(string \<Rightarrow> string list) \<Rightarrow> string list \<Rightarrow> (FactsRefusal, (string \<times> string) list) result" where
  "referenced_headers get_all names = referenced_headers_loop get_all [] names"

definition hex_digit :: "char \<Rightarrow> nat option" where
  "hex_digit b =
     (if 48 \<le> byte b \<and> byte b \<le> 57 then Some (byte b - 48)
      else if 97 \<le> byte b \<and> byte b \<le> 102 then Some (byte b - 97 + 10)
      else if 65 \<le> byte b \<and> byte b \<le> 70 then Some (byte b - 65 + 10)
      else None)"

fun decode_loop :: "string \<Rightarrow> string option" where
  "decode_loop [] = Some []"
| "decode_loop (b # rest) =
     (if b = CHR ''+'' then map_option ((#) CHR '' '') (decode_loop rest)
      else if b = CHR ''%'' then
        (case rest of
           high # low # tail \<Rightarrow>
             (case (hex_digit high, hex_digit low) of
                (Some h, Some l) \<Rightarrow> map_option ((#) (char_of (h * 16 + l))) (decode_loop tail)
              | _ \<Rightarrow> None)
         | _ \<Rightarrow> None)
      else map_option ((#) b) (decode_loop rest))"

definition decode_component :: "string \<Rightarrow> (FactsRefusal, string) result" where
  "decode_component raw =
     (if \<not> list_ex (\<lambda>b. b = CHR ''%'' \<or> b = CHR ''+'') raw then
        (if has_control raw then Inl QueryUndecodable else Inr raw)
      else (case decode_loop raw of
              None \<Rightarrow> Inl QueryUndecodable
            | Some decoded \<Rightarrow>
                if \<not> valid_utf8 decoded then Inl QueryUndecodable
                else if has_control decoded then Inl QueryUndecodable
                else Inr decoded))"

definition split_once_eq :: "string \<Rightarrow> string \<times> string" where
  "split_once_eq piece =
     (takeWhile (\<lambda>c. c \<noteq> CHR ''='') piece, tl (dropWhile (\<lambda>c. c \<noteq> CHR ''='') piece))"

fun referenced_query_loop ::
    "string list \<Rightarrow> (string \<times> string) list \<Rightarrow> string list
       \<Rightarrow> (FactsRefusal, (string \<times> string) list) result" where
  "referenced_query_loop names pairs [] = Inr pairs"
| "referenced_query_loop names pairs (piece # pieces) =
     (case decode_component (fst (split_once_eq piece)) of
        Inl e \<Rightarrow> Inl e
      | Inr name \<Rightarrow>
          (case decode_component (snd (split_once_eq piece)) of
             Inl e \<Rightarrow> Inl e
           | Inr v \<Rightarrow>
               if \<not> list_ex (\<lambda>wanted. wanted = name) names then referenced_query_loop names pairs pieces
               else if length pairs = MAX_FACT_ENTRIES \<or> length name > MAX_FACT_NAME_BYTES
                       \<or> length v > MAX_FACT_VALUE_BYTES
               then Inl FactsTooLarge
               else referenced_query_loop names (pairs @ [(name, v)]) pieces))"

definition referenced_query ::
    "string option \<Rightarrow> string list \<Rightarrow> (FactsRefusal, (string \<times> string) list) result" where
  "referenced_query query names =
     (case query of
        None \<Rightarrow> Inr []
      | Some q \<Rightarrow> referenced_query_loop names [] (filter (\<lambda>piece. piece \<noteq> []) (str_split CHR ''&'' q)))"

text \<open>The steps of \<open>http_request_facts\<close>, one per fact it captures.\<close>

definition put_source_ip :: "FactNeeds \<Rightarrow> IpAddr option \<Rightarrow> PolicyFacts \<Rightarrow> PolicyFacts" where
  "put_source_ip n addr f = (if fn_source_ip n then f\<lparr>pf_source_ip := captured addr\<rparr> else f)"

definition put_headers ::
    "FactNeeds \<Rightarrow> (string \<Rightarrow> string list) \<Rightarrow> PolicyFacts \<Rightarrow> (FactsRefusal, PolicyFacts) result" where
  "put_headers n get_all f =
     (if fn_headers n \<noteq> []
      then map_sum id (\<lambda>hs. f\<lparr>pf_headers := Captured hs\<rparr>) (referenced_headers get_all (fn_headers n))
      else Inr f)"

definition put_query ::
    "FactNeeds \<Rightarrow> string option \<Rightarrow> PolicyFacts \<Rightarrow> (FactsRefusal, PolicyFacts) result" where
  "put_query n query f =
     (if fn_query n \<noteq> []
      then map_sum id (\<lambda>ps. f\<lparr>pf_query := Captured ps\<rparr>) (referenced_query query (fn_query n))
      else Inr f)"

definition put_now :: "FactNeeds \<Rightarrow> int option \<Rightarrow> PolicyFacts \<Rightarrow> PolicyFacts" where
  "put_now n now f = (if fn_now n then f\<lparr>pf_now := captured now\<rparr> else f)"

definition http_request_facts ::
    "FactNeeds \<Rightarrow> Principal option \<Rightarrow> (string \<Rightarrow> string list) \<Rightarrow> string option \<Rightarrow> IpAddr option
       \<Rightarrow> int option \<Rightarrow> (FactsRefusal, PolicyFacts) result" where
  "http_request_facts n caller get_all query client_addr now =
     (let facts = serving_facts n caller in
      if \<not> reads_request_facts n then Inr facts
      else (case put_headers n get_all (put_source_ip n client_addr facts) of
              Inl e \<Rightarrow> Inl e
            | Inr facts \<Rightarrow>
                (case put_query n query facts of
                   Inl e \<Rightarrow> Inl e
                 | Inr facts \<Rightarrow> Inr (put_now n now facts))))"

definition tool_call_facts ::
    "FactNeeds \<Rightarrow> Principal option \<Rightarrow> IpAddr option \<Rightarrow> int option \<Rightarrow> PolicyFacts" where
  "tool_call_facts needs caller source_address now =
     put_now needs now (put_source_ip needs source_address (serving_facts needs caller))"

lemmas capture_defs = sort_dedup_def FactNeeds_of_def tool_argument_pointers_def
  reads_request_facts_def captured_def serving_facts_def byte_at_def is_cont_def utf8_step_def
  MAX_FACT_ENTRIES_def MAX_FACT_NAME_BYTES_def MAX_FACT_VALUE_BYTES_def referenced_headers_def
  hex_digit_def decode_component_def split_once_eq_def referenced_query_def put_source_ip_def put_headers_def
  put_query_def put_now_def http_request_facts_def
  tool_call_facts_def

declare capture_defs [eval_defs] uncaptured_def [eval_defs]

section \<open>The needs of a policy cover its conditions\<close>

fun covers :: "FactNeeds \<Rightarrow> Condition \<Rightarrow> bool" where
  "covers n (Cond_All operands) = list_all (covers n) operands"
| "covers n (Cond_Any operands) = list_all (covers n) operands"
| "covers n (Cond_Not operand) = covers n operand"
| "covers n (Cond_Organization _ _) = fn_organization n"
| "covers n (Cond_Scope _ _) = fn_scopes n"
| "covers n (Cond_Claim _ name _) = (name \<in> set (fn_claims n))"
| "covers n (Cond_SourceNetwork _) = fn_source_ip n"
| "covers n (Cond_Header name _) = (str_lower name \<in> set (fn_headers n))"
| "covers n (Cond_Query name _) = (name \<in> set (fn_query n))"
| "covers n (Cond_ToolArgument _ _) = True"
| "covers n (Cond_TimeWindow _ _) = fn_now n"

definition needs_le :: "FactNeeds \<Rightarrow> FactNeeds \<Rightarrow> bool" where
  "needs_le n m =
     ((fn_organization n \<longrightarrow> fn_organization m) \<and> (fn_scopes n \<longrightarrow> fn_scopes m)
      \<and> set (fn_claims n) \<subseteq> set (fn_claims m) \<and> (fn_source_ip n \<longrightarrow> fn_source_ip m)
      \<and> set (fn_headers n) \<subseteq> set (fn_headers m) \<and> set (fn_query n) \<subseteq> set (fn_query m)
      \<and> (fn_now n \<longrightarrow> fn_now m))"

lemma needs_le_refl [simp]: "needs_le n n"
  by (simp add: needs_le_def)

lemma needs_le_trans [trans]: "needs_le n m \<Longrightarrow> needs_le m k \<Longrightarrow> needs_le n k"
  by (auto simp: needs_le_def)

lemma covers_mono: "needs_le n m \<Longrightarrow> covers n c \<Longrightarrow> covers m c"
  by (induction n c rule: covers.induct) (auto simp: needs_le_def list_all_iff)

lemma foldl_needs_le:
  assumes "\<And>n x. x \<in> set xs \<Longrightarrow> needs_le n (h n x)"
  shows "needs_le n (foldl h n xs)"
  using assms by (induction xs arbitrary: n) (auto intro: needs_le_trans)

lemma FactNeeds_add_le: "needs_le n (FactNeeds_add n c tool)"
proof (induction n c tool rule: FactNeeds_add.induct)
  case (1 n operands tool)
  then show ?case by (simp add: foldl_needs_le)
next
  case (2 n operands tool)
  then show ?case by (simp add: foldl_needs_le)
qed (auto simp: needs_le_def split: option.splits)

lemma foldl_add_covers:
  assumes "\<And>n x. x \<in> set xs \<Longrightarrow> covers (FactNeeds_add n x tool) x"
  shows "\<forall>x\<in>set xs. covers (foldl (\<lambda>n x. FactNeeds_add n x tool) n xs) x"
  using assms
proof (induction xs arbitrary: n)
  case (Cons x xs)
  have "needs_le (FactNeeds_add n x tool) (foldl (\<lambda>n x. FactNeeds_add n x tool) (FactNeeds_add n x tool) xs)"
    by (rule foldl_needs_le) (rule FactNeeds_add_le)
  then show ?case using Cons covers_mono by auto
qed simp

lemma FactNeeds_add_covers: "covers (FactNeeds_add n c tool) c"
proof (induction n c tool rule: FactNeeds_add.induct)
  case (1 n operands tool)
  then show ?case using foldl_add_covers [of operands tool n] by (simp add: list_all_iff)
next
  case (2 n operands tool)
  then show ?case using foldl_add_covers [of operands tool n] by (simp add: list_all_iff)
qed (auto split: option.splits)

lemma set_sort_dedup [simp]: "set (sort_dedup xs) = set xs"
  by (simp add: sort_dedup_def)

definition add_rule :: "FactNeeds \<Rightarrow> Rule \<Rightarrow> FactNeeds" where
  "add_rule n rule = (case rule_conditions rule of None \<Rightarrow> n
                      | Some c \<Rightarrow> FactNeeds_add n c (rule_tool_name rule))"

lemma add_rule_le: "needs_le n (add_rule n rule)"
  by (auto simp: add_rule_def FactNeeds_add_le split: option.splits)

lemma foldl_add_rule_covers:
  "rule \<in> set rules \<Longrightarrow> rule_conditions rule = Some c \<Longrightarrow> covers (foldl add_rule n rules) c"
proof (induction rules arbitrary: n)
  case (Cons r rules)
  show ?case
  proof (cases "rule = r")
    case True
    then have "covers (add_rule n r) c" using Cons.prems by (simp add: add_rule_def FactNeeds_add_covers)
    moreover have "needs_le (add_rule n r) (foldl add_rule (add_rule n r) rules)"
      by (rule foldl_needs_le) (rule add_rule_le)
    ultimately show ?thesis using covers_mono by auto
  qed (use Cons in simp)
qed simp

definition initial_needs :: "IdentityMapping list option \<Rightarrow> FactNeeds" where
  "initial_needs mappings =
     \<lparr>fn_organization = (mappings \<noteq> None),
      fn_scopes = (case mappings of None \<Rightarrow> False | Some ms \<Rightarrow> list_ex (\<lambda>m. im_scopes m \<noteq> []) ms),
      fn_claims = [], fn_source_ip = False, fn_headers = [], fn_query = [],
      fn_tool_arguments = [], fn_now = False\<rparr>"

lemma FactNeeds_of_le: "needs_le (foldl add_rule (initial_needs mappings) rules) (FactNeeds_of rules mappings)"
  by (simp add: FactNeeds_of_def Let_def needs_le_def add_rule_def [abs_def] initial_needs_def)

lemma FactNeeds_of_covers:
  "rule \<in> set rules \<Longrightarrow> rule_conditions rule = Some c \<Longrightarrow> covers (FactNeeds_of rules mappings) c"
  using covers_mono [OF FactNeeds_of_le] foldl_add_rule_covers by blast

lemma FactNeeds_of_mappings:
  "needs_le (initial_needs mappings) (FactNeeds_of rules mappings)"
proof -
  have "needs_le (initial_needs mappings) (foldl add_rule (initial_needs mappings) rules)"
    by (rule foldl_needs_le) (rule add_rule_le)
  then show ?thesis using FactNeeds_of_le needs_le_trans by blast
qed

section \<open>Facts that agree where a policy reads\<close>

definition claim_fact :: "PolicyFacts \<Rightarrow> string \<Rightarrow> VerifiedClaim option" where
  "claim_fact f name = (case pf_claims f of Uncaptured \<Rightarrow> None | Captured cs \<Rightarrow> lookup_claim cs name)"

definition header_fact :: "PolicyFacts \<Rightarrow> string \<Rightarrow> string set option" where
  "header_fact f name =
     (case pf_headers f of Uncaptured \<Rightarrow> None
      | Captured hs \<Rightarrow> Some {v. \<exists>k. (k, v) \<in> set hs \<and> eq_ignore_ascii_case k name})"

definition query_fact :: "PolicyFacts \<Rightarrow> string \<Rightarrow> string set option" where
  "query_fact f name =
     (case pf_query f of Uncaptured \<Rightarrow> None | Captured ps \<Rightarrow> Some {v. (name, v) \<in> set ps})"

definition agree :: "FactNeeds \<Rightarrow> PolicyFacts \<Rightarrow> PolicyFacts \<Rightarrow> bool" where
  "agree n f g =
     ((fn_organization n \<longrightarrow> pf_organization f = pf_organization g)
      \<and> (fn_scopes n \<longrightarrow> pf_scopes f = pf_scopes g)
      \<and> (\<forall>name\<in>set (fn_claims n). claim_fact f name = claim_fact g name)
      \<and> (fn_source_ip n \<longrightarrow> pf_source_ip f = pf_source_ip g)
      \<and> (\<forall>name\<in>set (fn_headers n). header_fact f name = header_fact g name)
      \<and> (\<forall>name\<in>set (fn_query n). query_fact f name = query_fact g name)
      \<and> (fn_now n \<longrightarrow> pf_now f = pf_now g)
      \<and> pf_tool_arguments f = pf_tool_arguments g)"

lemma evaluate_claim_fact:
  "evaluate ext (CC_Claim iss name vs) caller f =
     (if \<not> issued_by caller iss then TFalse
      else (case claim_fact f name of
              None \<Rightarrow> TUnknown
            | Some claim \<Rightarrow>
                Truth_of (list_ex (\<lambda>actual. list_ex (\<lambda>authored. scalar_eq ext authored actual) vs)
                            (claim_values claim))))"
  by (simp add: claim_fact_def lookup_claim_def split: Fact.splits option.splits)

lemma evaluate_header_fact:
  "evaluate ext (CC_Header name vs) caller f =
     (case header_fact f name of None \<Rightarrow> TUnknown | Some hs \<Rightarrow> Truth_of (hs \<inter> set vs \<noteq> {}))"
  by (auto simp: header_fact_def list_ex_iff Truth_of_def split: Fact.splits)

lemma evaluate_query_fact:
  "evaluate ext (CC_Query name vs) caller f =
     (case query_fact f name of None \<Rightarrow> TUnknown | Some qs \<Rightarrow> Truth_of (qs \<inter> set vs \<noteq> {}))"
  by (auto simp: query_fact_def list_ex_iff Truth_of_def split: Fact.splits)

lemma evaluate_agree:
  assumes "agree n f g"
  shows "covers n c \<Longrightarrow>
     evaluate ext (CompiledCondition_new ext c) caller f = evaluate ext (CompiledCondition_new ext c) caller g"
proof (induction c)
  case (Cond_All operands)
  then have "foldl (\<lambda>t c. Truth_and_then t (evaluate ext (CompiledCondition_new ext c) caller f)) a operands
      = foldl (\<lambda>t c. Truth_and_then t (evaluate ext (CompiledCondition_new ext c) caller g)) a operands" for a
    by (induction operands arbitrary: a) auto
  then show ?case by (simp add: foldl_map)
next
  case (Cond_Any operands)
  then have "foldl (\<lambda>t c. Truth_or_else t (evaluate ext (CompiledCondition_new ext c) caller f)) a operands
      = foldl (\<lambda>t c. Truth_or_else t (evaluate ext (CompiledCondition_new ext c) caller g)) a operands" for a
    by (induction operands arbitrary: a) auto
  then show ?case by (simp add: foldl_map)
next
  case (Cond_Claim iss name vs)
  then have "claim_fact f name = claim_fact g name" using assms by (simp add: agree_def)
  then show ?case
    by (cases "canonical_issuer iss") (simp_all add: evaluate_claim_fact del: evaluate.simps(6))
next
  case (Cond_Header name vs)
  then show ?case using assms by (simp add: evaluate_header_fact agree_def del: evaluate.simps)
next
  case (Cond_Query name vs)
  then show ?case using assms by (simp add: evaluate_query_fact agree_def del: evaluate.simps)
next
  case (Cond_TimeWindow a b)
  then show ?case using assms by (auto simp: agree_def split: option.splits)
qed (use assms in \<open>auto simp: agree_def split: option.splits\<close>)

section \<open>A lane's facts decide as every fact would\<close>

text \<open>
  \<open>observed_facts\<close> is everything the request shows: the principal's organization,
  scopes and all verified claims, every field line of the fields \<open>names\<close>, every query
  parameter when the query decodes, the client address and the instant.
\<close>

fun decode_pairs :: "string list \<Rightarrow> (string \<times> string) list option" where
  "decode_pairs [] = Some []"
| "decode_pairs (piece # pieces) =
     (case (decode_component (fst (split_once_eq piece)), decode_component (snd (split_once_eq piece))) of
        (Inr name, Inr v) \<Rightarrow> map_option ((#) (name, v)) (decode_pairs pieces)
      | _ \<Rightarrow> None)"

definition decode_query :: "string option \<Rightarrow> (string \<times> string) list option" where
  "decode_query query =
     (case query of None \<Rightarrow> Some []
      | Some q \<Rightarrow> decode_pairs (filter (\<lambda>piece. piece \<noteq> []) (str_split CHR ''&'' q)))"

definition all_lines :: "(string \<Rightarrow> string list) \<Rightarrow> string list \<Rightarrow> (string \<times> string) list" where
  "all_lines get_all names = concat (map (\<lambda>n. map (\<lambda>v. (n, from_utf8_lossy v)) (get_all n)) names)"

definition observed_facts ::
    "Principal option \<Rightarrow> (string \<Rightarrow> string list) \<Rightarrow> string list \<Rightarrow> string option \<Rightarrow> IpAddr option
       \<Rightarrow> int option \<Rightarrow> PolicyFacts" where
  "observed_facts caller get_all names query client_addr now =
     \<lparr>pf_organization = Captured (Option.bind caller org_id),
      pf_scopes = (case caller of None \<Rightarrow> Captured [] | Some p \<Rightarrow> captured (scopes p)),
      pf_claims = Captured (case caller of None \<Rightarrow> [] | Some p \<Rightarrow> verified_claims p),
      pf_source_ip = captured client_addr,
      pf_headers = Captured (all_lines get_all names),
      pf_query = captured (decode_query query),
      pf_tool_arguments = Uncaptured,
      pf_now = captured now\<rparr>"

lemma copy_headers_Inr:
  "copy_headers copied name vs = Inr hs \<Longrightarrow> hs = copied @ map (\<lambda>v. (name, from_utf8_lossy v)) vs"
  by (induction copied name vs rule: copy_headers.induct) (auto simp: Let_def split: if_splits)

lemma referenced_headers_loop_Inr:
  "referenced_headers_loop get_all copied names = Inr hs \<Longrightarrow> hs = copied @ all_lines get_all names"
  by (induction get_all copied names rule: referenced_headers_loop.induct)
     (auto simp: all_lines_def dest: copy_headers_Inr split: sum.splits)

lemma referenced_headers_Inr:
  "referenced_headers get_all names = Inr hs \<Longrightarrow> hs = all_lines get_all names"
  by (auto simp: referenced_headers_def dest: referenced_headers_loop_Inr)

lemma referenced_query_loop_Inr:
  "referenced_query_loop names pairs pieces = Inr ps \<Longrightarrow>
     \<exists>qs. decode_pairs pieces = Some qs \<and> ps = pairs @ filter (\<lambda>(k, v). k \<in> set names) qs"
proof (induction names pairs pieces rule: referenced_query_loop.induct)
  case (2 names pairs piece pieces)
  then obtain name v where d: "decode_component (fst (split_once_eq piece)) = Inr name"
    "decode_component (snd (split_once_eq piece)) = Inr v"
    by (auto split: sum.splits)
  show ?case
  proof (cases "name \<in> set names")
    case True
    then have "referenced_query_loop names (pairs @ [(name, v)]) pieces = Inr ps"
      using "2.prems" d by (simp add: list_ex_iff split: if_splits)
    then obtain qs where "decode_pairs pieces = Some qs"
      "ps = (pairs @ [(name, v)]) @ filter (\<lambda>(k, v). k \<in> set names) qs"
      using "2.IH"(2) d True "2.prems" by (auto simp: list_ex_iff split: if_splits)
    then show ?thesis using d True by simp
  next
    case False
    then have "referenced_query_loop names pairs pieces = Inr ps"
      using "2.prems" d by (auto simp: list_ex_iff split: if_splits)
    then obtain qs where "decode_pairs pieces = Some qs"
      "ps = pairs @ filter (\<lambda>(k, v). k \<in> set names) qs"
      using "2.IH"(1) d False by (auto simp: list_ex_iff)
    then show ?thesis using d False by simp
  qed
qed simp

lemma referenced_query_Inr:
  "referenced_query query names = Inr ps \<Longrightarrow>
     \<exists>qs. decode_query query = Some qs \<and> ps = filter (\<lambda>(k, v). k \<in> set names) qs"
  using referenced_query_loop_Inr [of names "[]"]
  by (auto simp: referenced_query_def decode_query_def split: option.splits)

lemma lookup_claim_filter:
  "name \<in> S \<Longrightarrow> lookup_claim (filter (\<lambda>c. claim_name c \<in> S) cs) name = lookup_claim cs name"
  by (induction cs) (auto simp: lookup_claim_def)

lemma header_view_lines:
  assumes "name \<in> set small" "set small \<subseteq> set names" "\<forall>n\<in>set names. str_lower n = n"
  shows "{v. \<exists>k. (k, v) \<in> set (all_lines get_all small) \<and> eq_ignore_ascii_case k name}
       = {v. \<exists>k. (k, v) \<in> set (all_lines get_all names) \<and> eq_ignore_ascii_case k name}"
proof -
  have "{v. \<exists>k. (k, v) \<in> set (all_lines get_all ns) \<and> eq_ignore_ascii_case k name}
      = from_utf8_lossy ` set (get_all name)"
    if "name \<in> set ns" "set ns \<subseteq> set names" for ns
  proof -
    have "eq_ignore_ascii_case k name \<longleftrightarrow> k = name" if "k \<in> set ns" for k
      using that \<open>name \<in> set ns\<close> \<open>set ns \<subseteq> set names\<close> assms(3)
      by (metis eq_ignore_ascii_case_def subsetD)
    then show ?thesis using that(1) by (auto simp: all_lines_def)
  qed
  then show ?thesis using assms by blast
qed

lemma http_request_facts_steps:
  assumes "http_request_facts n caller get_all query addr now = Inr f"
  obtains f1 f2 where "put_headers n get_all (put_source_ip n addr (serving_facts n caller)) = Inr f1"
    "put_query n query f1 = Inr f2" "f = put_now n now f2"
proof (cases "reads_request_facts n")
  case True
  then show thesis
    using assms that by (auto simp: http_request_facts_def Let_def split: sum.splits)
next
  case False
  then have "f = serving_facts n caller" using assms by (simp add: http_request_facts_def)
  with False show thesis
    by (intro that [of f f])
       (simp_all add: reads_request_facts_def put_source_ip_def put_headers_def put_query_def put_now_def)
qed

lemma http_request_facts_fields:
  assumes "http_request_facts n caller get_all query addr now = Inr f"
  shows "pf_organization f = pf_organization (serving_facts n caller)"
    and "pf_scopes f = pf_scopes (serving_facts n caller)"
    and "pf_claims f = pf_claims (serving_facts n caller)"
    and "pf_tool_arguments f = Uncaptured"
    and "fn_source_ip n \<Longrightarrow> pf_source_ip f = captured addr"
    and "fn_now n \<Longrightarrow> pf_now f = captured now"
    and "fn_headers n \<noteq> [] \<Longrightarrow>
           \<exists>hs. referenced_headers get_all (fn_headers n) = Inr hs \<and> pf_headers f = Captured hs"
    and "fn_query n \<noteq> [] \<Longrightarrow>
           \<exists>ps. referenced_query query (fn_query n) = Inr ps \<and> pf_query f = Captured ps"
proof -
  obtain f1 f2 where h: "put_headers n get_all (put_source_ip n addr (serving_facts n caller)) = Inr f1"
    and q: "put_query n query f1 = Inr f2" and f: "f = put_now n now f2"
    using http_request_facts_steps [OF assms] by blast
  have f1: "pf_organization f1 = pf_organization (serving_facts n caller)"
      "pf_scopes f1 = pf_scopes (serving_facts n caller)"
      "pf_claims f1 = pf_claims (serving_facts n caller)" "pf_tool_arguments f1 = Uncaptured"
      "fn_source_ip n \<Longrightarrow> pf_source_ip f1 = captured addr"
      "fn_headers n \<noteq> [] \<Longrightarrow>
         \<exists>hs. referenced_headers get_all (fn_headers n) = Inr hs \<and> pf_headers f1 = Captured hs"
    using h by (cases "referenced_headers get_all (fn_headers n)";
        auto simp: put_headers_def put_source_ip_def serving_facts_def uncaptured_def split: if_splits)+
  have f2: "pf_organization f2 = pf_organization f1" "pf_scopes f2 = pf_scopes f1"
      "pf_claims f2 = pf_claims f1" "pf_tool_arguments f2 = pf_tool_arguments f1"
      "pf_source_ip f2 = pf_source_ip f1" "pf_headers f2 = pf_headers f1"
      "fn_query n \<noteq> [] \<Longrightarrow>
         \<exists>ps. referenced_query query (fn_query n) = Inr ps \<and> pf_query f2 = Captured ps"
    using q by (cases "referenced_query query (fn_query n)";
        auto simp: put_query_def split: if_splits)+
  have f3: "pf_organization f = pf_organization f2" "pf_scopes f = pf_scopes f2"
      "pf_claims f = pf_claims f2" "pf_tool_arguments f = pf_tool_arguments f2"
      "pf_source_ip f = pf_source_ip f2" "pf_headers f = pf_headers f2" "pf_query f = pf_query f2"
      "fn_now n \<Longrightarrow> pf_now f = captured now"
    using f by (simp_all add: put_now_def)
  show "pf_organization f = pf_organization (serving_facts n caller)"
    and "pf_scopes f = pf_scopes (serving_facts n caller)"
    and "pf_claims f = pf_claims (serving_facts n caller)"
    and "pf_tool_arguments f = Uncaptured"
    and "fn_source_ip n \<Longrightarrow> pf_source_ip f = captured addr"
    and "fn_now n \<Longrightarrow> pf_now f = captured now"
    and "fn_headers n \<noteq> [] \<Longrightarrow>
           \<exists>hs. referenced_headers get_all (fn_headers n) = Inr hs \<and> pf_headers f = Captured hs"
    and "fn_query n \<noteq> [] \<Longrightarrow>
           \<exists>ps. referenced_query query (fn_query n) = Inr ps \<and> pf_query f = Captured ps"
    using f1 f2 f3 by simp_all
qed

lemma http_request_facts_agree:
  assumes f: "http_request_facts n caller get_all query addr now = Inr f"
    and names: "set (fn_headers n) \<subseteq> set names" "\<forall>nm\<in>set names. str_lower nm = nm"
  shows "agree n f (observed_facts caller get_all names query addr now)" (is "agree n f ?g")
proof -
  note fields = http_request_facts_fields [OF f]
  have claims: "claim_fact f nm = claim_fact ?g nm" if "nm \<in> set (fn_claims n)" for nm
    using that fields(3)
    by (cases caller)
       (auto simp: claim_fact_def serving_facts_def observed_facts_def lookup_claim_filter
         split: if_splits)
  have headers: "header_fact f nm = header_fact ?g nm" if "nm \<in> set (fn_headers n)" for nm
  proof -
    from that have "fn_headers n \<noteq> []" by auto
    then obtain hs where "referenced_headers get_all (fn_headers n) = Inr hs" "pf_headers f = Captured hs"
      using fields(7) by blast
    then show ?thesis
      using header_view_lines [OF that names(1,2), of get_all]
      by (auto simp: header_fact_def observed_facts_def dest!: referenced_headers_Inr)
  qed
  have query: "query_fact f nm = query_fact ?g nm" if "nm \<in> set (fn_query n)" for nm
  proof -
    from that have "fn_query n \<noteq> []" by auto
    then obtain ps where "referenced_query query (fn_query n) = Inr ps" and f: "pf_query f = Captured ps"
      using fields(8) by blast
    then obtain qs where "decode_query query = Some qs" "ps = filter (\<lambda>(k, v). k \<in> set (fn_query n)) qs"
      using referenced_query_Inr by blast
    then show ?thesis using that f by (simp add: query_fact_def observed_facts_def captured_def)
  qed
  show ?thesis
    unfolding agree_def using claims headers query fields(1,2,4,5,6)
    by (simp add: serving_facts_def observed_facts_def)
qed

lemma conditions_agree:
  assumes "rule \<in> set rules" "agree (FactNeeds_of rules mappings) f g"
  shows "with_conditions ext (CompiledRule_new ext i rule) b caller f
       = with_conditions ext (CompiledRule_new ext i rule) b caller g"
proof -
  have "evaluate ext (CompiledCondition_new ext c) caller f = evaluate ext (CompiledCondition_new ext c) caller g"
    if "rule_conditions rule = Some c" for c
    using evaluate_agree [OF assms(2) FactNeeds_of_covers [OF assms(1) that]] .
  then show ?thesis
    by (cases "rule_conditions rule") (simp_all add: with_conditions_def CompiledRule_new_def)
qed

lemma compiled_rules_agree:
  assumes "r \<in> set (RuleMatcher_new ext rules)" "agree (FactNeeds_of rules mappings) f g"
  shows "http_truth ext r m path caller ctx f = http_truth ext r m path caller ctx g"
    and "tool_truth ext r tool_name caller f = tool_truth ext r tool_name caller g"
proof -
  from assms(1) obtain i rule where r: "r = CompiledRule_new ext i rule" and rule: "rule \<in> set rules"
    by (auto simp: RuleMatcher_new_def in_set_enumerate_eq)
  note agr = conditions_agree [OF rule assms(2)]
  show "http_truth ext r m path caller ctx f = http_truth ext r m path caller ctx g"
    unfolding http_truth_def r by (simp add: agr split: RuleTarget.splits)
  show "tool_truth ext r tool_name caller f = tool_truth ext r tool_name caller g"
    unfolding tool_truth_def r by (simp add: agr split: RuleTarget.splits)
qed

lemma mapping_applies_agree:
  assumes "mapping \<in> set mappings" "agree (FactNeeds_of rules (Some mappings)) f g"
  shows "mapping_applies mapping p f = mapping_applies mapping p g"
proof -
  have le: "needs_le (initial_needs (Some mappings)) (FactNeeds_of rules (Some mappings))"
    by (rule FactNeeds_of_mappings)
  have "pf_organization f = pf_organization g"
    using le assms(2) by (simp add: needs_le_def initial_needs_def agree_def)
  moreover have "pf_scopes f = pf_scopes g" if "im_scopes mapping \<noteq> []"
    using le assms that by (auto simp: needs_le_def initial_needs_def agree_def list_ex_iff)
  ultimately show ?thesis by (auto simp: mapping_applies_def Let_def)
qed

lemma effective_roles_agree:
  assumes "agree (FactNeeds_of rules (Some mappings)) f g"
  shows "effective_roles mappings p f = effective_roles mappings p g"
proof -
  have "mapping_applies m p f = mapping_applies m p g" if "m \<in> set mappings" for m
    using mapping_applies_agree [OF that assms] .
  then show ?thesis by (auto simp: effective_roles_def effective_roles_loop_eq cong: conj_cong)
qed

lemma scan_agree:
  assumes "agree (FactNeeds_of rules mappings) f g"
  shows "scan_with_dispatch ext (RuleMatcher_new ext rules) m path caller ctx f
       = scan_with_dispatch ext (RuleMatcher_new ext rules) m path caller ctx g"
  unfolding scan_with_dispatch_def
  by (intro arg_cong [where f = first_match] map_cong refl) (simp add: compiled_rules_agree(1) [OF _ assms])

section \<open>Properties\<close>

text \<open>
  C12: capturing only what a policy reads loses nothing. When the HTTP lane's facts are
  captured, every scan of the policy's direct rules answers as it would with
  everything the request shows, and so do the identity mappings.
\<close>

theorem http_request_facts_sufficient:
  assumes "http_request_facts (FactNeeds_of rules mappings) caller get_all query addr now = Inr facts"
    and "set (fn_headers (FactNeeds_of rules mappings)) \<subseteq> set names" "\<forall>nm\<in>set names. str_lower nm = nm"
  shows "scan_with_dispatch ext (RuleMatcher_new ext rules) m path judged ctx facts
         = scan_with_dispatch ext (RuleMatcher_new ext rules) m path judged ctx
             (observed_facts caller get_all names query addr now)
       \<and> (\<forall>ms p. mappings = Some ms \<longrightarrow>
            effective_roles ms p facts
            = effective_roles ms p (observed_facts caller get_all names query addr now))"
proof -
  have agr: "agree (FactNeeds_of rules mappings) facts (observed_facts caller get_all names query addr now)"
    by (rule http_request_facts_agree [OF assms])
  then show ?thesis using scan_agree [OF agr] effective_roles_agree by blast
qed

theorem http_request_facts_sufficient_witness:
  "\<exists>rules facts.
     http_request_facts (FactNeeds_of rules None) None (\<lambda>_. [''on'']) None None None = Inr facts
     \<and> scan_with_dispatch sample_externals (RuleMatcher_new sample_externals rules) ''GET'' ''/a'' None
         dispatch_contextless facts
       = Matched \<lparr>rd_rule_index = 0, rd_action = Deny\<rparr>
     \<and> scan_with_dispatch sample_externals (RuleMatcher_new sample_externals rules) ''GET'' ''/a'' None
         dispatch_contextless (observed_facts None (\<lambda>_. [''on'']) [''x-a'', ''x-b''] None None None)
       = Matched \<lparr>rd_rule_index = 0, rd_action = Deny\<rparr>"
proof -
  define rule where "rule = \<lparr>rule_id = None, rule_enabled = True, rule_methods = [], rule_path = ''/a'',
     rule_tool_name = None, rule_dispatch = None,
     rule_principal = \<lparr>pm_roles = [], pm_issuers = [], pm_auth_methods = [], pm_principal_ids = []\<rparr>,
     rule_conditions = Some (Cond_Header ''X-A'' [''on'']), rule_action = Deny\<rparr>"
  define facts where "facts = uncaptured\<lparr>pf_headers := Captured [(''x-a'', ''on'')]\<rparr>"
  have needs: "fn_headers (FactNeeds_of [rule] None) = [''x-a'']"
    by (simp add: rule_def eval_defs)
  have f: "http_request_facts (FactNeeds_of [rule] None) None (\<lambda>_. [''on'']) None None None = Inr facts"
    by (simp add: rule_def facts_def eval_defs from_utf8_lossy.simps)
  have d: "scan_with_dispatch sample_externals (RuleMatcher_new sample_externals [rule]) ''GET'' ''/a'' None
         dispatch_contextless facts = Matched \<lparr>rd_rule_index = 0, rd_action = Deny\<rparr>"
    by (simp add: rule_def facts_def eval_defs Truth_of_def)
  have names: "set (fn_headers (FactNeeds_of [rule] None)) \<subseteq> set [''x-a'', ''x-b'']"
    by (simp add: needs)
  have lower: "\<forall>nm\<in>set [''x-a'', ''x-b'']. str_lower nm = nm" by (simp add: eval_defs)
  show ?thesis
    using f d http_request_facts_sufficient [OF f names lower, of sample_externals "''GET''" "''/a''" None
        dispatch_contextless]
    by (intro exI [of _ "[rule]"] exI [of _ facts]) simp
qed

end
