(* ===== verification/Net_Parse.thy ===== *)
theory Net_Parse
  imports Prelude
begin

text \<open>
  The parts of Rust's standard library that read numbers and socket addresses:
  \<open>u16::from_str\<close> on digits, and the recursive-descent parser behind
  \<open>Ipv4Addr::from_str\<close> and \<open>Ipv6Addr::from_str\<close>. A parser reads a prefix of its input
  and returns what is left; the number of a group is read as \<open>nat\<close> and kept
  below the bound of its type.
\<close>

definition digit_value :: "char \<Rightarrow> nat" where
  "digit_value c =
     (if is_ascii_digit c then byte c - 48
      else if 97 \<le> byte c \<and> byte c \<le> 122 then byte c - 87
      else if 65 \<le> byte c \<and> byte c \<le> 90 then byte c - 55
      else 36)"

definition is_digit_of :: "nat \<Rightarrow> char \<Rightarrow> bool" where
  "is_digit_of radix c = (digit_value c < radix)"

definition digits_value :: "nat \<Rightarrow> string \<Rightarrow> nat" where
  "digits_value radix s = foldl (\<lambda>acc c. acc * radix + digit_value c) 0 s"

definition read_number :: "nat \<Rightarrow> nat \<Rightarrow> bool \<Rightarrow> nat \<Rightarrow> string \<Rightarrow> (nat \<times> string) option" where
  "read_number radix max_digits allow_zero_prefix bound s =
     (let ds = takeWhile (is_digit_of radix) s; n = length ds in
      if n = 0 \<or> n > max_digits then None
      else if \<not> allow_zero_prefix \<and> hd s = CHR ''0'' \<and> n > 1 then None
      else if digits_value radix ds < bound then Some (digits_value radix ds, drop n s)
      else None)"

definition read_given_char :: "char \<Rightarrow> string \<Rightarrow> string option" where
  "read_given_char c s = (case s of [] \<Rightarrow> None | d # r \<Rightarrow> if d = c then Some r else None)"

definition read_separator ::
    "char \<Rightarrow> nat \<Rightarrow> (string \<Rightarrow> ('a \<times> string) option) \<Rightarrow> string \<Rightarrow> ('a \<times> string) option" where
  "read_separator sep index inner s =
     (if index > 0 then Option.bind (read_given_char sep s) inner else inner s)"

fun read_ipv4_groups :: "nat \<Rightarrow> nat \<Rightarrow> string \<Rightarrow> (nat list \<times> string) option" where
  "read_ipv4_groups 0 i s = Some ([], s)"
| "read_ipv4_groups (Suc k) i s =
     (case read_separator CHR ''.'' i (read_number 10 3 False 256) s of
        None \<Rightarrow> None
      | Some (g, r) \<Rightarrow> map_option (\<lambda>(gs, r'). (g # gs, r')) (read_ipv4_groups k (Suc i) r))"

definition read_ipv4_addr :: "string \<Rightarrow> (nat list \<times> string) option" where
  "read_ipv4_addr s = read_ipv4_groups 4 0 s"

text \<open>
  \<open>read_groups\<close> fills up to \<open>limit\<close> 16-bit groups; an IPv4 address may stand for
  the last two. \<open>k\<close> counts the slots left, \<open>i\<close> the slots filled.
\<close>

fun read_groups :: "nat \<Rightarrow> nat \<Rightarrow> string \<Rightarrow> nat list \<times> bool \<times> string" where
  "read_groups 0 i s = ([], False, s)"
| "read_groups (Suc k) i s =
     (case (if k > 0 then read_separator CHR '':'' i read_ipv4_addr s else None) of
        Some (v4, r) \<Rightarrow> ([v4 ! 0 * 256 + v4 ! 1, v4 ! 2 * 256 + v4 ! 3], True, r)
      | None \<Rightarrow>
          (case read_separator CHR '':'' i (read_number 16 4 True 65536) s of
             None \<Rightarrow> ([], False, s)
           | Some (g, r) \<Rightarrow>
               (case read_groups k (Suc i) r of (gs, v4, r') \<Rightarrow> (g # gs, v4, r'))))"

definition read_ipv6_addr :: "string \<Rightarrow> (nat list \<times> string) option" where
  "read_ipv6_addr s =
     (case read_groups 8 0 s of
        (head, head_ipv4, r) \<Rightarrow>
          if length head = 8 then Some (head, r)
          else if head_ipv4 then None
          else Option.bind (read_given_char CHR '':'' r) (\<lambda>r1.
               Option.bind (read_given_char CHR '':'' r1) (\<lambda>r2.
                 case read_groups (8 - (length head + 1)) 0 r2 of
                   (tail, _, r3) \<Rightarrow>
                     Some (head @ replicate (8 - length head - length tail) 0 @ tail, r3))))"

definition parse_ipv4 :: "string \<Rightarrow> nat list option" where
  "parse_ipv4 s =
     (if length s > 15 then None
      else (case read_ipv4_addr s of Some (v, []) \<Rightarrow> Some v | _ \<Rightarrow> None))"

definition parse_ipv6 :: "string \<Rightarrow> nat list option" where
  "parse_ipv6 s = (case read_ipv6_addr s of Some (v, []) \<Rightarrow> Some v | _ \<Rightarrow> None)"

text \<open>\<open>u16::from_str\<close> on a string of ASCII digits.\<close>

definition parse_u16_digits :: "string \<Rightarrow> nat option" where
  "parse_u16_digits s =
     (if s \<noteq> [] \<and> digits_value 10 s < 65536 then Some (digits_value 10 s) else None)"

lemmas net_defs = digit_value_def is_digit_of_def digits_value_def read_number_def
  read_given_char_def read_separator_def read_ipv4_addr_def read_ipv6_addr_def parse_ipv4_def
  parse_ipv6_def parse_u16_digits_def

lemmas read_numeral_groups =
  read_ipv4_groups.simps(2) [of "pred_numeral n" for n, folded numeral_eq_Suc]
  read_groups.simps(2) [of "pred_numeral n" for n, folded numeral_eq_Suc]

declare net_defs [eval_defs] read_numeral_groups [eval_defs]

section \<open>What a parser consumes\<close>

definition addr_char :: "char \<Rightarrow> bool" where
  "addr_char c = (is_ascii_hexdigit c \<or> c = CHR '':'' \<or> c = CHR ''.'')"

text \<open>\<open>consumes s r\<close>: what was read of \<open>s\<close> before \<open>r\<close> holds only address characters.\<close>

definition consumes :: "string \<Rightarrow> string \<Rightarrow> bool" where
  "consumes s r = (\<exists>u. s = u @ r \<and> (\<forall>c\<in>set u. addr_char c))"

lemma consumes_refl [simp]: "consumes s s"
  by (simp add: consumes_def)

lemma consumes_trans: "consumes s r \<Longrightarrow> consumes r t \<Longrightarrow> consumes s t"
  by (fastforce simp: consumes_def)

lemma consumes_all: "consumes s [] \<Longrightarrow> \<forall>c\<in>set s. addr_char c"
  by (simp add: consumes_def)

lemma digit_is_addr_char: "radix \<le> 16 \<Longrightarrow> is_digit_of radix c \<Longrightarrow> addr_char c"
  by (auto simp: is_digit_of_def digit_value_def addr_char_def ascii_defs split: if_splits)

lemma read_number_consumes:
  assumes "radix \<le> 16" "read_number radix m z b s = Some (g, r)"
  shows "consumes s r"
proof -
  have r: "r = drop (length (takeWhile (is_digit_of radix) s)) s"
    using assms(2) by (auto simp: read_number_def Let_def split: if_splits)
  have "s = takeWhile (is_digit_of radix) s @ r"
    unfolding r by (metis append_eq_conv_conj takeWhile_dropWhile_id)
  moreover have "\<forall>c\<in>set (takeWhile (is_digit_of radix) s). addr_char c"
    using assms(1) by (auto dest: set_takeWhileD digit_is_addr_char)
  ultimately show ?thesis unfolding consumes_def by blast
qed

lemma read_given_char_consumes:
  "read_given_char c s = Some r \<Longrightarrow> c = CHR '':'' \<or> c = CHR ''.'' \<Longrightarrow> consumes s r"
  by (auto simp: read_given_char_def consumes_def addr_char_def split: list.splits if_splits
      intro: exI [of _ "[c]"])

lemma read_separator_consumes:
  assumes "read_separator sep i inner s = Some (g, r)" "sep = CHR '':'' \<or> sep = CHR ''.''"
    and "\<And>s g r. inner s = Some (g, r) \<Longrightarrow> consumes s r"
  shows "consumes s r"
  using assms
  by (auto simp: read_separator_def bind_eq_Some_conv split: if_splits
      intro: consumes_trans read_given_char_consumes)

lemma read_ipv4_groups_consumes:
  "read_ipv4_groups k i s = Some (gs, r) \<Longrightarrow> consumes s r"
proof (induction k i s arbitrary: gs r rule: read_ipv4_groups.induct)
  case (2 k i s)
  then obtain g t gs' where g: "read_separator CHR ''.'' i (read_number 10 3 False 256) s = Some (g, t)"
    and gs: "read_ipv4_groups k (Suc i) t = Some (gs', r)"
    by (auto split: option.splits prod.splits)
  have "consumes s t" by (rule read_separator_consumes [OF g]) (auto intro: read_number_consumes [of 10])
  moreover have "consumes t r" using 2 g gs by auto
  ultimately show ?case by (rule consumes_trans)
qed simp

lemma read_ipv4_addr_consumes: "read_ipv4_addr s = Some (gs, r) \<Longrightarrow> consumes s r"
  by (simp add: read_ipv4_addr_def read_ipv4_groups_consumes)

lemma read_groups_consumes: "read_groups k i s = (gs, v4, r) \<Longrightarrow> consumes s r"
proof (induction k i s arbitrary: gs v4 r rule: read_groups.induct)
  case (2 k i s)
  show ?case
  proof (cases "if k > 0 then read_separator CHR '':'' i read_ipv4_addr s else None")
    case (Some a)
    then obtain v r' where a: "read_separator CHR '':'' i read_ipv4_addr s = Some (v, r')" "a = (v, r')"
      by (cases a) (auto split: if_splits)
    have "consumes s r'" by (rule read_separator_consumes [OF a(1)]) (auto intro: read_ipv4_addr_consumes)
    then show ?thesis using 2 Some a by auto
  next
    case None
    show ?thesis
    proof (cases "read_separator CHR '':'' i (read_number 16 4 True 65536) s")
      case (Some b)
      then obtain g t where g: "read_separator CHR '':'' i (read_number 16 4 True 65536) s = Some (g, t)"
        by (cases b) auto
      obtain gs' v' r' where rec: "read_groups k (Suc i) t = (gs', v', r')" by (cases "read_groups k (Suc i) t")
      have "consumes s t" by (rule read_separator_consumes [OF g]) (auto intro: read_number_consumes [of 16])
      moreover have "consumes t r'" using "2.IH" None g rec by auto
      moreover have "r = r'" using "2.prems" None g rec by auto
      ultimately show ?thesis using consumes_trans by blast
    qed (use 2 None in auto)
  qed
qed simp

lemma read_ipv6_addr_consumes:
  assumes "read_ipv6_addr s = Some (gs, r)" shows "consumes s r"
proof -
  obtain head v4 t where h: "read_groups 8 0 s = (head, v4, t)" by (cases "read_groups 8 0 s")
  then have s: "consumes s t" by (rule read_groups_consumes)
  show ?thesis
  proof (cases "length head = 8")
    case True
    then show ?thesis using assms h s by (simp add: read_ipv6_addr_def)
  next
    case False
    then obtain t1 t2 where t: "read_given_char CHR '':'' t = Some t1" "read_given_char CHR '':'' t1 = Some t2"
      using assms h by (auto simp: read_ipv6_addr_def bind_eq_Some_conv split: if_splits)
    obtain tl4 v' t3 where tl: "read_groups (8 - (length head + 1)) 0 t2 = (tl4, v', t3)"
      by (cases "read_groups (8 - (length head + 1)) 0 t2")
    have "r = t3" using assms False h t tl by (auto simp: read_ipv6_addr_def split: if_splits)
    then show ?thesis
      using s t read_groups_consumes [OF tl] by (blast intro: consumes_trans read_given_char_consumes)
  qed
qed

lemma parse_ipv6_chars: "parse_ipv6 s = Some v \<Longrightarrow> c \<in> set s \<Longrightarrow> addr_char c"
  using read_ipv6_addr_consumes consumes_all
  by (fastforce simp: parse_ipv6_def split: option.splits prod.splits list.splits)

section \<open>Addresses are read without regard to case\<close>

lemma digit_value_lower [simp]: "digit_value (to_ascii_lowercase c) = digit_value c"
  by (auto simp: digit_value_def to_ascii_lowercase_def ascii_defs)

lemma is_digit_of_lower [simp]: "is_digit_of radix (to_ascii_lowercase c) = is_digit_of radix c"
  by (simp add: is_digit_of_def)

lemma digits_value_lower [simp]: "digits_value radix (str_lower s) = digits_value radix s"
proof -
  have "foldl (\<lambda>acc c. acc * radix + digit_value c) a (map to_ascii_lowercase s)
        = foldl (\<lambda>acc c. acc * radix + digit_value c) a s" for a
    by (induction s arbitrary: a) simp_all
  then show ?thesis by (simp add: digits_value_def str_lower_def)
qed

lemma takeWhile_lower:
  "takeWhile (is_digit_of radix) (str_lower s) = str_lower (takeWhile (is_digit_of radix) s)"
  by (induction s) (simp_all add: str_lower_def)

lemma lower_eq_not_letter:
  "\<not> is_ascii_lower d \<Longrightarrow> \<not> is_ascii_upper d \<Longrightarrow> to_ascii_lowercase c = d \<longleftrightarrow> c = d"
  by (auto simp: to_ascii_lowercase_def ascii_defs)

lemma lower_eq_sep [simp]:
  "to_ascii_lowercase c = CHR ''0'' \<longleftrightarrow> c = CHR ''0''"
  "to_ascii_lowercase c = CHR '':'' \<longleftrightarrow> c = CHR '':''"
  "to_ascii_lowercase c = CHR ''.'' \<longleftrightarrow> c = CHR ''.''"
  by (rule lower_eq_not_letter; simp add: ascii_defs)+

definition lower_rest :: "('a \<times> string) option \<Rightarrow> ('a \<times> string) option" where
  "lower_rest = map_option (\<lambda>(v, r). (v, str_lower r))"

lemma str_lower_drop: "drop n (str_lower s) = str_lower (drop n s)"
  by (simp add: str_lower_def drop_map)

lemma read_number_lower: "read_number radix m z b (str_lower s) = lower_rest (read_number radix m z b s)"
proof (cases s)
  case (Cons c t)
  then have "hd (str_lower s) = CHR ''0'' \<longleftrightarrow> hd s = CHR ''0''" by (simp add: str_lower_def)
  then show ?thesis
    by (simp add: read_number_def Let_def takeWhile_lower lower_rest_def str_lower_drop)
qed (simp add: read_number_def lower_rest_def str_lower_def)

lemma read_given_char_lower:
  "c = CHR '':'' \<or> c = CHR ''.'' \<Longrightarrow>
     read_given_char c (str_lower s) = map_option str_lower (read_given_char c s)"
  by (cases s) (auto simp: read_given_char_def str_lower_def)

lemma read_separator_lower:
  assumes "sep = CHR '':'' \<or> sep = CHR ''.''"
    and "\<And>s. inner (str_lower s) = lower_rest (inner s)"
  shows "read_separator sep i inner (str_lower s) = lower_rest (read_separator sep i inner s)"
  using assms
  by (cases "read_given_char sep s") (auto simp: read_separator_def read_given_char_lower lower_rest_def)

lemma read_ipv4_groups_lower:
  "read_ipv4_groups k i (str_lower s) = lower_rest (read_ipv4_groups k i s)"
proof (induction k i s rule: read_ipv4_groups.induct)
  case (2 k i s)
  have sep: "read_separator CHR ''.'' i (read_number 10 3 False 256) (str_lower s)
      = lower_rest (read_separator CHR ''.'' i (read_number 10 3 False 256) s)"
    by (rule read_separator_lower) (simp_all add: read_number_lower)
  show ?case
  proof (cases "read_separator CHR ''.'' i (read_number 10 3 False 256) s")
    case (Some a)
    then show ?thesis using 2 sep
      by (cases a; cases "read_ipv4_groups k (Suc i) (snd a)") (auto simp: lower_rest_def)
  qed (simp add: sep lower_rest_def)
qed (simp add: lower_rest_def)

lemma read_ipv4_addr_lower: "read_ipv4_addr (str_lower s) = lower_rest (read_ipv4_addr s)"
  by (simp add: read_ipv4_addr_def read_ipv4_groups_lower)

lemma read_groups_lower:
  "read_groups k i (str_lower s) = (case read_groups k i s of (gs, v4, r) \<Rightarrow> (gs, v4, str_lower r))"
proof (induction k i s rule: read_groups.induct)
  case (2 k i s)
  have sep4: "read_separator CHR '':'' i read_ipv4_addr (str_lower s)
      = lower_rest (read_separator CHR '':'' i read_ipv4_addr s)"
    by (rule read_separator_lower) (simp_all add: read_ipv4_addr_lower)
  have sepn: "read_separator CHR '':'' i (read_number 16 4 True 65536) (str_lower s)
      = lower_rest (read_separator CHR '':'' i (read_number 16 4 True 65536) s)"
    by (rule read_separator_lower) (simp_all add: read_number_lower)
  show ?case
  proof (cases "if k > 0 then read_separator CHR '':'' i read_ipv4_addr s else None")
    case (Some a)
    then show ?thesis using sep4 by (cases a) (auto simp: lower_rest_def split: if_splits)
  next
    case None
    then have none: "(if k > 0 then read_separator CHR '':'' i read_ipv4_addr (str_lower s) else None) = None"
      using sep4 by (auto simp: lower_rest_def split: if_splits)
    show ?thesis
    proof (cases "read_separator CHR '':'' i (read_number 16 4 True 65536) s")
      case (Some b)
      then show ?thesis using 2 [OF None Some] none None sepn
        by (cases b; cases "read_groups k (Suc i) (snd b)") (auto simp: lower_rest_def)
    next
      case None2: None
      show ?thesis using none None sepn None2 by (simp add: lower_rest_def)
    qed
  qed
qed simp

lemma read_ipv6_addr_lower: "read_ipv6_addr (str_lower s) = lower_rest (read_ipv6_addr s)"
proof -
  obtain head v4 t where h: "read_groups 8 0 s = (head, v4, t)" by (cases "read_groups 8 0 s")
  show ?thesis
  proof (cases "read_given_char CHR '':'' t")
    case None
    then show ?thesis
      by (simp add: read_ipv6_addr_def read_groups_lower h read_given_char_lower lower_rest_def)
  next
    case (Some t1)
    then show ?thesis
      by (cases "read_given_char CHR '':'' t1")
         (auto simp: read_ipv6_addr_def read_groups_lower h read_given_char_lower lower_rest_def
           split: prod.splits)
  qed
qed

lemma parse_ipv6_lower: "parse_ipv6 (str_lower s) = parse_ipv6 s"
proof (cases "read_ipv6_addr s")
  case (Some a)
  then show ?thesis
    by (cases a; cases "snd a")
       (auto simp: parse_ipv6_def read_ipv6_addr_lower lower_rest_def)
qed (simp add: parse_ipv6_def read_ipv6_addr_lower lower_rest_def)

end
