(* ===== verification/Upstream_Route.thy ===== *)
theory Upstream_Route
  imports Path_Matching Net_Parse
begin

text \<open>
  Upstream route selection and the request host (\<open>gateway/src/upstream_route.rs\<close>), the
  stable route id grammar (\<open>gateway-config/src/upstream_route.rs\<close>) and the request
  bounds (\<open>gateway-config/src/request_bounds.rs\<close>).

  The header map and the target URI are the \<open>http\<close> crate's: a request gives the
  list of its \<open>Host\<close> field values, each \<open>None\<close> where \<open>HeaderValue::to_str\<close> refuses it,
  and the authority of its target, if any.
\<close>

section \<open>Bounds\<close>

definition MAX_REQUEST_METHOD_BYTES :: nat where "MAX_REQUEST_METHOD_BYTES = 64"
definition MAX_REQUEST_PATH_BYTES :: nat where "MAX_REQUEST_PATH_BYTES = 8192"
definition MAX_REQUEST_HOST_BYTES :: nat where "MAX_REQUEST_HOST_BYTES = 4096"
definition MAX_DISPATCH_FACT_BYTES :: nat where "MAX_DISPATCH_FACT_BYTES = 4096"
definition MAX_TOOL_NAME_BYTES :: nat where "MAX_TOOL_NAME_BYTES = 4096"
definition STABLE_ROUTE_ID_MAX_LEN :: nat where "STABLE_ROUTE_ID_MAX_LEN = 64"

lemmas request_bounds = MAX_REQUEST_METHOD_BYTES_def MAX_REQUEST_PATH_BYTES_def
  MAX_REQUEST_HOST_BYTES_def MAX_DISPATCH_FACT_BYTES_def MAX_TOOL_NAME_BYTES_def
  STABLE_ROUTE_ID_MAX_LEN_def

definition is_valid_stable_route_id :: "string \<Rightarrow> bool" where
  "is_valid_stable_route_id s =
     (s \<noteq> [] \<and> length s \<le> STABLE_ROUTE_ID_MAX_LEN
      \<and> list_all (\<lambda>(index, b). is_ascii_alphanumeric b
                    \<or> (index > 0 \<and> b \<in> {CHR ''.'', CHR ''_'', CHR ''-''}))
          (List.enumerate 0 s))"

section \<open>Research operations\<close>

datatype GreenPmResearchOperation = Upload | Export

definition is_lower_uuid :: "string \<Rightarrow> bool" where
  "is_lower_uuid uuid =
     (length uuid = 36
      \<and> list_all (\<lambda>(index, b).
            if index \<in> {8, 13, 18, 23} then b = CHR ''-''
            else is_ascii_digit b \<or> (97 \<le> byte b \<and> byte b \<le> 102))
          (List.enumerate (0::nat) uuid))"

definition greenpm_research_operation ::
    "string \<Rightarrow> string \<Rightarrow> string \<Rightarrow> string option \<Rightarrow> GreenPmResearchOperation option" where
  "greenpm_research_operation route_id m path query =
     (if route_id \<noteq> ''greenpm-owned'' \<or> query \<noteq> None then None
      else (case str_split CHR ''/'' path of
              [a, b, c, resource, uuid, r, action] \<Rightarrow>
                if a \<noteq> [] \<or> b \<noteq> ''api'' \<or> c \<noteq> ''greenpm-owned'' \<or> r \<noteq> ''research'' then None
                else if \<not> is_lower_uuid uuid then None
                else if resource = ''tasks'' \<and> action = ''evidence'' \<and> m = ''POST'' then Some Upload
                else if resource = ''projects'' \<and> action = ''export'' \<and> m = ''GET'' then Some Export
                else None
            | _ \<Rightarrow> None))"

section \<open>Route selection\<close>

record upstream_route =
  ur_path_prefix :: "string option"
  ur_host :: "string option"

definition route_matches ::
    "'a upstream_route_scheme \<Rightarrow> string \<Rightarrow> string option \<Rightarrow> bool" where
  "route_matches route path request_host =
     ((case ur_host route of None \<Rightarrow> True | Some host \<Rightarrow> request_host = Some host)
      \<and> (case ur_path_prefix route of None \<Rightarrow> True | Some pfx \<Rightarrow> path_prefix_matches path pfx))"

definition prefix_len :: "'a upstream_route_scheme \<Rightarrow> nat" where
  "prefix_len route = (case ur_path_prefix route of None \<Rightarrow> 0 | Some pfx \<Rightarrow> length pfx)"

definition host_specific :: "'a upstream_route_scheme \<Rightarrow> bool" where
  "host_specific route = (ur_host route \<noteq> None)"

fun matching_route_loop ::
    "('a upstream_route_scheme \<times> nat \<times> bool) option \<Rightarrow> 'a upstream_route_scheme list \<Rightarrow> string
       \<Rightarrow> string option \<Rightarrow> ('a upstream_route_scheme \<times> nat \<times> bool) option" where
  "matching_route_loop best [] path request_host = best"
| "matching_route_loop best (route # routes) path request_host =
     (if \<not> route_matches route path request_host
      then matching_route_loop best routes path request_host
      else if (case best of
                 Some (_, best_prefix_len, best_host_specific) \<Rightarrow>
                   prefix_len route > best_prefix_len
                   \<or> (prefix_len route = best_prefix_len \<and> host_specific route \<and> \<not> best_host_specific)
               | None \<Rightarrow> True)
      then matching_route_loop (Some (route, prefix_len route, host_specific route)) routes path request_host
      else matching_route_loop best routes path request_host)"

definition matching_route ::
    "'a upstream_route_scheme list \<Rightarrow> string \<Rightarrow> string option \<Rightarrow> 'a upstream_route_scheme option" where
  "matching_route routes path request_host =
     map_option fst (matching_route_loop None routes path request_host)"

section \<open>The request host\<close>

datatype HostHeader = HH_Absent | HH_Present string | HH_Malformed | HH_TooLong

function is_reg_name_at :: "string \<Rightarrow> nat \<Rightarrow> bool" where
  "is_reg_name_at bs index =
     (if index < length bs then
        (if bs ! index = CHR ''%'' then
           (if index + 3 \<le> length bs \<and> list_all is_ascii_hexdigit (take 2 (drop (index + 1) bs))
            then is_reg_name_at bs (index + 3) else False)
         else if \<not> (is_ascii_alphanumeric (bs ! index)
                    \<or> bs ! index \<in> set ([CHR 0x27] @ ''-._~!$&()*+,;='')) then False
         else is_reg_name_at bs (index + 1))
      else True)"
  by pat_completeness auto
termination
  by (relation "measure (\<lambda>(bs, index). length bs - index)") auto

declare is_reg_name_at.simps [simp del]

definition is_reg_name :: "string \<Rightarrow> bool" where
  "is_reg_name host = is_reg_name_at host 0"

definition split_at :: "char \<Rightarrow> string \<Rightarrow> (string \<times> string) option" where
  "split_at c s =
     (if c \<in> set s then Some (takeWhile (\<lambda>d. d \<noteq> c) s, tl (dropWhile (\<lambda>d. d \<noteq> c) s)) else None)"

definition split_host_port :: "string \<Rightarrow> (string \<times> string) option" where
  "split_host_port s =
     (case strip_prefix s ''['' of
        Some rest \<Rightarrow>
          (case split_at CHR '']'' rest of
             None \<Rightarrow> None
           | Some (host, after) \<Rightarrow>
               (case (if after = [] then Some [] else strip_prefix after '':'') of
                  None \<Rightarrow> None
                | Some port \<Rightarrow> if parse_ipv6 host = None then None else Some (host, port)))
      | None \<Rightarrow>
          (case (case split_at CHR '':'' s of None \<Rightarrow> (s, []) | Some hp \<Rightarrow> hp) of
             (host, port) \<Rightarrow> if host = [] \<or> \<not> is_reg_name host then None else Some (host, port)))"

definition parse_host_without_port :: "string \<Rightarrow> string option" where
  "parse_host_without_port s =
     (case split_host_port s of
        None \<Rightarrow> None
      | Some (host, port) \<Rightarrow>
          if port \<noteq> [] \<and> (\<not> list_all is_ascii_digit port \<or> parse_u16_digits port = None) then None
          else Some (str_lower host))"

definition classify_host_value :: "string \<Rightarrow> HostHeader \<times> string" where
  "classify_host_value s =
     (let v = str_trim s in
      if v = [] then (HH_Absent, [])
      else ((case parse_host_without_port v of
               Some host \<Rightarrow> if length host > MAX_REQUEST_HOST_BYTES then HH_TooLong else HH_Present host
             | None \<Rightarrow> HH_Malformed),
            str_lower v))"

definition host_field :: "string option list \<Rightarrow> HostHeader \<times> string" where
  "host_field vs =
     (case vs of
        [] \<Rightarrow> (HH_Absent, [])
      | [Some v] \<Rightarrow> classify_host_value v
      | _ \<Rightarrow> (HH_Malformed, []))"

definition host_header :: "string option \<Rightarrow> string option list \<Rightarrow> HostHeader" where
  "host_header authority host_values =
     (let (from_field, raw_field) = host_field host_values;
          (from_authority, raw_authority) =
            (case authority of Some a \<Rightarrow> classify_host_value a | None \<Rightarrow> (HH_Absent, [])) in
      case (from_field, from_authority) of
        (HH_Malformed, _) \<Rightarrow> HH_Malformed
      | (_, HH_Malformed) \<Rightarrow> HH_Malformed
      | (HH_TooLong, _) \<Rightarrow> HH_TooLong
      | (_, HH_TooLong) \<Rightarrow> HH_TooLong
      | (HH_Present host, HH_Present _) \<Rightarrow>
          if raw_field = raw_authority then HH_Present host else HH_Malformed
      | (HH_Present host, HH_Absent) \<Rightarrow> HH_Present host
      | (HH_Absent, HH_Present host) \<Rightarrow> HH_Present host
      | (HH_Absent, HH_Absent) \<Rightarrow> HH_Absent)"

definition request_host_without_port :: "string option \<Rightarrow> string option list \<Rightarrow> string option" where
  "request_host_without_port authority host_values =
     (case host_header authority host_values of HH_Present host \<Rightarrow> Some host | _ \<Rightarrow> None)"

definition is_bare_host :: "string \<Rightarrow> bool" where
  "is_bare_host host =
     (if host = [] \<or> str_contains host ''/'' then False
      else if str_contains host '':'' then parse_ipv6 host \<noteq> None
      else True)"

lemmas route_defs = is_valid_stable_route_id_def is_lower_uuid_def greenpm_research_operation_def
  route_matches_def prefix_len_def host_specific_def matching_route_def is_reg_name_def split_at_def
  split_host_port_def parse_host_without_port_def classify_host_value_def host_field_def
  host_header_def request_host_without_port_def is_bare_host_def

declare route_defs [eval_defs] request_bounds [eval_defs] is_reg_name_at.simps [eval_defs]

section \<open>The most specific route is selected\<close>

text \<open>\<open>route_rank\<close> orders routes by prefix length, then by host qualification.\<close>

definition route_rank :: "'a upstream_route_scheme \<Rightarrow> nat" where
  "route_rank route = 2 * prefix_len route + (if host_specific route then 1 else 0)"

lemma route_rank_less:
  "route_rank b < route_rank r \<longleftrightarrow>
     prefix_len r > prefix_len b
     \<or> (prefix_len r = prefix_len b \<and> host_specific r \<and> \<not> host_specific b)"
  by (auto simp: route_rank_def)

fun best_route :: "'a upstream_route_scheme option \<Rightarrow> 'a upstream_route_scheme list \<Rightarrow> 'a upstream_route_scheme option" where
  "best_route best [] = best"
| "best_route best (r # rs) =
     (case best of
        None \<Rightarrow> best_route (Some r) rs
      | Some b \<Rightarrow> best_route (if route_rank b < route_rank r then Some r else Some b) rs)"

definition tagged :: "'a upstream_route_scheme \<Rightarrow> 'a upstream_route_scheme \<times> nat \<times> bool" where
  "tagged r = (r, prefix_len r, host_specific r)"

lemma matching_route_loop_best:
  "matching_route_loop (map_option tagged best) routes path host =
     map_option tagged (best_route best (filter (\<lambda>r. route_matches r path host) routes))"
proof (induction routes arbitrary: best)
  case (Cons r routes)
  show ?case
  proof (cases best)
    case None
    then show ?thesis using Cons.IH [of None] Cons.IH [of "Some r"] by (simp add: tagged_def)
  next
    case (Some b)
    then show ?thesis
      using Cons.IH [of "Some b"] Cons.IH [of "Some r"] by (simp add: tagged_def route_rank_less)
  qed
qed simp

lemma matching_route_best:
  "matching_route routes path host = best_route None (filter (\<lambda>r. route_matches r path host) routes)"
  using matching_route_loop_best [of None routes path host]
  by (simp add: matching_route_def option.map_comp comp_def tagged_def option.map_ident)

lemma best_route_from:
  "\<exists>r. best_route (Some b) rs = Some r \<and> r \<in> insert b (set rs) \<and> route_rank b \<le> route_rank r
       \<and> (\<forall>r'\<in>set rs. route_rank r' \<le> route_rank r)
       \<and> (r = b \<or> (\<exists>ys zs. rs = ys @ r # zs \<and> route_rank b < route_rank r
                    \<and> (\<forall>y\<in>set ys. route_rank y < route_rank r)))"
proof (induction rs arbitrary: b)
  case (Cons a rs)
  show ?case
  proof (cases "route_rank b < route_rank a")
    case True
    obtain r where r: "best_route (Some a) rs = Some r" "r \<in> insert a (set rs)"
      "route_rank a \<le> route_rank r" "\<forall>r'\<in>set rs. route_rank r' \<le> route_rank r"
      "r = a \<or> (\<exists>ys zs. rs = ys @ r # zs \<and> route_rank a < route_rank r
                    \<and> (\<forall>y\<in>set ys. route_rank y < route_rank r))"
      using Cons.IH [of a] by blast
    have "\<exists>ys zs. a # rs = ys @ r # zs \<and> route_rank b < route_rank r
                    \<and> (\<forall>y\<in>set ys. route_rank y < route_rank r)"
      using r(5)
    proof
      assume "r = a"
      then show ?thesis using True by (intro exI [of _ "[]"] exI [of _ rs]) simp
    next
      assume "\<exists>ys zs. rs = ys @ r # zs \<and> route_rank a < route_rank r
                    \<and> (\<forall>y\<in>set ys. route_rank y < route_rank r)"
      then obtain ys zs where "rs = ys @ r # zs" "route_rank a < route_rank r"
        "\<forall>y\<in>set ys. route_rank y < route_rank r" by blast
      then show ?thesis using True by (intro exI [of _ "a # ys"] exI [of _ zs]) simp
    qed
    then show ?thesis using True r by auto
  next
    case False
    obtain r where r: "best_route (Some b) rs = Some r" "r \<in> insert b (set rs)"
      "route_rank b \<le> route_rank r" "\<forall>r'\<in>set rs. route_rank r' \<le> route_rank r"
      "r = b \<or> (\<exists>ys zs. rs = ys @ r # zs \<and> route_rank b < route_rank r
                    \<and> (\<forall>y\<in>set ys. route_rank y < route_rank r))"
      using Cons.IH [of b] by blast
    have "r = b \<or> (\<exists>ys zs. a # rs = ys @ r # zs \<and> route_rank b < route_rank r
                    \<and> (\<forall>y\<in>set ys. route_rank y < route_rank r))"
      using r(5)
    proof
      assume "\<exists>ys zs. rs = ys @ r # zs \<and> route_rank b < route_rank r
                    \<and> (\<forall>y\<in>set ys. route_rank y < route_rank r)"
      then obtain ys zs where "rs = ys @ r # zs" "route_rank b < route_rank r"
        "\<forall>y\<in>set ys. route_rank y < route_rank r" by blast
      then show ?thesis using False by (intro disjI2 exI [of _ "a # ys"] exI [of _ zs]) simp
    qed simp
    then show ?thesis using False r by auto
  qed
qed simp

text \<open>
  C29: the proxy's upstream route is the most specific one that matches. No route is
  selected exactly when none matches; a selected route matches, no matching route
  has a longer prefix or the same prefix length and a host the selected one lacks,
  and among equally specific routes it is the first listed.
\<close>

theorem matching_route_most_specific:
  "(matching_route routes path host = None \<longleftrightarrow> (\<forall>r\<in>set routes. \<not> route_matches r path host))
   \<and> (\<forall>r. matching_route routes path host = Some r \<longrightarrow>
        r \<in> set routes \<and> route_matches r path host
        \<and> (\<forall>r'\<in>set routes. route_matches r' path host \<longrightarrow> route_rank r' \<le> route_rank r)
        \<and> (\<exists>ys zs. filter (\<lambda>r. route_matches r path host) routes = ys @ r # zs
             \<and> (\<forall>y\<in>set ys. route_rank y < route_rank r)))"
proof (cases "filter (\<lambda>r. route_matches r path host) routes")
  case Nil
  then show ?thesis by (auto simp: matching_route_best filter_empty_conv)
next
  case (Cons b rs)
  obtain r where r: "best_route (Some b) rs = Some r" "r \<in> insert b (set rs)"
      "route_rank b \<le> route_rank r" "\<forall>r'\<in>set rs. route_rank r' \<le> route_rank r"
      "r = b \<or> (\<exists>ys zs. rs = ys @ r # zs \<and> route_rank b < route_rank r
                    \<and> (\<forall>y\<in>set ys. route_rank y < route_rank r))"
    using best_route_from [of b rs] by blast
  have sel: "matching_route routes path host = Some r" using Cons r(1) by (simp add: matching_route_best)
  have set: "set (filter (\<lambda>r. route_matches r path host) routes) = insert b (set rs)" using Cons by simp
  have "\<exists>ys zs. b # rs = ys @ r # zs \<and> (\<forall>y\<in>set ys. route_rank y < route_rank r)"
    using r(5)
  proof
    assume "\<exists>ys zs. rs = ys @ r # zs \<and> route_rank b < route_rank r
                    \<and> (\<forall>y\<in>set ys. route_rank y < route_rank r)"
    then obtain ys zs where "rs = ys @ r # zs" "route_rank b < route_rank r"
        "\<forall>y\<in>set ys. route_rank y < route_rank r" by blast
    then show ?thesis by (intro exI [of _ "b # ys"] exI [of _ zs]) simp
  qed (auto intro: exI [of _ "[]"])
  moreover have "r \<in> set routes \<and> route_matches r path host"
    and "\<forall>r'\<in>set routes. route_matches r' path host \<longrightarrow> route_rank r' \<le> route_rank r"
    using r(2,3,4) set by auto
  ultimately show ?thesis using sel Cons by auto
qed

theorem matching_route_most_specific_witness:
  "let a = \<lparr>ur_path_prefix = Some ''/api'', ur_host = None\<rparr>;
       b = \<lparr>ur_path_prefix = Some ''/api'', ur_host = Some ''h''\<rparr>
   in matching_route [a, b] ''/api/x'' (Some ''h'') = Some b \<and> route_rank a \<le> route_rank b"
proof -
  define a where "a = \<lparr>ur_path_prefix = Some ''/api'', ur_host = None\<rparr>"
  define b where "b = \<lparr>ur_path_prefix = Some ''/api'', ur_host = Some ''h''\<rparr>"
  have "matching_route [a, b] ''/api/x'' (Some ''h'') = Some b"
    unfolding a_def b_def by (simp add: eval_defs)
  moreover have "route_matches a ''/api/x'' (Some ''h'')"
    unfolding a_def by (simp add: eval_defs)
  ultimately show ?thesis
    using matching_route_most_specific [of "[a, b]" "''/api/x''" "Some ''h''"]
    unfolding Let_def a_def [symmetric] b_def [symmetric] by auto
qed

section \<open>A parsed host is a bare host\<close>

definition no_sep :: "char \<Rightarrow> bool" where
  "no_sep c = (c \<noteq> CHR ''/'' \<and> c \<noteq> CHR '':'')"

lemma is_reg_name_at_chars:
  "is_reg_name_at bs i \<Longrightarrow> i \<le> length bs \<Longrightarrow>
     \<forall>c\<in>set (drop i bs). no_sep c"
proof (induction bs i rule: is_reg_name_at.induct)
  case (1 bs i)
  show ?case
  proof (cases "i < length bs")
    case True
    note step = "1.prems"(1)[unfolded is_reg_name_at.simps [of bs i]]
    show ?thesis
    proof (cases "bs ! i = CHR ''%''")
      case pct: True
      then have n: "i + 3 \<le> length bs" "list_all is_ascii_hexdigit (take 2 (drop (i + 1) bs))"
        and rec: "is_reg_name_at bs (i + 3)"
        using step True by (auto split: if_splits)
      have "drop i bs = bs ! i # take 2 (drop (i + 1) bs) @ drop (i + 3) bs"
        using True by (metis Cons_nth_drop_Suc append_take_drop_id drop_drop add.commute
            Suc_eq_plus1 numeral_3_eq_3 numeral_2_eq_2 add_Suc)
      then have set: "set (drop i bs)
          = insert (bs ! i) (set (take 2 (drop (i + 1) bs)) \<union> set (drop (i + 3) bs))"
        by (metis list.simps(15) set_append)
      have hex: "\<forall>c\<in>set (take 2 (drop (i + 1) bs)). no_sep c"
        using n(2) unfolding list_all_iff by (auto simp: no_sep_def ascii_defs)
      have rest: "\<forall>c\<in>set (drop (i + 3) bs). no_sep c"
        using 1(1) [OF True pct] n rec by auto
      have "no_sep (bs ! i)" using pct by (simp add: no_sep_def)
      with hex rest show ?thesis unfolding set by blast
    next
      case no: False
      then have c: "is_ascii_alphanumeric (bs ! i) \<or> bs ! i \<in> set ([CHR 0x27] @ ''-._~!$&()*+,;='')"
        and rec: "is_reg_name_at bs (i + 1)"
        using step True by (auto split: if_splits)
      have set: "set (drop i bs) = insert (bs ! i) (set (drop (i + 1) bs))"
        using True by (metis Cons_nth_drop_Suc Suc_eq_plus1 list.simps(15))
      have "no_sep (bs ! i)" using c by (auto simp: no_sep_def ascii_defs)
      moreover have "\<forall>c\<in>set (drop (i + 1) bs). no_sep c"
        using 1(2) [OF True no] c rec True by auto
      ultimately show ?thesis unfolding set by blast
    qed
  qed (use 1 in simp)
qed

lemma is_reg_name_chars: "is_reg_name host \<Longrightarrow> CHR ''/'' \<notin> set host \<and> CHR '':'' \<notin> set host"
  using is_reg_name_at_chars [of host 0] by (auto simp: is_reg_name_def no_sep_def)

lemma str_contains_char: "str_contains s [c] \<longleftrightarrow> c \<in> set s"
  by (auto simp: str_contains_iff dest: split_list)

lemma lower_preserves_seps:
  "CHR ''/'' \<in> set (str_lower s) \<longleftrightarrow> CHR ''/'' \<in> set s"
  "CHR '':'' \<in> set (str_lower s) \<longleftrightarrow> CHR '':'' \<in> set s"
proof -
  have *: "d \<in> set (str_lower s) \<longleftrightarrow> d \<in> set s" if "\<not> is_ascii_lower d" "\<not> is_ascii_upper d" for d
    using lower_eq_not_letter [OF that] by (induction s) (auto dest: sym)
  show "CHR ''/'' \<in> set (str_lower s) \<longleftrightarrow> CHR ''/'' \<in> set s"
    by (rule *) (simp_all add: ascii_defs)
  show "CHR '':'' \<in> set (str_lower s) \<longleftrightarrow> CHR '':'' \<in> set s"
    by (rule *) (simp_all add: ascii_defs)
qed

lemma to_ascii_lowercase_idem [simp]:
  "to_ascii_lowercase (to_ascii_lowercase c) = to_ascii_lowercase c"
  by (auto simp: to_ascii_lowercase_def ascii_defs)

lemma str_lower_idem [simp]: "str_lower (str_lower s) = str_lower s"
  by (induction s) auto

lemma parse_ipv6_Nil: "parse_ipv6 [] = None"
  by (simp add: eval_defs)

lemma parsed_host_bare:
  assumes "parse_host_without_port s = Some host"
  shows "is_bare_host host \<and> str_lower host = host"
proof -
  obtain h port where hp: "split_host_port s = Some (h, port)" and host: "host = str_lower h"
    using assms by (auto simp: parse_host_without_port_def split: option.splits if_splits)
  have "(parse_ipv6 h \<noteq> None) \<or> (h \<noteq> [] \<and> is_reg_name h)"
    using hp by (auto simp: split_host_port_def split: option.splits if_splits prod.splits)
  then show ?thesis
  proof
    assume v6: "parse_ipv6 h \<noteq> None"
    then have "h \<noteq> []" using parse_ipv6_Nil by auto
    moreover have "CHR ''/'' \<notin> set h"
      using v6 parse_ipv6_chars [of h _ "CHR ''/''"] by (auto simp: addr_char_def ascii_defs)
    ultimately show ?thesis
      using v6 by (simp add: host is_bare_host_def str_contains_char lower_preserves_seps parse_ipv6_lower)
  next
    assume "h \<noteq> [] \<and> is_reg_name h"
    then show ?thesis
      using is_reg_name_chars [of h]
      by (simp add: host is_bare_host_def str_contains_char lower_preserves_seps)
  qed
qed

lemma classify_host_Present:
  "fst (classify_host_value v) = HH_Present host \<Longrightarrow>
     is_bare_host host \<and> str_lower host = host \<and> length host \<le> MAX_REQUEST_HOST_BYTES"
  by (auto simp: classify_host_value_def Let_def dest: parsed_host_bare split: if_splits option.splits)

text \<open>
  a host that request admission accepts is one the policy kernel accepts. Whatever
  the \<open>Host\<close> field and the target's authority hold, a host classified as present is
  bare (no slash, and a colon only inside a valid IPv6 literal), lower case, and
  within the kernel's bound.
\<close>

theorem host_header_present_is_bare:
  assumes "host_header authority host_values = HH_Present host"
  shows "is_bare_host host \<and> str_lower host = host \<and> length host \<le> MAX_REQUEST_HOST_BYTES"
proof -
  obtain f rf where f: "host_field host_values = (f, rf)" by fastforce
  obtain a ra where a:
    "(case authority of Some a \<Rightarrow> classify_host_value a | None \<Rightarrow> (HH_Absent, [])) = (a, ra)" by fastforce
  have "f = HH_Present host \<or> a = HH_Present host"
    using assms f a by (auto simp: host_header_def split: HostHeader.splits if_splits)
  then consider v where "fst (classify_host_value v) = HH_Present host"
    using f a by (auto simp: host_field_def split: option.splits list.splits) (metis fst_conv)+
  then show ?thesis by cases (rule classify_host_Present)
qed

theorem host_header_present_is_bare_witness:
  "host_header None [Some ''[2001:DB8::1]:8443''] = HH_Present ''2001:db8::1''
   \<and> is_bare_host ''2001:db8::1''"
proof -
  have h: "host_header None [Some ''[2001:DB8::1]:8443''] = HH_Present ''2001:db8::1''"
    by (simp add: eval_defs)
  then show ?thesis using host_header_present_is_bare [OF h] by blast
qed

end
