(* ===== verification/Policy_Kernel.thy ===== *)
theory Policy_Kernel
  imports Fact_Capture Upstream_Route
begin

text \<open>
  The inputs and outputs of the pure policy kernel (\<open>gateway/src/policy_eval/mod.rs\<close> and
  \<open>stages.rs\<close>): the policy document it is compiled from
  (\<open>gateway-config/src/rbac/policy.rs\<close>), the compiled snapshot, the evaluation
  context with its validation and digest binding, and the evaluation it answers.

  \<open>digest_env\<close> stands for the \<open>sha2\<close> and \<open>serde_json\<close> crates: the SHA-256 function and
  \<open>serde_json::to_vec\<close> on a value of the serde data model, and \<open>serde_json::to_string\<close>
  on a scalar, which does not fail. A finite \<open>f64\<close> is a
  rational number.
\<close>

record digest_env =
  de_sha256 :: "string \<Rightarrow> string"
  de_to_vec :: "json \<Rightarrow> string option"
  de_scalar :: "json \<Rightarrow> string"

datatype f64 = Finite rat | Infinite bool | NotANumber

section \<open>The policy document\<close>

datatype DefaultAction = DefaultAllow | DefaultDeny

datatype EnforcementMode = Enforce | EM_Shadow

record RouteRule =
  rr_id :: "string option"
  rr_methods :: "string list"
  rr_hosts :: "string list"
  rr_path_prefix :: string
  rr_permission :: string
  rr_enforcement_mode :: "EnforcementMode option"

record EgressPolicy =
  ep_hosts :: "string list"
  ep_cidrs :: "string list"
  ep_ports :: "nat list"

record RateLimitRule =
  rl_id :: "string option"
  rl_principal :: PrincipalMatcher
  rl_methods :: "string list"
  rl_path :: "string option"
  rl_requests_per_second :: f64
  rl_burst :: nat

record ToolPolicyEntry =
  tp_enabled :: bool
  tp_allowed_roles :: "string list"
  tp_issuers :: "string list"
  tp_auth_methods :: "string list"
  tp_timeout_ms :: nat
  tp_max_concurrent :: nat

record Policy =
  pol_schema_version :: string
  pol_id :: "string option"
  pol_default_action :: DefaultAction
  pol_enforcement_mode :: EnforcementMode
  pol_roles :: "(string \<times> RoleEntry) list"
  pol_identity_mappings :: "IdentityMapping list option"
  pol_routes :: "RouteRule list"
  pol_rules :: "Rule list"
  pol_egress :: EgressPolicy
  pol_rate_limits :: "RateLimitRule list"
  pol_tools :: "(string \<times> ToolPolicyEntry) list"

section \<open>The compiled policy\<close>

datatype PolicyAuthority = Standalone | PostgreSql int

datatype PolicyDigest = DigestSource string | DigestValidatedPolicy string

record ResourceSnapshot =
  rs_digest :: PolicyDigest
  rs_authority :: PolicyAuthority
  rs_context_version :: nat
  rs_semantics_version :: string

record 'net CompiledPolicy =
  cp_policy :: Policy
  cp_matcher :: "'net RuleMatcher"
  cp_snapshot :: ResourceSnapshot
  cp_host_qualified_routes :: bool
  cp_identity :: "IdentityMapping list option"
  cp_fact_needs :: FactNeeds

definition CONTEXT_VERSION :: nat where "CONTEXT_VERSION = 3"
definition HTTP_SEMANTICS_VERSION :: string where "HTTP_SEMANTICS_VERSION = ''gg-http-alias-v1''"

datatype CompileError =
    InputTooLarge | InvalidJson | UnknownField | UnsupportedSchema | InvalidPolicy | InvalidRevision

definition validate_authority :: "PolicyAuthority \<Rightarrow> (CompileError, unit) result" where
  "validate_authority authority =
     (case authority of
        PostgreSql security_revision \<Rightarrow>
          if security_revision < 0 then Inl InvalidRevision else Inr ()
      | Standalone \<Rightarrow> Inr ())"

definition assemble ::
    "'net externals \<Rightarrow> Policy \<Rightarrow> PolicyDigest \<Rightarrow> PolicyAuthority \<Rightarrow> 'net CompiledPolicy" where
  "assemble ext policy digest authority =
     \<lparr>cp_policy = policy,
      cp_matcher = RuleMatcher_new ext (pol_rules policy),
      cp_snapshot = \<lparr>rs_digest = digest, rs_authority = authority,
                     rs_context_version = CONTEXT_VERSION,
                     rs_semantics_version = HTTP_SEMANTICS_VERSION\<rparr>,
      cp_host_qualified_routes = list_ex (\<lambda>route. rr_hosts route \<noteq> []) (pol_routes policy),
      cp_identity = pol_identity_mappings policy,
      cp_fact_needs = FactNeeds_of (pol_rules policy) (pol_identity_mappings policy)\<rparr>"

definition effective_principal ::
    "'net CompiledPolicy \<Rightarrow> Principal \<Rightarrow> PolicyFacts \<Rightarrow> Principal option" where
  "effective_principal cp p facts =
     (case cp_identity cp of
        None \<Rightarrow> Some p
      | Some mappings \<Rightarrow> map_option (\<lambda>rs. p\<lparr>roles := rs\<rparr>) (effective_roles mappings p facts))"

section \<open>Digests\<close>

text \<open>\<open>u64::to_be_bytes\<close>\<close>

definition be_bytes8 :: "nat \<Rightarrow> string" where
  "be_bytes8 n = map (\<lambda>i. char_of (n div 256 ^ i mod 256)) [7, 6, 5, 4, 3, 2, 1, 0]"

definition frame_part :: "string \<Rightarrow> string" where
  "frame_part part = be_bytes8 (length part mod 2 ^ 64) @ part"

definition digest_frame :: "string \<Rightarrow> string \<Rightarrow> string \<Rightarrow> string \<Rightarrow> string" where
  "digest_frame kind media_type ver payload =
     ''GGDIGEST'' @ [CHR 0x00] @ concat (map frame_part [kind, media_type, ver, payload])"

definition framed_digest :: "digest_env \<Rightarrow> string \<Rightarrow> string \<Rightarrow> string \<Rightarrow> string \<Rightarrow> string" where
  "framed_digest de kind media_type ver payload = de_sha256 de (digest_frame kind media_type ver payload)"

text \<open>
  \<open>write_canonical\<close> writes the members of an object in ascending order of their
  names. \<open>to_value\<close> is \<open>serde_json::to_value\<close> on a policy.
\<close>

fun write_canonical :: "digest_env \<Rightarrow> json \<Rightarrow> string" where
  "write_canonical de (JObject members) =
     ''{'' @ str_join CHR '',''
        (map (\<lambda>key. de_scalar de (JString key) @ '':'' @
                (case map_of (map (\<lambda>(k, v). (k, write_canonical de v)) members) key of
                   Some member \<Rightarrow> member | None \<Rightarrow> ''null''))
           (sort (map fst members))) @ ''}''"
| "write_canonical de (JArray items) =
     ''['' @ str_join CHR '','' (map (write_canonical de) items) @ '']''"
| "write_canonical de scalar = de_scalar de scalar"

definition validated_policy_digest :: "digest_env \<Rightarrow> (Policy \<Rightarrow> json) \<Rightarrow> Policy \<Rightarrow> string" where
  "validated_policy_digest de to_value policy =
     framed_digest de ''gg.validated-policy.v1'' ''application/json'' ''0.1.0''
       (write_canonical de (to_value policy))"

definition from_validated_policy ::
    "digest_env \<Rightarrow> (Policy \<Rightarrow> json) \<Rightarrow> 'net externals \<Rightarrow> Policy \<Rightarrow> PolicyAuthority
       \<Rightarrow> (CompileError, 'net CompiledPolicy) result" where
  "from_validated_policy de to_value ext policy authority =
     (case validate_authority authority of
        Inl e \<Rightarrow> Inl e
      | Inr _ \<Rightarrow> Inr (assemble ext policy
                       (DigestValidatedPolicy (validated_policy_digest de to_value policy)) authority))"

section \<open>The evaluation context\<close>

definition PrincipalIdentity_from_principal :: "Principal \<Rightarrow> Principal" where
  "PrincipalIdentity_from_principal p =
     \<lparr>user_id = user_id p, issuer = issuer p, email = None, org_id = None, roles = roles p,
      session_id = [], auth_method = auth_method p, scopes = None, verified_claims = []\<rparr>"

datatype PrincipalFact = PF_Missing | PF_Anonymous | PF_Authenticated Principal

datatype HttpTarget = HT_Missing | HT_Contextless | HT_ProxyDispatch | HT_McpAlias string

datatype HostFact = HF_Missing | HF_Absent | HF_Present string

record DispatchFacts =
  df_route_id :: "string option"
  df_route_host :: "string option"
  df_route_path_prefix :: "string option"
  df_upstream_origin :: string

record PolicyEvaluationContext =
  pc_version :: nat
  pc_snapshot :: ResourceSnapshot
  pc_method :: "string option"
  pc_path :: "string option"
  pc_principal :: PrincipalFact
  pc_target :: HttpTarget
  pc_request_host :: HostFact
  pc_dispatch :: "DispatchFacts option"

datatype EvaluationError =
    UnsupportedContextVersion | SnapshotMismatch | MalformedPath | ContextTooLarge | InvalidPrincipal
  | InvalidHost | InconsistentContext | InternalInvariant | TraceEncoding | TraceTooLarge

definition validate_path :: "string \<Rightarrow> (EvaluationError, unit) result" where
  "validate_path path =
     (if length path > MAX_REQUEST_PATH_BYTES then Inl ContextTooLarge
      else if \<not> starts_with path ''/''
              \<or> list_ex (\<lambda>c. c = CHR ''?'' \<or> c = CHR ''#'') path
              \<or> list_ex (\<lambda>b. byte b \<le> 32 \<or> byte b = 127) path
              \<or> is_unsafe_request_path path
      then Inl MalformedPath
      else Inr ())"

definition validate_request_host :: "HostFact \<Rightarrow> (EvaluationError, unit) result" where
  "validate_request_host host =
     (case host of
        HF_Present h \<Rightarrow>
          if length h > MAX_REQUEST_HOST_BYTES then Inl ContextTooLarge
          else if \<not> is_bare_host h then Inl InvalidHost
          else Inr ()
      | _ \<Rightarrow> Inr ())"

definition validate_dispatch ::
    "HttpTarget \<Rightarrow> DispatchFacts option \<Rightarrow> (EvaluationError, unit) result" where
  "validate_dispatch target dispatch =
     (case dispatch of
        None \<Rightarrow> Inr ()
      | Some facts \<Rightarrow>
          if target \<noteq> HT_ProxyDispatch then Inl InconsistentContext
          else if list_ex (\<lambda>v. length v > MAX_DISPATCH_FACT_BYTES)
                    (List.map_filter id [df_route_id facts, df_route_host facts,
                       df_route_path_prefix facts, Some (df_upstream_origin facts)])
          then Inl ContextTooLarge
          else if df_upstream_origin facts = [] then Inl InconsistentContext
          else if (case df_route_host facts of None \<Rightarrow> False | Some host \<Rightarrow> \<not> is_bare_host host)
          then Inl InvalidHost
          else Inr ())"

definition validate_principal_fact :: "PrincipalFact \<Rightarrow> (EvaluationError, unit) result" where
  "validate_principal_fact pf =
     (case pf of
        PF_Authenticated p \<Rightarrow>
          (case check_shape p of
             Inl problem \<Rightarrow>
               Inl (if PrincipalShapeError_is_size problem then ContextTooLarge else InvalidPrincipal)
           | Inr _ \<Rightarrow> Inr ())
      | _ \<Rightarrow> Inr ())"

text \<open>Sequencing of fallible steps: the \<open>?\<close> operator.\<close>

definition and_try :: "('e, unit) result \<Rightarrow> ('e, 'a) result \<Rightarrow> ('e, 'a) result" where
  "and_try r next = (case r of Inl e \<Rightarrow> Inl e | Inr _ \<Rightarrow> next)"

definition context_validate ::
    "PolicyEvaluationContext \<Rightarrow> ResourceSnapshot \<Rightarrow> (EvaluationError, unit) result" where
  "context_validate ctx expected =
     (if pc_version ctx \<noteq> CONTEXT_VERSION then Inl UnsupportedContextVersion
      else if pc_snapshot ctx \<noteq> expected then Inl SnapshotMismatch
      else and_try (case pc_path ctx of None \<Rightarrow> Inr () | Some path \<Rightarrow> validate_path path)
          (and_try (case pc_target ctx of HT_McpAlias canonical \<Rightarrow> validate_path canonical | _ \<Rightarrow> Inr ())
          (and_try (if (case pc_method ctx of None \<Rightarrow> False | Some m \<Rightarrow> length m > MAX_REQUEST_METHOD_BYTES)
                    then Inl ContextTooLarge else Inr ())
          (and_try (validate_principal_fact (pc_principal ctx))
          (and_try (validate_request_host (pc_request_host ctx))
                   (validate_dispatch (pc_target ctx) (pc_dispatch ctx)))))))"

datatype FactsUse = FU_Uncaptured | FU_Captured

definition FactsUse_of :: "PolicyFacts \<Rightarrow> FactsUse" where
  "FactsUse_of facts = (if any_captured facts then FU_Captured else FU_Uncaptured)"

record InputBinding =
  ib_snapshot :: ResourceSnapshot
  ib_context_digest :: string
  ib_facts :: FactsUse

fun binding_method :: "AuthMethod \<Rightarrow> string" where
  "binding_method Cookie = ''cookie''"
| "binding_method Bearer = ''bearer''"
| "binding_method ServiceToken = ''service_token''"
| "binding_method ClientCertificate = ''client_certificate''"

function dec_of_nat :: "nat \<Rightarrow> string" where
  "dec_of_nat n = (if n < 10 then [char_of (48 + n)] else dec_of_nat (n div 10) @ [char_of (48 + n mod 10)])"
  by pat_completeness auto
termination
  by (relation "measure id") auto

declare dec_of_nat.simps [simp del]

definition json_opt :: "string option \<Rightarrow> json" where
  "json_opt v = (case v of None \<Rightarrow> JNull | Some s \<Rightarrow> JString s)"

text \<open>The serde data model of the tuple \<open>binding\<close> serializes.\<close>

definition target_json :: "HttpTarget \<Rightarrow> json" where
  "target_json target =
     (case target of
        HT_Missing \<Rightarrow> JString ''missing''
      | HT_Contextless \<Rightarrow> JString ''contextless''
      | HT_ProxyDispatch \<Rightarrow> JString ''proxy_dispatch''
      | HT_McpAlias canonical \<Rightarrow>
          JObject [(''mcp_alias'', JObject [(''canonical_path'', JString canonical)])])"

definition principal_json :: "PrincipalFact \<Rightarrow> json" where
  "principal_json pf =
     (case pf of
        PF_Missing \<Rightarrow> JArray [JString ''missing'', JNull]
      | PF_Anonymous \<Rightarrow> JArray [JString ''anonymous'', JNull]
      | PF_Authenticated p \<Rightarrow>
          JArray [JString ''authenticated'',
                  JArray [JString (user_id p), json_opt (issuer p), JArray (map JString (roles p)),
                          JString (binding_method (auth_method p))]])"

definition host_json :: "HostFact \<Rightarrow> json" where
  "host_json host =
     (case host of
        HF_Missing \<Rightarrow> JArray [JString ''missing'', JNull]
      | HF_Absent \<Rightarrow> JArray [JString ''absent'', JNull]
      | HF_Present h \<Rightarrow> JArray [JString ''present'', JString h])"

definition dispatch_json :: "DispatchFacts option \<Rightarrow> json" where
  "dispatch_json dispatch =
     (case dispatch of
        None \<Rightarrow> JNull
      | Some facts \<Rightarrow>
          JArray [json_opt (df_route_id facts), json_opt (df_route_host facts),
                  json_opt (df_route_path_prefix facts), JString (df_upstream_origin facts)])"

definition context_json :: "PolicyEvaluationContext \<Rightarrow> json" where
  "context_json ctx =
     JArray [JNumber (dec_of_nat (pc_version ctx)), target_json (pc_target ctx), json_opt (pc_method ctx),
             json_opt (pc_path ctx), principal_json (pc_principal ctx), host_json (pc_request_host ctx),
             dispatch_json (pc_dispatch ctx)]"

definition context_binding ::
    "digest_env \<Rightarrow> PolicyEvaluationContext \<Rightarrow> (EvaluationError, InputBinding) result" where
  "context_binding de ctx =
     (case de_to_vec de (context_json ctx) of
        None \<Rightarrow> Inl TraceEncoding
      | Some bytes \<Rightarrow>
          Inr \<lparr>ib_snapshot = pc_snapshot ctx,
               ib_context_digest =
                 framed_digest de ''context'' ''application/json'' (dec_of_nat CONTEXT_VERSION) bytes,
               ib_facts = FU_Uncaptured\<rparr>)"

definition with_facts :: "InputBinding \<Rightarrow> PolicyFacts \<Rightarrow> InputBinding" where
  "with_facts b facts = b\<lparr>ib_facts := FactsUse_of facts\<rparr>"

section \<open>Bounds on captured facts\<close>

definition MAX_TOOL_ARGUMENT_POINTER_TOKENS :: nat where "MAX_TOOL_ARGUMENT_POINTER_TOKENS = 8"

text \<open>
  \<open>arguments_within_bounds\<close> counts scalars into its third argument and returns the
  count beside the answer; \<open>members.iter().all\<close> stops at the first member out of bounds.
\<close>

fun arguments_within_bounds :: "json \<Rightarrow> nat \<Rightarrow> nat \<Rightarrow> bool \<times> nat"
  and members_within_bounds :: "(string \<times> json) list \<Rightarrow> nat \<Rightarrow> nat \<Rightarrow> bool \<times> nat" where
  "arguments_within_bounds (JObject members) depth scalars =
     (if depth < MAX_TOOL_ARGUMENT_POINTER_TOKENS then members_within_bounds members depth scalars
      else (False, scalars))"
| "arguments_within_bounds (JArray _) depth scalars = (False, scalars)"
| "arguments_within_bounds (JString text) depth scalars =
     (length text \<le> MAX_FACT_VALUE_BYTES \<and> scalars + 1 \<le> MAX_FACT_ENTRIES, scalars + 1)"
| "arguments_within_bounds JNull depth scalars = (scalars + 1 \<le> MAX_FACT_ENTRIES, scalars + 1)"
| "arguments_within_bounds (JBool _) depth scalars = (scalars + 1 \<le> MAX_FACT_ENTRIES, scalars + 1)"
| "arguments_within_bounds (JNumber _) depth scalars = (scalars + 1 \<le> MAX_FACT_ENTRIES, scalars + 1)"
| "members_within_bounds [] depth scalars = (True, scalars)"
| "members_within_bounds ((name, member) # members) depth scalars =
     (if length name \<le> MAX_FACT_NAME_BYTES then
        (case arguments_within_bounds member (depth + 1) scalars of
           (True, scalars') \<Rightarrow> members_within_bounds members depth scalars'
         | (False, scalars') \<Rightarrow> (False, scalars'))
      else (False, scalars))"

definition is_json_scalar :: "json \<Rightarrow> bool" where
  "is_json_scalar v = (case v of JString _ \<Rightarrow> True | JBool _ \<Rightarrow> True | JNumber _ \<Rightarrow> True | _ \<Rightarrow> False)"

definition validate_entries :: "(string \<times> string) list Fact \<Rightarrow> (EvaluationError, unit) result" where
  "validate_entries pf =
     (case pf of
        Captured entries \<Rightarrow>
          if length entries > MAX_FACT_ENTRIES
             \<or> list_ex (\<lambda>(name, v). length name > MAX_FACT_NAME_BYTES \<or> length v > MAX_FACT_VALUE_BYTES)
                 entries
          then Inl ContextTooLarge else Inr ()
      | Uncaptured \<Rightarrow> Inr ())"

definition validate_claims :: "VerifiedClaim list Fact \<Rightarrow> (EvaluationError, unit) result" where
  "validate_claims pf =
     (case pf of
        Captured claims \<Rightarrow>
          if length claims > MAX_VERIFIED_CLAIMS
             \<or> list_ex (\<lambda>claim. length (claim_name claim) > MAX_VERIFIED_CLAIM_NAME_BYTES
                          \<or> length (claim_values claim) > MAX_VERIFIED_CLAIM_VALUES
                          \<or> list_ex (\<lambda>v. case json_as_str v of
                                            None \<Rightarrow> False
                                          | Some text \<Rightarrow> length text > MAX_VERIFIED_CLAIM_VALUE_BYTES)
                              (claim_values claim)) claims
          then Inl ContextTooLarge
          else if list_ex (\<lambda>claim. list_ex (\<lambda>v. \<not> is_json_scalar v) (claim_values claim)) claims
          then Inl InvalidPrincipal
          else Inr ()
      | Uncaptured \<Rightarrow> Inr ())"

definition validate_facts :: "PolicyFacts \<Rightarrow> (EvaluationError, unit) result" where
  "validate_facts facts =
     and_try (case pf_organization facts of
                Captured (Some organization) \<Rightarrow>
                  if length organization > MAX_FACT_VALUE_BYTES then Inl ContextTooLarge else Inr ()
              | _ \<Rightarrow> Inr ())
    (and_try (case pf_scopes facts of
                Captured granted \<Rightarrow>
                  if length granted > MAX_PRINCIPAL_SCOPES
                     \<or> list_ex (\<lambda>scope. length scope > MAX_PRINCIPAL_SCOPE_BYTES) granted
                  then Inl ContextTooLarge else Inr ()
              | Uncaptured \<Rightarrow> Inr ())
    (and_try (validate_claims (pf_claims facts))
    (and_try (validate_entries (pf_headers facts))
    (and_try (validate_entries (pf_query facts))
             (case pf_tool_arguments facts of
                Captured arguments \<Rightarrow>
                  if \<not> fst (arguments_within_bounds arguments 0 0) then Inl ContextTooLarge else Inr ()
              | Uncaptured \<Rightarrow> Inr ())))))"

section \<open>Stages and evaluations\<close>

datatype Limitation =
    MissingMethod | MissingPath | MissingPrincipalFact | MissingDispatchFact | MissingHostFact
  | MissingMatcherFact

datatype HostUse = HU_SelectedUpstream | HU_Request | HU_Absent | HU_NotRequired | HU_Missing

record DirectMatch =
  dm_rule :: nat
  dm_action :: RuleAction

datatype UpstreamBinding = UB_NotSelected | UB_DenyOnly "nat option"

datatype PermissionCheck = PC_Granted | PC_Missing | PC_NoPrincipal

record RouteMatch =
  rm_route :: nat
  rm_permission :: PermissionCheck
  rm_mode :: EnforcementMode
  rm_mode_inherited :: bool

record DefaultMatch =
  dfm_allow :: bool
  dfm_mode :: EnforcementMode

datatype HttpStage =
    HS_Facts "Limitation option"
  | HS_RequestHost HostUse
  | HS_DirectRules "DirectMatch option"
  | HS_UpstreamBinding UpstreamBinding
  | HS_Routes "RouteMatch option"
  | HS_HostPolicyRequired
  | HS_Default DefaultMatch

datatype LogicalDecision = LD_Allow | LD_Deny | LD_Indeterminate

datatype PolicyEffect = PE_Allow | PE_Block | PE_Observe

datatype RuleReference = RR_Direct nat | RR_Route nat

datatype Reason =
    MatchedRule | MissingPermission | MissingPrincipal | R_DefaultAllow | R_DefaultDeny
  | HostPolicyRequired | Incomplete

record Evaluation =
  ev_binding :: InputBinding
  ev_logical :: LogicalDecision
  ev_effect :: PolicyEffect
  ev_reason :: Reason
  ev_matched :: "RuleReference option"
  ev_observation :: "RuleReference option"
  ev_complete :: bool
  ev_limitation :: "Limitation option"

definition Evaluation_complete ::
    "InputBinding \<Rightarrow> LogicalDecision \<Rightarrow> PolicyEffect \<Rightarrow> Reason \<Rightarrow> RuleReference option
       \<Rightarrow> RuleReference option \<Rightarrow> Evaluation" where
  "Evaluation_complete binding logical eff reason matched observation =
     \<lparr>ev_binding = binding, ev_logical = logical, ev_effect = eff, ev_reason = reason,
      ev_matched = matched, ev_observation = observation, ev_complete = True, ev_limitation = None\<rparr>"

definition Evaluation_indeterminate :: "InputBinding \<Rightarrow> Limitation \<Rightarrow> Evaluation" where
  "Evaluation_indeterminate binding limitation =
     \<lparr>ev_binding = binding, ev_logical = LD_Indeterminate, ev_effect = PE_Block, ev_reason = Incomplete,
      ev_matched = None, ev_observation = None, ev_complete = False, ev_limitation = Some limitation\<rparr>"

definition Evaluation_reusable_for ::
    "digest_env \<Rightarrow> Evaluation \<Rightarrow> PolicyEvaluationContext \<Rightarrow> bool" where
  "Evaluation_reusable_for de ev ctx =
     (ev_complete ev
      \<and> context_validate ctx (ib_snapshot (ev_binding ev)) = Inr ()
      \<and> (case context_binding de ctx of Inl _ \<Rightarrow> False | Inr b \<Rightarrow> b = ev_binding ev))"

definition effect :: "bool \<Rightarrow> EnforcementMode \<Rightarrow> PolicyEffect" where
  "effect allowed mode =
     (if allowed then PE_Allow else if mode = EM_Shadow then PE_Observe else PE_Block)"

definition route_host_matches :: "string list \<Rightarrow> string option \<Rightarrow> bool \<Rightarrow> bool" where
  "route_host_matches hosts request_host binding_required =
     (if hosts = [] then \<not> binding_required
      else (case request_host of
              None \<Rightarrow> False
            | Some rh \<Rightarrow> list_ex (\<lambda>host. eq_ignore_ascii_case host rh) hosts))"

lemmas kernel_defs = CONTEXT_VERSION_def HTTP_SEMANTICS_VERSION_def validate_authority_def assemble_def
  validated_policy_digest_def from_validated_policy_def effective_principal_def be_bytes8_def frame_part_def digest_frame_def
  framed_digest_def PrincipalIdentity_from_principal_def validate_path_def validate_request_host_def
  validate_dispatch_def validate_principal_fact_def and_try_def context_validate_def FactsUse_of_def
  json_opt_def target_json_def principal_json_def host_json_def dispatch_json_def context_json_def
  context_binding_def with_facts_def MAX_TOOL_ARGUMENT_POINTER_TOKENS_def is_json_scalar_def
  validate_entries_def validate_claims_def validate_facts_def Evaluation_complete_def
  Evaluation_indeterminate_def Evaluation_reusable_for_def effect_def route_host_matches_def

declare kernel_defs [eval_defs] dec_of_nat.simps [eval_defs] any_captured_def [eval_defs]

end
