(* ===== verification/Policy_Eval.thy ===== *)
theory Policy_Eval
  imports Policy_Kernel
begin

text \<open>
  The HTTP decision and the rate-lane selection of the policy kernel
  (\<open>gateway/src/policy_eval/mod.rs\<close>). \<open>decide\<close> is cut at its returns: the facts it
  needs, the host the routes are matched against, the direct rules, the routes,
  and the default. Every part reports its stages to a sink, given by its
  \<open>record\<close> function \<open>push\<close> and threaded as the state \<open>k\<close>; \<open>NoStages\<close> and \<open>Vec\<close> are the
  two sinks of the source.
\<close>

section \<open>Sinks\<close>

definition NoStages_record :: "unit \<Rightarrow> 's \<Rightarrow> unit" where
  "NoStages_record k stage = ()"

definition Vec_record :: "'s list \<Rightarrow> 's \<Rightarrow> 's list" where
  "Vec_record k stage = k @ [stage]"

section \<open>Principals, direct rules and routes\<close>

definition judged_principal ::
    "'net CompiledPolicy \<Rightarrow> PrincipalFact \<Rightarrow> PolicyFacts \<Rightarrow> (Limitation, Principal option) result" where
  "judged_principal cp pf facts =
     (case pf of
        PF_Missing \<Rightarrow> Inl MissingPrincipalFact
      | PF_Anonymous \<Rightarrow> Inr None
      | PF_Authenticated identity \<Rightarrow>
          (case effective_principal cp identity facts of
             Some p \<Rightarrow> Inr (Some p)
           | None \<Rightarrow> Inl MissingMatcherFact))"

definition management_principal :: "'net CompiledPolicy \<Rightarrow> Principal \<Rightarrow> Principal" where
  "management_principal cp p =
     (if cp_identity cp = None then p
      else let facts = serving_facts (cp_fact_needs cp) (Some p) in
           case (case validate_facts facts of Inl _ \<Rightarrow> None | Inr _ \<Rightarrow> effective_principal cp p facts) of
             Some mapped \<Rightarrow> mapped
           | None \<Rightarrow> p\<lparr>roles := []\<rparr>)"

definition match_direct ::
    "'net externals \<Rightarrow> 'net CompiledPolicy \<Rightarrow> string \<Rightarrow> string \<Rightarrow> string option \<Rightarrow> Principal option
       \<Rightarrow> RuleDispatchContext \<Rightarrow> bool \<Rightarrow> PolicyFacts \<Rightarrow> RuleScan" where
  "match_direct ext cp m path canonical_path caller ctx denies_only facts =
     (case canonical_path of
        Some canonical \<Rightarrow>
          scan_equivalent_paths_with_dispatch ext (cp_matcher cp) m [canonical, path] caller ctx
            denies_only facts
      | None \<Rightarrow>
          if denies_only then scan_denies_with_dispatch ext (cp_matcher cp) m path caller ctx facts
          else scan_with_dispatch ext (cp_matcher cp) m path caller ctx facts)"

definition route_admissible :: "string \<Rightarrow> string option \<Rightarrow> bool \<Rightarrow> RouteRule \<Rightarrow> bool" where
  "route_admissible m host host_binding_required route =
     (method_matches (rr_methods route) m
      \<and> route_host_matches (rr_hosts route) host host_binding_required)"

definition match_route ::
    "'net CompiledPolicy \<Rightarrow> string \<Rightarrow> string \<Rightarrow> string option \<Rightarrow> string option \<Rightarrow> bool
       \<Rightarrow> (nat \<times> RouteRule) option" where
  "match_route cp m path canonical_path host host_binding_required =
     (let routes = List.enumerate 0 (pol_routes (cp_policy cp));
          admissible = route_admissible m host host_binding_required in
      case canonical_path of
        Some canonical \<Rightarrow>
          (case find (\<lambda>(_, route). rr_path_prefix route = path \<and> admissible route) routes of
             Some found \<Rightarrow> Some found
           | None \<Rightarrow>
               find (\<lambda>(_, route). path_prefix_matches canonical (rr_path_prefix route) \<and> admissible route)
                 routes)
      | None \<Rightarrow>
          find (\<lambda>(_, route). path_prefix_matches path (rr_path_prefix route) \<and> admissible route) routes)"

section \<open>The HTTP decision\<close>

definition missing_http_fact :: "PolicyEvaluationContext \<Rightarrow> Limitation option" where
  "missing_http_fact ctx =
     (if pc_method ctx = None then Some MissingMethod
      else if pc_path ctx = None then Some MissingPath
      else if pc_principal ctx = PF_Missing then Some MissingPrincipalFact
      else (case pc_target ctx of
              HT_Missing \<Rightarrow> Some MissingDispatchFact
            | HT_Contextless \<Rightarrow> None
            | HT_McpAlias _ \<Rightarrow> None
            | HT_ProxyDispatch \<Rightarrow> if pc_dispatch ctx = None then Some MissingDispatchFact else None))"

definition required_host :: "PolicyEvaluationContext \<Rightarrow> string option" where
  "required_host ctx = Option.bind (pc_dispatch ctx) df_route_host"

definition effective_host :: "'net CompiledPolicy \<Rightarrow> PolicyEvaluationContext \<Rightarrow> HostUse \<times> string option" where
  "effective_host cp ctx =
     (case (required_host ctx, pc_request_host ctx) of
        (Some host, _) \<Rightarrow> (HU_SelectedUpstream, Some host)
      | (None, HF_Present host) \<Rightarrow> (HU_Request, Some host)
      | (None, HF_Absent) \<Rightarrow> (HU_Absent, None)
      | (None, HF_Missing) \<Rightarrow>
          if cp_host_qualified_routes cp then (HU_Missing, None) else (HU_NotRequired, None))"

definition dispatch_context_of :: "PolicyEvaluationContext \<Rightarrow> RuleDispatchContext option" where
  "dispatch_context_of ctx =
     (case (pc_target ctx, pc_dispatch ctx) of
        (HT_Contextless, _) \<Rightarrow> Some dispatch_contextless
      | (HT_McpAlias _, _) \<Rightarrow> Some dispatch_contextless
      | (HT_ProxyDispatch, Some facts) \<Rightarrow>
          Some (classified_with_route_id (df_route_id facts) (df_route_host facts)
                  (df_route_path_prefix facts) (Some (df_upstream_origin facts)))
      | _ \<Rightarrow> None)"

definition canonical_path_of :: "PolicyEvaluationContext \<Rightarrow> string option" where
  "canonical_path_of ctx =
     (case pc_target ctx of HT_McpAlias canonical \<Rightarrow> Some canonical | _ \<Rightarrow> None)"

definition decide_default ::
    "('k \<Rightarrow> HttpStage \<Rightarrow> 'k) \<Rightarrow> 'net CompiledPolicy \<Rightarrow> InputBinding \<Rightarrow> RuleReference option \<Rightarrow> bool \<Rightarrow> 'k
       \<Rightarrow> (EvaluationError, Evaluation) result \<times> 'k" where
  "decide_default push cp binding observation host_binding_required k =
     (let k = push k (HS_Routes None) in
      if host_binding_required then
        (Inr (Evaluation_complete binding LD_Deny PE_Block HostPolicyRequired None observation),
         push k HS_HostPolicyRequired)
      else
        let policy = cp_policy cp;
            allowed = (pol_default_action policy = DefaultAllow)
        in (Inr (Evaluation_complete binding (if allowed then LD_Allow else LD_Deny)
                   (effect allowed (pol_enforcement_mode policy))
                   (if allowed then R_DefaultAllow else R_DefaultDeny) None observation),
            push k (HS_Default \<lparr>dfm_allow = allowed, dfm_mode = pol_enforcement_mode policy\<rparr>)))"

definition decide_route ::
    "('k \<Rightarrow> HttpStage \<Rightarrow> 'k) \<Rightarrow> 'net CompiledPolicy \<Rightarrow> InputBinding \<Rightarrow> Principal option
       \<Rightarrow> RuleReference option \<Rightarrow> nat \<Rightarrow> RouteRule \<Rightarrow> 'k \<Rightarrow> (EvaluationError, Evaluation) result \<times> 'k" where
  "decide_route push cp binding caller observation index route k =
     (let policy = cp_policy cp;
          allowed = (case caller of
                       None \<Rightarrow> False
                     | Some p \<Rightarrow> principal_has_permission (map_of (pol_roles policy)) p (rr_permission route));
          reason = (if allowed then MatchedRule
                    else if caller \<noteq> None then MissingPermission else MissingPrincipal);
          mode = (case rr_enforcement_mode route of None \<Rightarrow> pol_enforcement_mode policy | Some md \<Rightarrow> md)
      in (Inr (Evaluation_complete binding (if allowed then LD_Allow else LD_Deny) (effect allowed mode)
                 reason (Some (RR_Route index)) observation),
          push k (HS_Routes (Some \<lparr>rm_route = index,
             rm_permission = (if allowed then PC_Granted
                              else if caller \<noteq> None then PC_Missing else PC_NoPrincipal),
             rm_mode = mode, rm_mode_inherited = (rr_enforcement_mode route = None)\<rparr>))))"

definition direct_evaluation ::
    "InputBinding \<Rightarrow> RuleReference option \<Rightarrow> RuleDecision \<Rightarrow> Evaluation" where
  "direct_evaluation binding observation decision =
     (case rd_action decision of
        Allow \<Rightarrow> Evaluation_complete binding LD_Allow PE_Allow MatchedRule
                   (Some (RR_Direct (rd_rule_index decision))) observation
      | Deny \<Rightarrow> Evaluation_complete binding LD_Deny PE_Block MatchedRule
                   (Some (RR_Direct (rd_rule_index decision))) observation
      | Shadow \<Rightarrow> Evaluation_complete binding LD_Deny PE_Observe MatchedRule
                   (Some (RR_Direct (rd_rule_index decision))) observation)"

definition decide_undecided ::
    "('k \<Rightarrow> HttpStage \<Rightarrow> 'k) \<Rightarrow> 'net CompiledPolicy \<Rightarrow> InputBinding \<Rightarrow> string \<Rightarrow> string
       \<Rightarrow> string option \<Rightarrow> Principal option \<Rightarrow> bool \<Rightarrow> string option \<Rightarrow> RuleReference option \<Rightarrow> 'k
       \<Rightarrow> (EvaluationError, Evaluation) result \<times> 'k" where
  "decide_undecided push cp binding m path canonical caller host_binding_required host observation k =
     (case match_route cp m path canonical host host_binding_required of
        Some (index, route) \<Rightarrow> decide_route push cp binding caller observation index route k
      | None \<Rightarrow> decide_default push cp binding observation host_binding_required k)"

definition decide_direct ::
    "('k \<Rightarrow> HttpStage \<Rightarrow> 'k) \<Rightarrow> 'net externals \<Rightarrow> 'net CompiledPolicy \<Rightarrow> InputBinding \<Rightarrow> string \<Rightarrow> string
       \<Rightarrow> string option \<Rightarrow> Principal option \<Rightarrow> RuleDispatchContext \<Rightarrow> bool \<Rightarrow> string option \<Rightarrow> PolicyFacts
       \<Rightarrow> RuleDecision option \<Rightarrow> 'k \<Rightarrow> (EvaluationError, Evaluation) result \<times> 'k" where
  "decide_direct push ext cp binding m path canonical caller dctx host_binding_required host facts
       first_direct k =
     (let k = push k (HS_DirectRules (map_option (\<lambda>d. \<lparr>dm_rule = rd_rule_index d,
                                                       dm_action = rd_action d\<rparr>) first_direct));
          observation = (case first_direct of
                           None \<Rightarrow> None
                         | Some d \<Rightarrow> if host_binding_required \<and> rd_action d = Shadow
                                     then Some (RR_Direct (rd_rule_index d)) else None);
          undecided = decide_undecided push cp binding m path canonical caller host_binding_required host
                        observation
      in if host_binding_required then
           (case match_direct ext cp m path canonical caller dctx True facts of
              Undetermined _ \<Rightarrow> (Inr (Evaluation_indeterminate binding MissingMatcherFact), k)
            | Matched deny \<Rightarrow>
                (Inr (direct_evaluation binding observation deny),
                 push k (HS_UpstreamBinding (UB_DenyOnly (Some (rd_rule_index deny)))))
            | NoMatch \<Rightarrow> undecided (push k (HS_UpstreamBinding (UB_DenyOnly None))))
         else
           let k = push k (HS_UpstreamBinding UB_NotSelected) in
           (case first_direct of
              Some decision \<Rightarrow> (Inr (direct_evaluation binding observation decision), k)
            | None \<Rightarrow> undecided k))"

definition decide_rules ::
    "('k \<Rightarrow> HttpStage \<Rightarrow> 'k) \<Rightarrow> 'net externals \<Rightarrow> 'net CompiledPolicy \<Rightarrow> InputBinding \<Rightarrow> string \<Rightarrow> string
       \<Rightarrow> string option \<Rightarrow> Principal option \<Rightarrow> RuleDispatchContext \<Rightarrow> bool \<Rightarrow> string option \<Rightarrow> PolicyFacts \<Rightarrow> 'k
       \<Rightarrow> (EvaluationError, Evaluation) result \<times> 'k" where
  "decide_rules push ext cp binding m path canonical caller dctx host_binding_required host facts k =
     (case match_direct ext cp m path canonical caller dctx False facts of
        Undetermined _ \<Rightarrow> (Inr (Evaluation_indeterminate binding MissingMatcherFact), k)
      | Matched decision \<Rightarrow>
          decide_direct push ext cp binding m path canonical caller dctx host_binding_required host facts
            (Some decision) k
      | NoMatch \<Rightarrow>
          decide_direct push ext cp binding m path canonical caller dctx host_binding_required host facts
            None k)"

definition decide_known ::
    "('k \<Rightarrow> HttpStage \<Rightarrow> 'k) \<Rightarrow> 'net externals \<Rightarrow> 'net CompiledPolicy \<Rightarrow> InputBinding
       \<Rightarrow> PolicyEvaluationContext \<Rightarrow> string \<Rightarrow> string \<Rightarrow> Principal option \<Rightarrow> PolicyFacts \<Rightarrow> 'k
       \<Rightarrow> (EvaluationError, Evaluation) result \<times> 'k" where
  "decide_known push ext cp binding ctx m path caller facts k =
     (case effective_host cp ctx of
        (use, host) \<Rightarrow>
          let k = push k (HS_RequestHost use) in
          if use = HU_Missing then (Inr (Evaluation_indeterminate binding MissingHostFact), k)
          else (case dispatch_context_of ctx of
                  None \<Rightarrow> (Inl InternalInvariant, k)
                | Some dctx \<Rightarrow>
                    decide_rules push ext cp binding m path (canonical_path_of ctx) caller dctx
                      (required_host ctx \<noteq> None) host facts k))"

definition decide_judged ::
    "('k \<Rightarrow> HttpStage \<Rightarrow> 'k) \<Rightarrow> 'net externals \<Rightarrow> 'net CompiledPolicy \<Rightarrow> InputBinding
       \<Rightarrow> PolicyEvaluationContext \<Rightarrow> (Limitation, Principal option) result \<Rightarrow> PolicyFacts \<Rightarrow> 'k
       \<Rightarrow> (EvaluationError, Evaluation) result \<times> 'k" where
  "decide_judged push ext cp binding ctx judged facts k =
     (let k = push k (HS_Facts (case judged of Inl limitation \<Rightarrow> Some limitation | Inr _ \<Rightarrow> None))
      in (case judged of
            Inl limitation \<Rightarrow> (Inr (Evaluation_indeterminate binding limitation), k)
          | Inr caller \<Rightarrow>
              (case (pc_method ctx, pc_path ctx) of
                 (Some m, Some path) \<Rightarrow> decide_known push ext cp binding ctx m path caller facts k
               | _ \<Rightarrow> (Inl InternalInvariant, k))))"

definition decide ::
    "digest_env \<Rightarrow> 'net externals \<Rightarrow> 'net CompiledPolicy \<Rightarrow> PolicyEvaluationContext \<Rightarrow> PolicyFacts
       \<Rightarrow> ('k \<Rightarrow> HttpStage \<Rightarrow> 'k) \<Rightarrow> 'k \<Rightarrow> (EvaluationError, Evaluation) result \<times> 'k" where
  "decide de ext cp ctx facts push k =
     (case and_try (context_validate ctx (cp_snapshot cp))
            (and_try (validate_facts facts) (context_binding de ctx)) of
        Inl e \<Rightarrow> (Inl e, k)
      | Inr unmarked \<Rightarrow>
          decide_judged push ext cp (with_facts unmarked facts) ctx
            (case missing_http_fact ctx of
               Some limitation \<Rightarrow> Inl limitation
             | None \<Rightarrow> judged_principal cp (pc_principal ctx) facts) facts k)"

definition evaluate_with_facts ::
    "digest_env \<Rightarrow> 'net externals \<Rightarrow> 'net CompiledPolicy \<Rightarrow> PolicyEvaluationContext \<Rightarrow> PolicyFacts
       \<Rightarrow> (EvaluationError, Evaluation) result" where
  "evaluate_with_facts de ext cp ctx facts = fst (decide de ext cp ctx facts NoStages_record ())"

definition evaluate_http ::
    "digest_env \<Rightarrow> 'net externals \<Rightarrow> 'net CompiledPolicy \<Rightarrow> PolicyEvaluationContext
       \<Rightarrow> (EvaluationError, Evaluation) result" where
  "evaluate_http de ext cp ctx = fst (decide de ext cp ctx uncaptured NoStages_record ())"

section \<open>Rate-lane selection\<close>

datatype RateStage =
    RS_Facts "Limitation option"
  | RS_AnonymousBypass bool
  | RS_Overrides "nat option"

record RateLimit =
  lim_requests_per_second :: f64
  lim_burst :: nat

datatype RateLaneOutcome =
    NoOverride
  | Override nat RateLimit
  | RL_Indeterminate Limitation

record RateLaneSelection =
  rls_binding :: InputBinding
  rls_outcome :: RateLaneOutcome

definition missing_rate_fact :: "PolicyEvaluationContext \<Rightarrow> Limitation option" where
  "missing_rate_fact ctx =
     (if pc_method ctx = None then Some MissingMethod
      else if pc_path ctx = None then Some MissingPath
      else if pc_principal ctx = PF_Missing then Some MissingPrincipalFact
      else None)"

definition rate_rule_matches :: "Principal \<Rightarrow> string \<Rightarrow> string \<Rightarrow> RateLimitRule \<Rightarrow> bool" where
  "rate_rule_matches p m path rule =
     (PrincipalMatcher_matches (rl_principal rule) (Some p)
      \<and> method_matches (rl_methods rule) m
      \<and> (case rl_path rule of None \<Rightarrow> True | Some pat \<Rightarrow> path_pattern_matches pat path))"

definition select_override ::
    "'net CompiledPolicy \<Rightarrow> Principal \<Rightarrow> string \<Rightarrow> string \<Rightarrow> (nat \<times> RateLimitRule) option" where
  "select_override cp p m path =
     find (\<lambda>(_, rule). rate_rule_matches p m path rule) (List.enumerate 0 (pol_rate_limits (cp_policy cp)))"

definition select_rate_lane_with_facts ::
    "digest_env \<Rightarrow> 'net CompiledPolicy \<Rightarrow> PolicyEvaluationContext \<Rightarrow> PolicyFacts
       \<Rightarrow> ('k \<Rightarrow> RateStage \<Rightarrow> 'k) \<Rightarrow> 'k \<Rightarrow> (EvaluationError, RateLaneSelection) result \<times> 'k" where
  "select_rate_lane_with_facts de cp ctx facts push k =
     (case and_try (context_validate ctx (cp_snapshot cp))
            (and_try (validate_facts facts) (context_binding de ctx)) of
        Inl e \<Rightarrow> (Inl e, k)
      | Inr unmarked \<Rightarrow>
          let binding = with_facts unmarked facts;
              answer = (\<lambda>outcome. Inr \<lparr>rls_binding = binding, rls_outcome = outcome\<rparr>)
          in (case missing_rate_fact ctx of
                Some limitation \<Rightarrow>
                  (answer (RL_Indeterminate limitation), push k (RS_Facts (Some limitation)))
              | None \<Rightarrow>
                  (case (pc_method ctx, pc_path ctx) of
                     (Some m, Some path) \<Rightarrow>
                       (case judged_principal cp (pc_principal ctx) facts of
                          Inr None \<Rightarrow>
                            (answer NoOverride, push (push k (RS_Facts None)) (RS_AnonymousBypass True))
                        | Inl MissingMatcherFact \<Rightarrow>
                            (answer (RL_Indeterminate MissingMatcherFact),
                             push k (RS_Facts (Some MissingMatcherFact)))
                        | Inl _ \<Rightarrow> (Inl InternalInvariant, k)
                        | Inr (Some p) \<Rightarrow>
                            let k = push (push k (RS_Facts None)) (RS_AnonymousBypass False);
                                selected = select_override cp p m path;
                                k = push k (RS_Overrides (map_option fst selected))
                            in (answer (case selected of
                                          Some (index, rule) \<Rightarrow>
                                            Override index
                                              \<lparr>lim_requests_per_second = rl_requests_per_second rule,
                                               lim_burst = rl_burst rule\<rparr>
                                        | None \<Rightarrow> NoOverride), k))
                   | _ \<Rightarrow> (Inl InternalInvariant, k))))"

definition RateLaneSelection_reusable_for ::
    "digest_env \<Rightarrow> RateLaneSelection \<Rightarrow> PolicyEvaluationContext \<Rightarrow> bool" where
  "RateLaneSelection_reusable_for de sel ctx =
     ((case rls_outcome sel of RL_Indeterminate _ \<Rightarrow> False | _ \<Rightarrow> True)
      \<and> context_validate ctx (ib_snapshot (rls_binding sel)) = Inr ()
      \<and> (case context_binding de ctx of Inl _ \<Rightarrow> False | Inr b \<Rightarrow> b = rls_binding sel))"

lemmas decide_defs = NoStages_record_def Vec_record_def judged_principal_def management_principal_def
  match_direct_def route_admissible_def match_route_def missing_http_fact_def required_host_def
  effective_host_def dispatch_context_of_def canonical_path_of_def decide_default_def decide_route_def
  direct_evaluation_def decide_undecided_def decide_direct_def
  decide_rules_def decide_judged_def decide_known_def decide_def evaluate_with_facts_def
  evaluate_http_def missing_rate_fact_def rate_rule_matches_def select_override_def
  select_rate_lane_with_facts_def RateLaneSelection_reusable_for_def

declare decide_defs [eval_defs]

end
