(* ===== verification/Decision_Laws.thy ===== *)
theory Decision_Laws
  imports Policy_Eval
begin

text \<open>
  The laws of the HTTP decision of \<open>Policy_Eval\<close>: what a sink sees, which stages are
  recorded, and the cases a decision falls into.
\<close>

section \<open>The sink sees the stages and changes nothing\<close>

text \<open>
  The contract between two sinks: \<open>h\<close> carries one's state to the other's. The
  decision is then the same under both, and \<open>h\<close> carries the stages recorded.
\<close>

locale sink_hom =
  fixes push :: "'k \<Rightarrow> 's \<Rightarrow> 'k" and push' :: "'l \<Rightarrow> 's \<Rightarrow> 'l" and h :: "'k \<Rightarrow> 'l"
  assumes hom: "h (push k s) = push' (h k) s"
begin

lemma fold_hom: "h (foldl push k ss) = foldl push' (h k) ss"
  by (induction ss arbitrary: k) (simp_all add: hom)

end

interpretation forget: sink_hom Vec_record NoStages_record "\<lambda>_. ()"
  by unfold_locales (simp add: NoStages_record_def)

interpretation replay: sink_hom Vec_record push "\<lambda>ss. foldl push k ss" for push k
  by unfold_locales (simp add: Vec_record_def)

lemma decide_default_hom:
  assumes "sink_hom push push' h"
  shows "decide_default push' cp binding obs hbr (h k) = map_prod id h (decide_default push cp binding obs hbr k)"
  using sink_hom.hom [OF assms] by (simp add: decide_default_def Let_def)

lemma decide_route_hom:
  assumes "sink_hom push push' h"
  shows "decide_route push' cp binding caller obs i r (h k)
       = map_prod id h (decide_route push cp binding caller obs i r k)"
  using sink_hom.hom [OF assms] by (simp add: decide_route_def Let_def)

lemma decide_undecided_hom:
  assumes "sink_hom push push' h"
  shows "decide_undecided push' cp binding m path canonical caller hbr host obs (h k)
       = map_prod id h (decide_undecided push cp binding m path canonical caller hbr host obs k)"
  by (simp add: decide_undecided_def decide_default_hom [OF assms] decide_route_hom [OF assms]
      split: option.splits prod.splits)

lemma decide_direct_hom:
  assumes "sink_hom push push' h"
  shows "decide_direct push' ext cp binding m path canonical caller dctx hbr host facts fd (h k)
       = map_prod id h (decide_direct push ext cp binding m path canonical caller dctx hbr host facts fd k)"
  unfolding decide_direct_def Let_def sink_hom.hom [OF assms, symmetric] decide_undecided_hom [OF assms]
  by (simp split: RuleScan.splits option.splits)

lemma decide_rules_hom:
  assumes "sink_hom push push' h"
  shows "decide_rules push' ext cp binding m path canonical caller dctx hbr host facts (h k)
       = map_prod id h (decide_rules push ext cp binding m path canonical caller dctx hbr host facts k)"
  by (simp add: decide_rules_def decide_direct_hom [OF assms] split: RuleScan.splits)

lemma decide_known_hom:
  assumes "sink_hom push push' h"
  shows "decide_known push' ext cp binding ctx m path caller facts (h k)
       = map_prod id h (decide_known push ext cp binding ctx m path caller facts k)"
  unfolding decide_known_def Let_def
  by (auto simp: sink_hom.hom [OF assms, symmetric] decide_rules_hom [OF assms]
      split: prod.splits option.splits)

lemma decide_judged_hom:
  assumes "sink_hom push push' h"
  shows "decide_judged push' ext cp binding ctx judged facts (h k)
       = map_prod id h (decide_judged push ext cp binding ctx judged facts k)"
  unfolding decide_judged_def Let_def
  by (auto simp: sink_hom.hom [OF assms, symmetric] decide_known_hom [OF assms]
      split: sum.splits option.splits)

lemma decide_hom:
  assumes "sink_hom push push' h"
  shows "decide de ext cp ctx facts push' (h k) = map_prod id h (decide de ext cp ctx facts push k)"
  unfolding decide_def decide_judged_hom [OF assms] by (simp split: sum.split)

section \<open>The stages\<close>

fun stage_rank :: "HttpStage \<Rightarrow> nat" where
  "stage_rank (HS_Facts _) = 0"
| "stage_rank (HS_RequestHost _) = 1"
| "stage_rank (HS_DirectRules _) = 2"
| "stage_rank (HS_UpstreamBinding _) = 3"
| "stage_rank (HS_Routes _) = 4"
| "stage_rank HS_HostPolicyRequired = 5"
| "stage_rank (HS_Default _) = 6"

text \<open>
  Each part extends what was recorded by stages of increasing rank; \<open>extends\<close> names the
  ranks it may add.
\<close>

definition extends :: "HttpStage list \<Rightarrow> nat list set \<Rightarrow> HttpStage list \<Rightarrow> bool" where
  "extends k S k' = (\<exists>ss. k' = k @ ss \<and> map stage_rank ss \<in> S)"

lemma extends_none: "[] \<in> S \<Longrightarrow> extends k S k"
  by (auto simp: extends_def)

lemma extends_push:
  assumes "extends (Vec_record k s) T k'" "(#) (stage_rank s) ` T \<subseteq> S"
  shows "extends k S k'"
proof -
  from assms(1) obtain ss where "k' = (k @ [s]) @ ss" "map stage_rank ss \<in> T"
    by (auto simp: extends_def Vec_record_def)
  then have "k' = k @ (s # ss)" "map stage_rank (s # ss) \<in> S" using assms(2) by auto
  then show ?thesis unfolding extends_def by blast
qed

lemma extends_Vec_record: "extends k {[stage_rank s]} (Vec_record k s)"
  by (simp add: extends_def Vec_record_def)

lemma extends_two: "extends k {[stage_rank s, stage_rank t]} (Vec_record (Vec_record k s) t)"
  by (simp add: extends_def Vec_record_def)

lemma extends_mono: "extends k S k' \<Longrightarrow> S \<subseteq> T \<Longrightarrow> extends k T k'"
  by (auto simp: extends_def)

lemma decide_default_stages:
  "extends k {[4, 5], [4, 6]} (snd (decide_default Vec_record cp binding obs hbr k))"
proof -
  have "extends k {[4, 5], [4, 6]} (Vec_record (Vec_record k (HS_Routes None)) HS_HostPolicyRequired)"
    using extends_two [of k "HS_Routes None" HS_HostPolicyRequired] by (rule extends_mono) simp
  moreover have "extends k {[4, 5], [4, 6]} (Vec_record (Vec_record k (HS_Routes None)) (HS_Default a))"
    for a
    using extends_two [of k "HS_Routes None" "HS_Default a"] by (rule extends_mono) simp
  ultimately show ?thesis by (simp add: decide_default_def Let_def)
qed

lemma decide_route_stages:
  "extends k {[4]} (snd (decide_route Vec_record cp binding caller obs i r k))"
  using extends_Vec_record [of k "HS_Routes u" for u]
  by (simp add: decide_route_def Let_def)

lemma decide_undecided_stages:
  "extends k {[4], [4, 5], [4, 6]}
     (snd (decide_undecided Vec_record cp binding m path canonical caller hbr host obs k))"
  by (cases "match_route cp m path canonical host hbr")
     (auto simp: decide_undecided_def intro: extends_mono [OF decide_default_stages]
       extends_mono [OF decide_route_stages])

lemma binding_stages:
  assumes "extends (Vec_record k (HS_UpstreamBinding u)) {[], [4], [4, 5], [4, 6]} k'"
  shows "extends k {[], [3], [3, 4], [3, 4, 5], [3, 4, 6]} k'"
  by (rule extends_push [OF assms]) auto

lemma binding_undecided_stages:
  "extends k {[], [3], [3, 4], [3, 4, 5], [3, 4, 6]}
     (snd (decide_undecided Vec_record cp binding m path canonical caller hbr host obs
        (Vec_record k (HS_UpstreamBinding u))))"
  by (rule binding_stages, rule extends_mono [OF decide_undecided_stages]) auto

lemma binding_decided_stages:
  "extends k {[], [3], [3, 4], [3, 4, 5], [3, 4, 6]} (Vec_record k (HS_UpstreamBinding u))"
  by (rule binding_stages, rule extends_none) auto

lemma decide_direct_stages:
  "extends k {[2], [2, 3], [2, 3, 4], [2, 3, 4, 5], [2, 3, 4, 6]}
     (snd (decide_direct Vec_record ext cp binding m path canonical caller dctx hbr host facts fd k))"
  unfolding decide_direct_def Let_def
  by (rule extends_push [where T = "{[], [3], [3, 4], [3, 4, 5], [3, 4, 6]}" and
        s = "HS_DirectRules (map_option (\<lambda>d. \<lparr>dm_rule = rd_rule_index d, dm_action = rd_action d\<rparr>) fd)"])
     (simp_all add: binding_undecided_stages binding_decided_stages extends_none
       split: RuleScan.splits option.splits)

lemma decide_rules_stages:
  "extends k {[], [2], [2, 3], [2, 3, 4], [2, 3, 4, 5], [2, 3, 4, 6]}
     (snd (decide_rules Vec_record ext cp binding m path canonical caller dctx hbr host facts k))"
  unfolding decide_rules_def
  by (auto split: RuleScan.splits intro: extends_none extends_mono [OF decide_direct_stages])

lemma decide_known_stages:
  "extends k {[1], [1, 2], [1, 2, 3], [1, 2, 3, 4], [1, 2, 3, 4, 5], [1, 2, 3, 4, 6]}
     (snd (decide_known Vec_record ext cp binding ctx m path caller facts k))"
proof -
  obtain u host where u: "effective_host cp ctx = (u, host)" by fastforce
  show ?thesis
    unfolding decide_known_def Let_def u prod.case
    by (rule extends_push [where s = "HS_RequestHost u" and
          T = "{[], [2], [2, 3], [2, 3, 4], [2, 3, 4, 5], [2, 3, 4, 6]}"])
       (auto simp: extends_none split: option.splits intro: decide_rules_stages)
qed

lemma decide_judged_stages:
  "extends k {[0], [0, 1], [0, 1, 2], [0, 1, 2, 3], [0, 1, 2, 3, 4], [0, 1, 2, 3, 4, 5],
              [0, 1, 2, 3, 4, 6]}
     (snd (decide_judged Vec_record ext cp binding ctx judged facts k))"
  unfolding decide_judged_def Let_def
  by (rule extends_push [where s = "HS_Facts (case judged of Inl l \<Rightarrow> Some l | Inr _ \<Rightarrow> None)" and
        T = "{[], [1], [1, 2], [1, 2, 3], [1, 2, 3, 4], [1, 2, 3, 4, 5], [1, 2, 3, 4, 6]}"])
     (auto simp: extends_none split: sum.splits option.splits
       intro: extends_mono [OF decide_known_stages])

lemma decide_stages:
  "extends k {[], [0], [0, 1], [0, 1, 2], [0, 1, 2, 3], [0, 1, 2, 3, 4], [0, 1, 2, 3, 4, 5],
              [0, 1, 2, 3, 4, 6]}
     (snd (decide de ext cp ctx facts Vec_record k))"
proof (cases "and_try (context_validate ctx (cp_snapshot cp)) (and_try (validate_facts facts) (context_binding de ctx))")
  case (Inl e)
  show ?thesis unfolding decide_def Inl sum.case snd_conv by (rule extends_none) simp
next
  case (Inr b)
  show ?thesis unfolding decide_def Inr sum.case by (rule extends_mono [OF decide_judged_stages]) simp
qed

section \<open>The cases of a decision\<close>

text \<open>
  An evaluation is either incomplete, or one direct rule, or one route rule, or the
  default. The scan that settles the direct rules is the deny-only scan exactly when an
  upstream host was selected.
\<close>

lemma decide_undecided_cases:
  assumes "fst (decide_undecided push cp binding m path canonical caller hbr host obs k) = Inr ev"
  obtains (route) i r where "match_route cp m path canonical host hbr = Some (i, r)"
      "fst (decide_route push cp binding caller obs i r k) = Inr ev"
    | (default) "match_route cp m path canonical host hbr = None"
      "fst (decide_default push cp binding obs hbr k) = Inr ev"
  using assms by (auto simp: decide_undecided_def split: option.splits)

lemma decide_direct_cases:
  assumes "fst (decide_direct push ext cp binding m path canonical caller dctx hbr host facts fd k) = Inr ev"
    and fd: "match_direct ext cp m path canonical caller dctx False facts
             = (case fd of None \<Rightarrow> NoMatch | Some d \<Rightarrow> Matched d)"
  obtains (unknown) "ev = Evaluation_indeterminate binding MissingMatcherFact" "hbr"
    | (direct) d obs where "match_direct ext cp m path canonical caller dctx hbr facts = Matched d"
      "ev = direct_evaluation binding obs d"
    | (undecided) obs k' where "match_direct ext cp m path canonical caller dctx hbr facts = NoMatch"
      "fst (decide_undecided push cp binding m path canonical caller hbr host obs k') = Inr ev"
proof (cases hbr)
  case True
  show ?thesis
  proof (cases "match_direct ext cp m path canonical caller dctx True facts")
    case (Matched d)
    with True assms(1) have "\<exists>obs. ev = direct_evaluation binding obs d"
      by (auto simp: decide_direct_def Let_def)
    with Matched True direct show ?thesis by auto
  next
    case NoMatch
    with True assms(1) have
      "\<exists>obs k'. fst (decide_undecided push cp binding m path canonical caller hbr host obs k') = Inr ev"
      by (auto simp: decide_direct_def Let_def)
    with NoMatch True undecided show ?thesis by auto
  next
    case (Undetermined i)
    with True assms(1) unknown show ?thesis by (simp add: decide_direct_def Let_def)
  qed
next
  case False
  show ?thesis
  proof (cases fd)
    case None
    with False assms(1) have
      "\<exists>obs k'. fst (decide_undecided push cp binding m path canonical caller hbr host obs k') = Inr ev"
      by (auto simp: decide_direct_def Let_def)
    with None False fd undecided show ?thesis by auto
  next
    case (Some d)
    with False assms(1) have "\<exists>obs. ev = direct_evaluation binding obs d"
      by (auto simp: decide_direct_def Let_def)
    with Some False fd direct show ?thesis by auto
  qed
qed

lemma decide_rules_cases:
  assumes "fst (decide_rules push ext cp binding m path canonical caller dctx hbr host facts k) = Inr ev"
  obtains (unknown) "ev = Evaluation_indeterminate binding MissingMatcherFact"
    | (direct) d obs where "match_direct ext cp m path canonical caller dctx hbr facts = Matched d"
      "ev = direct_evaluation binding obs d"
    | (undecided) obs k' where "match_direct ext cp m path canonical caller dctx hbr facts = NoMatch"
      "fst (decide_undecided push cp binding m path canonical caller hbr host obs k') = Inr ev"
proof (cases "match_direct ext cp m path canonical caller dctx False facts")
  case (Matched d)
  with assms have *: "fst (decide_direct push ext cp binding m path canonical caller dctx hbr host facts
      (Some d) k) = Inr ev" by (simp add: decide_rules_def)
  have "match_direct ext cp m path canonical caller dctx False facts
      = (case Some d of None \<Rightarrow> NoMatch | Some d \<Rightarrow> Matched d)" using Matched by simp
  then show ?thesis
    by (cases rule: decide_direct_cases [OF *]) (auto intro: unknown direct undecided)
next
  case NoMatch
  with assms have *: "fst (decide_direct push ext cp binding m path canonical caller dctx hbr host facts
      None k) = Inr ev" by (simp add: decide_rules_def)
  have "match_direct ext cp m path canonical caller dctx False facts
      = (case None of None \<Rightarrow> NoMatch | Some d \<Rightarrow> Matched d)" using NoMatch by simp
  then show ?thesis
    by (cases rule: decide_direct_cases [OF *]) (auto intro: unknown direct undecided)
next
  case (Undetermined i)
  with assms unknown show ?thesis by (simp add: decide_rules_def)
qed

definition validated_binding ::
    "digest_env \<Rightarrow> 'net CompiledPolicy \<Rightarrow> PolicyEvaluationContext \<Rightarrow> PolicyFacts
       \<Rightarrow> (EvaluationError, InputBinding) result" where
  "validated_binding de cp ctx facts =
     and_try (context_validate ctx (cp_snapshot cp)) (and_try (validate_facts facts) (context_binding de ctx))"

text \<open>
  What the decision reads of a context once no fact of it is missing.
\<close>

definition request_inputs ::
    "'net CompiledPolicy \<Rightarrow> PolicyEvaluationContext \<Rightarrow> PolicyFacts \<Rightarrow> string \<Rightarrow> string
       \<Rightarrow> Principal option \<Rightarrow> string option \<Rightarrow> RuleDispatchContext \<Rightarrow> bool" where
  "request_inputs cp ctx facts m path caller host dctx =
     (pc_method ctx = Some m \<and> pc_path ctx = Some path \<and> missing_http_fact ctx = None
      \<and> judged_principal cp (pc_principal ctx) facts = Inr caller
      \<and> (\<exists>use. effective_host cp ctx = (use, host) \<and> use \<noteq> HU_Missing)
      \<and> dispatch_context_of ctx = Some dctx)"

lemma request_inputsD:
  assumes "request_inputs cp ctx facts m path caller host dctx"
  shows "pc_method ctx = Some m" "pc_path ctx = Some path"
    "judged_principal cp (pc_principal ctx) facts = Inr caller" "dispatch_context_of ctx = Some dctx"
    "required_host ctx = Some h \<Longrightarrow> host = Some h"
  using assms by (auto simp: request_inputs_def effective_host_def)

lemma evaluate_eq:
  assumes "request_inputs cp ctx facts m path caller host dctx"
  shows "evaluate_with_facts de ext cp ctx facts =
     (case validated_binding de cp ctx facts of
        Inl e \<Rightarrow> Inl e
      | Inr b \<Rightarrow> fst (decide_rules NoStages_record ext cp (with_facts b facts) m path
                   (canonical_path_of ctx) caller dctx (required_host ctx \<noteq> None) host facts ()))"
  using assms
  by (auto simp: request_inputs_def evaluate_with_facts_def decide_def validated_binding_def
      decide_judged_def decide_known_def NoStages_record_def split: sum.split)

lemma evaluate_incomplete:
  assumes "\<nexists>m path caller host dctx. request_inputs cp ctx facts m path caller host dctx"
    and "validated_binding de cp ctx facts = Inr b"
  shows "\<exists>l. evaluate_with_facts de ext cp ctx facts = Inr (Evaluation_indeterminate (with_facts b facts) l)"
proof (cases "case missing_http_fact ctx of Some l \<Rightarrow> Inl l
              | None \<Rightarrow> judged_principal cp (pc_principal ctx) facts")
  case (Inl l)
  with assms(2) show ?thesis
    by (auto simp: evaluate_with_facts_def decide_def validated_binding_def decide_judged_def)
next
  case (Inr caller)
  then have present: "missing_http_fact ctx = None"
    and judged: "judged_principal cp (pc_principal ctx) facts = Inr caller" by (auto split: option.splits)
  from present obtain m path where mp: "pc_method ctx = Some m" "pc_path ctx = Some path"
    by (auto simp: missing_http_fact_def split: if_splits)
  obtain dctx where dctx: "dispatch_context_of ctx = Some dctx"
    using present
    by (cases "pc_target ctx"; cases "pc_dispatch ctx")
       (auto simp: missing_http_fact_def dispatch_context_of_def split: if_splits)
  obtain use host where host: "effective_host cp ctx = (use, host)" by fastforce
  with assms(1) present judged mp dctx have "use = HU_Missing" by (auto simp: request_inputs_def)
  with assms(2) Inr mp host show ?thesis
    by (auto simp: evaluate_with_facts_def decide_def validated_binding_def decide_judged_def decide_known_def)
qed

lemma decide_rules_total:
  "\<exists>ev. fst (decide_rules push ext cp b m path canonical caller dctx hbr host facts k) = Inr ev"
proof -
  have default: "\<exists>ev. fst (decide_default push cp b obs hbr k) = Inr ev" for obs hbr k
    by (simp add: decide_default_def Let_def)
  have route: "\<exists>ev. fst (decide_route push cp b caller obs i r k) = Inr ev" for obs i r k
    by (simp add: decide_route_def Let_def)
  have undecided: "\<exists>ev. fst (decide_undecided push cp b m path canonical caller hbr host obs k) = Inr ev"
    for obs hbr k
    using default route by (simp add: decide_undecided_def split: option.split prod.split)
  have "\<exists>ev. fst (decide_direct push ext cp b m path canonical caller dctx hbr host facts fd k) = Inr ev"
    for fd k
    using undecided by (simp add: decide_direct_def Let_def split: RuleScan.split option.split)
  then show ?thesis by (simp add: decide_rules_def split: RuleScan.split)
qed

lemma evaluate_cases:
  assumes "evaluate_with_facts de ext cp ctx facts = Inr ev"
  obtains (unknown) b l where "ev = Evaluation_indeterminate b l"
    | (rules) b m path caller host dctx where
      "request_inputs cp ctx facts m path caller host dctx"
      "validated_binding de cp ctx facts = Inr b"
      "fst (decide_rules NoStages_record ext cp (with_facts b facts) m path (canonical_path_of ctx) caller dctx
         (required_host ctx \<noteq> None) host facts ()) = Inr ev"
proof (cases "\<exists>m path caller host dctx. request_inputs cp ctx facts m path caller host dctx")
  case True
  then obtain m path caller host dctx where *: "request_inputs cp ctx facts m path caller host dctx"
    by blast
  show ?thesis
    using assms evaluate_eq [OF *] rules [OF *] by (auto split: sum.splits)
next
  case False
  obtain b where b: "validated_binding de cp ctx facts = Inr b"
    using assms by (auto simp: evaluate_with_facts_def decide_def validated_binding_def split: sum.splits)
  from evaluate_incomplete [OF False b, of ext] assms unknown show ?thesis by auto
qed

text \<open>The binding is carried through: the decision does not read it.\<close>

definition rebind :: "InputBinding \<Rightarrow> Evaluation \<Rightarrow> Evaluation" where
  "rebind b ev = ev\<lparr>ev_binding := b\<rparr>"

lemma rebind_complete [simp]:
  "rebind b (Evaluation_complete b' l e r mt obs) = Evaluation_complete b l e r mt obs"
  "rebind b (Evaluation_indeterminate b' lm) = Evaluation_indeterminate b lm"
  "rebind b (direct_evaluation b' obs d) = direct_evaluation b obs d"
  by (auto simp: rebind_def Evaluation_complete_def Evaluation_indeterminate_def direct_evaluation_def
      split: RuleAction.split)

lemma rebind_fields [simp]:
  "ev_complete (rebind b ev) = ev_complete ev" "ev_binding (rebind b ev) = b"
  "rebind b (rebind b' ev) = rebind b ev"
  by (simp_all add: rebind_def)

lemma decide_undecided_rebind:
  "decide_undecided push cp b m path canonical caller hbr host obs k
   = map_prod (map_sum id (rebind b)) id
       (decide_undecided push cp b' m path canonical caller hbr host obs k)"
  by (simp add: decide_undecided_def decide_route_def decide_default_def Let_def
      split: option.split prod.split)

lemma decide_direct_rebind:
  "decide_direct push ext cp b m path canonical caller dctx hbr host facts fd k
   = map_prod (map_sum id (rebind b)) id
       (decide_direct push ext cp b' m path canonical caller dctx hbr host facts fd k)"
  by (simp add: decide_direct_def Let_def decide_undecided_rebind [of push cp b _ _ _ _ _ _ _ _ b']
      split: RuleScan.split option.split)

lemma decide_rules_rebind:
  "decide_rules push ext cp b m path canonical caller dctx hbr host facts k
   = map_prod (map_sum id (rebind b)) id
       (decide_rules push ext cp b' m path canonical caller dctx hbr host facts k)"
  by (simp add: decide_rules_def split: RuleScan.split)
     (simp add: decide_direct_rebind [of push ext cp b _ _ _ _ _ _ _ _ _ _ b'])

end
