(* ===== verification/Samples.thy ===== *)
theory Samples
  imports Policy_Eval
begin

text \<open>
  A small policy, principal and requests on which the properties of the decision are
  evaluated: one route bound to the host \<open>API.example\<close>, one role holding its permission, and
  direct rules given as an argument.
\<close>

definition sample_digest :: digest_env where
  "sample_digest = \<lparr>de_sha256 = (\<lambda>bytes. bytes), de_to_vec = (\<lambda>_. Some []), de_scalar = (\<lambda>_. [])\<rparr>"

definition sample_principal :: Principal where
  "sample_principal =
     \<lparr>user_id = ''ada'', issuer = Some ''idp'', email = None, org_id = None, roles = [''ops''],
      session_id = [], auth_method = Bearer, scopes = None, verified_claims = []\<rparr>"

definition anyone :: PrincipalMatcher where
  "anyone = \<lparr>pm_roles = [], pm_issuers = [], pm_auth_methods = [], pm_principal_ids = []\<rparr>"

definition sample_rule :: "string \<Rightarrow> RuleAction \<Rightarrow> Condition option \<Rightarrow> Rule" where
  "sample_rule path action condition =
     \<lparr>rule_id = None, rule_enabled = True, rule_methods = [], rule_path = path,
      rule_tool_name = None, rule_dispatch = None, rule_principal = anyone,
      rule_conditions = condition, rule_action = action\<rparr>"

definition sample_route :: RouteRule where
  "sample_route =
     \<lparr>rr_id = None, rr_methods = [''GET''], rr_hosts = [''API.example''], rr_path_prefix = ''/v1'',
      rr_permission = ''api:read'', rr_enforcement_mode = None\<rparr>"

definition sample_policy :: "Rule list \<Rightarrow> Policy" where
  "sample_policy rules =
     \<lparr>pol_schema_version = ''1'', pol_id = None, pol_default_action = DefaultDeny,
      pol_enforcement_mode = Enforce,
      pol_roles = [(''ops'', \<lparr>re_permissions = [''api:read''], re_issuers = [], re_auth_methods = [],
                              re_description = None\<rparr>)],
      pol_identity_mappings = None, pol_routes = [sample_route], pol_rules = rules,
      pol_egress = \<lparr>ep_hosts = [], ep_cidrs = [], ep_ports = []\<rparr>, pol_rate_limits = [], pol_tools = []\<rparr>"

definition sample_compiled :: "Rule list \<Rightarrow> unit CompiledPolicy" where
  "sample_compiled rules =
     assemble sample_externals (sample_policy rules) (DigestSource ''d'') Standalone"

definition sample_context :: "Rule list \<Rightarrow> string \<Rightarrow> HttpTarget \<Rightarrow> DispatchFacts option \<Rightarrow> PolicyEvaluationContext" where
  "sample_context rules path target dispatch =
     \<lparr>pc_version = CONTEXT_VERSION, pc_snapshot = cp_snapshot (sample_compiled rules),
      pc_method = Some ''GET'', pc_path = Some path, pc_principal = PF_Authenticated sample_principal,
      pc_target = target, pc_request_host = HF_Present ''api.example'', pc_dispatch = dispatch\<rparr>"

definition sample_dispatch :: DispatchFacts where
  "sample_dispatch =
     \<lparr>df_route_id = None, df_route_host = Some ''api.example'', df_route_path_prefix = None,
      df_upstream_origin = ''https://api.example''\<rparr>"

definition sample_binding :: "Rule list \<Rightarrow> PolicyFacts \<Rightarrow> InputBinding" where
  "sample_binding rules facts =
     \<lparr>ib_snapshot = cp_snapshot (sample_compiled rules),
      ib_context_digest = framed_digest sample_digest ''context'' ''application/json'' (dec_of_nat CONTEXT_VERSION) [],
      ib_facts = FactsUse_of facts\<rparr>"

lemmas sample_defs = sample_externals_def sample_digest_def sample_principal_def anyone_def
  sample_rule_def sample_route_def sample_policy_def sample_compiled_def sample_context_def
  sample_dispatch_def sample_binding_def

text \<open>The selected upstream, reached through the bound route.\<close>

lemma sample_selected:
  "evaluate_with_facts sample_digest sample_externals (sample_compiled [])
     (sample_context [] ''/v1/x'' HT_ProxyDispatch (Some sample_dispatch)) uncaptured
   = Inr (Evaluation_complete (sample_binding [] uncaptured)
       LD_Allow PE_Allow MatchedRule (Some (RR_Route 0)) None)"
  by (simp add: sample_defs eval_defs)

text \<open>
  Two rules on the two spellings of one resource: the allow comes first in the document and
  the deny on the canonical spelling decides.
\<close>

definition alias_rules :: "Rule list" where
  "alias_rules = [sample_rule ''/alias'' Allow None, sample_rule ''/mcp'' Deny None]"

lemma sample_alias:
  "evaluate_with_facts sample_digest sample_externals (sample_compiled alias_rules)
     (sample_context alias_rules ''/alias'' (HT_McpAlias ''/mcp'') None) uncaptured
   = Inr (Evaluation_complete (sample_binding alias_rules uncaptured)
       LD_Deny PE_Block MatchedRule (Some (RR_Direct 1)) None)"
  by (simp add: sample_defs alias_rules_def eval_defs)

text \<open>A direct allow rule that a captured header selects.\<close>

definition header_rules :: "Rule list" where
  "header_rules = [sample_rule ''/h'' Allow None, sample_rule ''/h'' Deny (Some (Cond_Header ''x-a'' [''1'']))]"

definition header_facts :: PolicyFacts where
  "header_facts = uncaptured\<lparr>pf_headers := Captured [(''x-a'', ''1'')]\<rparr>"

lemma sample_header:
  "evaluate_with_facts sample_digest sample_externals (sample_compiled header_rules)
     (sample_context header_rules ''/h'' HT_Contextless None) uncaptured
   = Inr (Evaluation_complete (sample_binding header_rules uncaptured)
       LD_Allow PE_Allow MatchedRule (Some (RR_Direct 0)) None)"
  "evaluate_with_facts sample_digest sample_externals (sample_compiled header_rules)
     (sample_context header_rules ''/h'' HT_Contextless None) header_facts
   = Inr (Evaluation_complete (sample_binding header_rules header_facts)
       LD_Allow PE_Allow MatchedRule (Some (RR_Direct 0)) None)"
  by (simp_all add: sample_defs header_rules_def header_facts_def uncaptured_def eval_defs)

end
