(* ===== verification/Http_Properties.thy ===== *)
theory Http_Properties
  imports Decision_Laws Samples
begin

text \<open>
  What the HTTP decision of \<open>src/gateway/src/policy_eval/mod.rs\<close> guarantees: who is let
  through and why, that a selected upstream is reached only through a route bound to its
  host, that a deny rule which may apply is never overridden where spellings of a path are
  equivalent, that missing facts fail closed and that captured facts never change a settled
  decision.
\<close>

section \<open>Library\<close>

text \<open>The spellings of the path the direct rules are judged on.\<close>

definition spellings :: "string option \<Rightarrow> string \<Rightarrow> string list" where
  "spellings canonical path = (case canonical of None \<Rightarrow> [path] | Some c \<Rightarrow> [c, path])"

lemma find_enumerate_Some:
  "find P (List.enumerate 0 xs) = Some (i, x) \<Longrightarrow> i < length xs \<and> xs ! i = x \<and> P (i, x)"
  by (auto simp: find_Some_iff nth_enumerate_eq)

lemma match_route_Some:
  assumes "match_route cp m path canonical host hbr = Some (i, r)"
  shows "i < length (pol_routes (cp_policy cp))" "pol_routes (cp_policy cp) ! i = r"
    "route_admissible m host hbr r"
    "rr_path_prefix r = path \<or> (\<exists>q\<in>set (spellings canonical path). path_prefix_matches q (rr_path_prefix r))"
  using assms
  by (auto simp: match_route_def Let_def spellings_def split: option.splits
      dest!: find_enumerate_Some)

lemma match_direct_denies_NoMatch:
  "match_direct ext cp m path canonical caller dctx True facts = NoMatch \<longleftrightarrow>
     (\<forall>rule\<in>set (cp_matcher cp). \<forall>q\<in>set (spellings canonical path). cr_action rule = Deny \<longrightarrow>
        http_truth ext rule m q caller dctx facts = TFalse)"
  by (simp add: match_direct_def spellings_def scan_equivalent_paths_with_dispatch_def
      scan_denies_with_dispatch_def action_scan_NoMatch Let_def split: option.split)

lemma match_direct_denies_Matched:
  "match_direct ext cp m path canonical caller dctx True facts = Matched d \<Longrightarrow> rd_action d = Deny"
  by (auto simp: match_direct_def scan_equivalent_paths_with_dispatch_def
      scan_denies_with_dispatch_def Let_def dest: action_scan_Matched(1)
      split: option.splits if_splits)

lemma match_direct_Matched:
  assumes "match_direct ext cp m path canonical caller dctx hbr facts = Matched d"
  shows "\<exists>rule\<in>set (cp_matcher cp). \<exists>q\<in>set (spellings canonical path). cr_action rule = rd_action d
           \<and> cr_rule_index rule = rd_rule_index d \<and> http_truth ext rule m q caller dctx facts = TTrue"
proof (cases "canonical = None \<and> \<not> hbr")
  case True
  with assms obtain ys r zs where
    "map (\<lambda>rule. (rule, http_truth ext rule m path caller dctx facts)) (cp_matcher cp) = ys @ (r, TTrue) # zs"
    and d: "d = \<lparr>rd_rule_index = cr_rule_index r, rd_action = cr_action r\<rparr>"
    by (auto simp: match_direct_def scan_with_dispatch_def first_match_Matched)
  then have "(r, TTrue) \<in> set (map (\<lambda>rule. (rule, http_truth ext rule m path caller dctx facts)) (cp_matcher cp))"
    by simp
  with d True show ?thesis by (auto simp: spellings_def)
next
  case False
  with assms obtain actions where
    "scan_matching_paths_by_action ext (cp_matcher cp) m (spellings canonical path) caller dctx actions facts
       = Matched d"
    by (auto simp: match_direct_def spellings_def scan_equivalent_paths_with_dispatch_def
        scan_denies_with_dispatch_def simp del: scan_matching_paths_by_action.simps
        split: option.splits if_splits)
  from scan_by_action_Matched [OF this] show ?thesis by blast
qed

lemma deny_settles:
  assumes "rule \<in> set (cp_matcher cp)" "cr_action rule = Deny" "q \<in> set (spellings canonical path)"
    "http_truth ext rule m q caller dctx facts \<noteq> TFalse" "canonical \<noteq> None \<or> hbr"
  shows "match_direct ext cp m path canonical caller dctx hbr facts \<noteq> NoMatch"
    and "match_direct ext cp m path canonical caller dctx hbr facts = Matched d \<Longrightarrow> rd_action d = Deny"
proof -
  have "(\<exists>i. match_direct ext cp m path canonical caller dctx hbr facts = Undetermined i)
      \<or> (\<exists>d. match_direct ext cp m path canonical caller dctx hbr facts = Matched d \<and> rd_action d = Deny)"
  proof (cases canonical)
    case (Some c)
    with assms equivalent_paths_deny_wins [of rule "cp_matcher cp" q "spellings canonical path" ext m]
    show ?thesis by (simp add: match_direct_def spellings_def)
  next
    case None
    with assms have "match_direct ext cp m path canonical caller dctx True facts \<noteq> NoMatch"
      by (auto simp: match_direct_denies_NoMatch)
    with assms None match_direct_denies_Matched [of ext cp m path canonical caller dctx facts]
    show ?thesis by (cases "match_direct ext cp m path canonical caller dctx True facts") auto
  qed
  then show "match_direct ext cp m path canonical caller dctx hbr facts \<noteq> NoMatch"
    and "match_direct ext cp m path canonical caller dctx hbr facts = Matched d \<Longrightarrow> rd_action d = Deny"
    by auto
qed

lemmas evaluation_defs = Evaluation_complete_def Evaluation_indeterminate_def direct_evaluation_def
  decide_route_def decide_default_def Let_def effect_def

text \<open>More captured facts settle more, and never resettle.\<close>

lemma match_direct_mono:
  assumes "facts_le f g"
  shows "scan_le (match_direct ext cp m path canonical caller dctx hbr f)
                 (match_direct ext cp m path canonical caller dctx hbr g)"
  using http.first_match_mono [OF assms, of "\<lambda>r. r" ext m path caller dctx "cp_matcher cp"]
  by (simp add: scan_by_action_mono [OF assms] match_direct_def scan_equivalent_paths_with_dispatch_def scan_denies_with_dispatch_def
      scan_with_dispatch_def del: scan_matching_paths_by_action.simps split: option.split)

lemma judged_principal_stable:
  assumes "facts_le f g" "judged_principal cp pf f = Inr caller"
  shows "judged_principal cp pf g = Inr caller"
  using assms effective_roles_stable [OF assms(1)]
  by (auto simp: judged_principal_def effective_principal_def split: PrincipalFact.splits option.splits)

lemma decide_direct_facts:
  assumes "match_direct ext cp m path canonical caller dctx True f
         = match_direct ext cp m path canonical caller dctx True g"
  shows "decide_direct push ext cp b m path canonical caller dctx hbr host f fd k
       = decide_direct push ext cp b m path canonical caller dctx hbr host g fd k"
  unfolding decide_direct_def assms ..

lemma decide_direct_unbound_facts:
  "decide_direct push ext cp b m path canonical caller dctx False host f fd k
     = decide_direct push ext cp b m path canonical caller dctx False host g fd k"
  by (simp add: decide_direct_def)

lemma decide_direct_stable:
  assumes "facts_le f g"
    and "fst (decide_direct push ext cp b m path canonical caller dctx hbr host f fd k) = Inr ev"
    and "ev_complete ev"
  shows "decide_direct push ext cp b m path canonical caller dctx hbr host g fd k
       = decide_direct push ext cp b m path canonical caller dctx hbr host f fd k"
proof (cases hbr)
  case True
  have "\<not> (\<exists>i. match_direct ext cp m path canonical caller dctx True f = Undetermined i)"
    using assms(2,3) True by (auto simp: decide_direct_def Let_def Evaluation_indeterminate_def)
  then have "match_direct ext cp m path canonical caller dctx True f
      = match_direct ext cp m path canonical caller dctx True g"
    using match_direct_mono [OF assms(1), of ext cp m path canonical caller dctx True]
    by (auto simp: scan_le_def)
  then show ?thesis by (rule decide_direct_facts [symmetric])
next
  case False
  then show ?thesis by (simp add: decide_direct_unbound_facts [of push ext cp b m path canonical caller dctx host g fd k f])
qed

lemma decide_rules_stable:
  assumes "facts_le f g"
    and "fst (decide_rules push ext cp b m path canonical caller dctx hbr host f k) = Inr ev"
    and "ev_complete ev"
  shows "decide_rules push ext cp b m path canonical caller dctx hbr host g k
       = decide_rules push ext cp b m path canonical caller dctx hbr host f k"
proof -
  have "\<not> (\<exists>i. match_direct ext cp m path canonical caller dctx False f = Undetermined i)"
    using assms(2,3) by (auto simp: decide_rules_def Evaluation_indeterminate_def)
  then have "match_direct ext cp m path canonical caller dctx False g
      = match_direct ext cp m path canonical caller dctx False f"
    using match_direct_mono [OF assms(1), of ext cp m path canonical caller dctx False]
    by (auto simp: scan_le_def)
  then show ?thesis
    using assms decide_direct_stable [OF assms(1)]
    by (auto simp: decide_rules_def split: RuleScan.splits)
qed

section \<open>Properties\<close>

text \<open>
  C1. Selected upstream. When the dispatch selected an upstream bound to a host, a decision
  that does not block names a route rule of the policy whose method list accepts the method
  and one of whose hosts is the selected host up to ASCII case; no direct deny rule may apply to any
  spelling of the path; and if the decision is an allow, the judged principal holds the
  route's permission. Neither a direct allow rule nor the default action can reach the host.
\<close>

theorem selected_upstream_needs_bound_route:
  assumes "evaluate_with_facts de ext cp ctx facts = Inr ev"
    and "required_host ctx = Some h"
    and "ev_effect ev \<noteq> PE_Block"
  shows "\<exists>i r m path caller dctx.
      ev_matched ev = Some (RR_Route i) \<and> i < length (pol_routes (cp_policy cp))
      \<and> r = pol_routes (cp_policy cp) ! i
      \<and> pc_method ctx = Some m \<and> pc_path ctx = Some path \<and> dispatch_context_of ctx = Some dctx
      \<and> judged_principal cp (pc_principal ctx) facts = Inr caller
      \<and> method_matches (rr_methods r) m
      \<and> (\<exists>host\<in>set (rr_hosts r). eq_ignore_ascii_case host h)
      \<and> (\<forall>rule\<in>set (cp_matcher cp). \<forall>q\<in>set (spellings (canonical_path_of ctx) path).
            cr_action rule = Deny \<longrightarrow> http_truth ext rule m q caller dctx facts = TFalse)
      \<and> (ev_logical ev = LD_Allow \<longrightarrow>
            (\<exists>p. caller = Some p
               \<and> principal_has_permission (map_of (pol_roles (cp_policy cp))) p (rr_permission r)))"
  using assms(1)
proof (cases rule: evaluate_cases)
  case (unknown b l)
  with assms(3) show ?thesis by (simp add: evaluation_defs)
next
  case (rules b m path caller host dctx)
  note inputs = request_inputsD [OF rules(1)]
  from assms(2) have hbr: "(required_host ctx \<noteq> None) = True" by simp
  from assms(2) inputs(5) have host: "host = Some h" by simp
  from rules(3) show ?thesis unfolding hbr
  proof (cases rule: decide_rules_cases)
    case unknown
    with assms(3) show ?thesis by (simp add: evaluation_defs)
  next
    case (direct d obs)
    with assms(3) match_direct_denies_Matched [OF direct(1)] show ?thesis by (simp add: evaluation_defs)
  next
    case (undecided obs k')
    from undecided(2) show ?thesis
    proof (cases rule: decide_undecided_cases)
      case default
      with assms(3) show ?thesis by (auto simp: evaluation_defs)
    next
      case (route i r)
      have ev: "ev_matched ev = Some (RR_Route i)"
        "ev_logical ev = LD_Allow \<longrightarrow> (\<exists>p. caller = Some p
           \<and> principal_has_permission (map_of (pol_roles (cp_policy cp))) p (rr_permission r))"
        using route(2) by (auto simp: evaluation_defs split: option.splits if_splits)
      have "method_matches (rr_methods r) m" "\<exists>host\<in>set (rr_hosts r). eq_ignore_ascii_case host h"
        using match_route_Some(3) [OF route(1)] host
        by (auto simp: route_admissible_def route_host_matches_def list_ex_iff split: if_splits)
      with ev inputs match_route_Some(1,2) [OF route(1)] undecided(1) [unfolded match_direct_denies_NoMatch]
      show ?thesis by (intro exI [of _ i] exI [of _ r] exI [of _ m] exI [of _ path]
          exI [of _ caller] exI [of _ dctx] conjI) (simp_all)
    qed
  qed
qed

theorem selected_upstream_needs_bound_route_witness:
  "\<exists>ev. evaluate_with_facts sample_digest sample_externals (sample_compiled [])
      (sample_context [] ''/v1/x'' HT_ProxyDispatch (Some sample_dispatch)) uncaptured = Inr ev
    \<and> ev_effect ev = PE_Allow
    \<and> (\<exists>i r. ev_matched ev = Some (RR_Route i) \<and> r = pol_routes (sample_policy []) ! i
          \<and> (\<exists>host\<in>set (rr_hosts r). eq_ignore_ascii_case host ''api.example''))"
proof -
  have host: "required_host (sample_context [] ''/v1/x'' HT_ProxyDispatch (Some sample_dispatch))
      = Some ''api.example''" by (simp add: required_host_def sample_defs)
  have cp: "cp_policy (sample_compiled []) = sample_policy []" by (simp add: sample_compiled_def assemble_def)
  from selected_upstream_needs_bound_route [OF sample_selected host]
  show ?thesis unfolding cp sample_selected by (auto simp: Evaluation_complete_def)
qed

text \<open>
  C2. Every allow is justified. A decision whose effect is to allow is complete and
  logically an allow, and it rests on one of three grounds: a direct allow rule that
  applies (and then no upstream host was selected); a route rule whose permission the judged
  principal holds; or the policy's default action, when no upstream host was selected and no
  direct rule may apply.
\<close>

theorem allow_is_justified:
  assumes "evaluate_with_facts de ext cp ctx facts = Inr ev"
    and "ev_effect ev = PE_Allow"
  shows "ev_complete ev \<and> ev_logical ev = LD_Allow
    \<and> (\<exists>m path caller dctx. pc_method ctx = Some m \<and> pc_path ctx = Some path
        \<and> judged_principal cp (pc_principal ctx) facts = Inr caller
        \<and> dispatch_context_of ctx = Some dctx
        \<and> ((\<exists>rule\<in>set (cp_matcher cp). \<exists>q\<in>set (spellings (canonical_path_of ctx) path).
               ev_matched ev = Some (RR_Direct (cr_rule_index rule)) \<and> cr_action rule = Allow
               \<and> http_truth ext rule m q caller dctx facts = TTrue \<and> required_host ctx = None)
           \<or> (\<exists>i p. ev_matched ev = Some (RR_Route i) \<and> i < length (pol_routes (cp_policy cp))
               \<and> caller = Some p \<and> method_matches (rr_methods (pol_routes (cp_policy cp) ! i)) m
               \<and> principal_has_permission (map_of (pol_roles (cp_policy cp))) p
                    (rr_permission (pol_routes (cp_policy cp) ! i)))
           \<or> (ev_matched ev = None \<and> pol_default_action (cp_policy cp) = DefaultAllow
               \<and> required_host ctx = None
               \<and> match_direct ext cp m path (canonical_path_of ctx) caller dctx False facts = NoMatch)))"
  using assms(1)
proof (cases rule: evaluate_cases)
  case (unknown b l)
  with assms(2) show ?thesis by (simp add: evaluation_defs)
next
  case (rules b m path caller host dctx)
  note inputs = request_inputsD [OF rules(1)]
  from rules(3) show ?thesis
  proof (cases rule: decide_rules_cases)
    case unknown
    with assms(2) show ?thesis by (simp add: evaluation_defs)
  next
    case (direct d obs)
    with assms(2) have d: "rd_action d = Allow" by (simp add: evaluation_defs split: RuleAction.splits)
    with direct(2) have "ev_complete ev" "ev_logical ev = LD_Allow"
      "ev_matched ev = Some (RR_Direct (rd_rule_index d))" by (simp_all add: evaluation_defs)
    moreover from d direct(1) have "required_host ctx = None"
      by (cases "required_host ctx") (auto dest: match_direct_denies_Matched)
    moreover obtain rule q where "rule \<in> set (cp_matcher cp)" "q \<in> set (spellings (canonical_path_of ctx) path)"
      "cr_action rule = Allow" "rd_rule_index d = cr_rule_index rule"
      "http_truth ext rule m q caller dctx facts = TTrue"
      using match_direct_Matched [OF direct(1)] d by auto
    ultimately have "\<exists>rule\<in>set (cp_matcher cp). \<exists>q\<in>set (spellings (canonical_path_of ctx) path).
        ev_matched ev = Some (RR_Direct (cr_rule_index rule)) \<and> cr_action rule = Allow
        \<and> http_truth ext rule m q caller dctx facts = TTrue \<and> required_host ctx = None"
      by (intro bexI [of _ rule] bexI [of _ q]) simp_all
    then show ?thesis using inputs \<open>ev_complete ev\<close> \<open>ev_logical ev = LD_Allow\<close> by blast
  next
    case (undecided obs k')
    from undecided(2) show ?thesis
    proof (cases rule: decide_undecided_cases)
      case default
      with assms(2) undecided(1) inputs show ?thesis
        by (auto simp: evaluation_defs split: if_splits)
    next
      case (route i r)
      with assms(2) obtain p where "ev_complete ev" "ev_logical ev = LD_Allow"
        "ev_matched ev = Some (RR_Route i)" "caller = Some p"
        "principal_has_permission (map_of (pol_roles (cp_policy cp))) p (rr_permission r)"
        by (auto simp: evaluation_defs split: option.splits if_splits)
      moreover have "method_matches (rr_methods r) m"
        using match_route_Some(3) [OF route(1)] by (simp add: route_admissible_def)
      ultimately show ?thesis using inputs match_route_Some(1,2) [OF route(1)] by auto
    qed
  qed
qed

theorem allow_is_justified_witness:
  "\<exists>ev. evaluate_with_facts sample_digest sample_externals (sample_compiled header_rules)
      (sample_context header_rules ''/h'' HT_Contextless None) uncaptured = Inr ev
    \<and> ev_effect ev = PE_Allow \<and> ev_complete ev \<and> ev_logical ev = LD_Allow"
  using allow_is_justified [OF sample_header(1)] sample_header(1) by (simp add: Evaluation_complete_def)

text \<open>
  C3. A deny rule that may apply is never overridden where it must not be. If the request
  has several equivalent spellings (an alias of a canonical path) or an upstream host was
  selected, then one direct deny rule that is not false on one spelling, be it true or
  undecided for want of facts, makes the decision block, whatever the order of the rules.
\<close>

theorem deny_is_never_overridden:
  assumes "evaluate_with_facts de ext cp ctx facts = Inr ev"
    and "pc_method ctx = Some m" "pc_path ctx = Some path"
    and "judged_principal cp (pc_principal ctx) facts = Inr caller"
    and "dispatch_context_of ctx = Some dctx"
    and "canonical_path_of ctx \<noteq> None \<or> required_host ctx \<noteq> None"
    and "rule \<in> set (cp_matcher cp)" "cr_action rule = Deny"
    and "q \<in> set (spellings (canonical_path_of ctx) path)"
    and "http_truth ext rule m q caller dctx facts \<noteq> TFalse"
  shows "ev_effect ev = PE_Block"
  using assms(1)
proof (cases rule: evaluate_cases)
  case (unknown b l)
  then show ?thesis by (simp add: evaluation_defs)
next
  case (rules b m' path' caller' host dctx')
  with assms(2-5) request_inputsD [OF rules(1)] have eq: "m' = m" "path' = path" "caller' = caller" "dctx' = dctx" by simp_all
  note settles = deny_settles [OF assms(7-10), of "required_host ctx \<noteq> None"]
  from rules(3) show ?thesis unfolding eq
  proof (cases rule: decide_rules_cases)
    case unknown
    then show ?thesis by (simp add: evaluation_defs)
  next
    case (direct d obs)
    with settles(2) assms(6) show ?thesis by (simp add: evaluation_defs)
  next
    case undecided
    with settles(1) assms(6) show ?thesis by simp
  qed
qed

theorem deny_is_never_overridden_witness:
  "\<exists>ev. evaluate_with_facts sample_digest sample_externals (sample_compiled alias_rules)
      (sample_context alias_rules ''/alias'' (HT_McpAlias ''/mcp'') None) uncaptured = Inr ev
    \<and> ev_effect ev = PE_Block"
proof -
  let ?ctx = "sample_context alias_rules ''/alias'' (HT_McpAlias ''/mcp'') None"
  let ?rule = "CompiledRule_new sample_externals 1 (sample_rule ''/mcp'' Deny None)"
  have "pc_method ?ctx = Some ''GET''" "pc_path ?ctx = Some ''/alias''"
    "judged_principal (sample_compiled alias_rules) (pc_principal ?ctx) uncaptured = Inr (Some sample_principal)"
    "dispatch_context_of ?ctx = Some dispatch_contextless"
    "canonical_path_of ?ctx \<noteq> None \<or> required_host ?ctx \<noteq> None"
    "?rule \<in> set (cp_matcher (sample_compiled alias_rules))" "cr_action ?rule = Deny"
    "''/mcp'' \<in> set (spellings (canonical_path_of ?ctx) ''/alias'')"
    "http_truth sample_externals ?rule ''GET'' ''/mcp'' (Some sample_principal) dispatch_contextless uncaptured
       \<noteq> TFalse"
    by (simp_all add: sample_defs alias_rules_def spellings_def eval_defs)
  from deny_is_never_overridden [OF sample_alias this] sample_alias show ?thesis by blast
qed

text \<open>
  C4. Fail closed. Every evaluation the kernel returns is well formed: it is complete
  unless its logical decision is indeterminate, an indeterminate one blocks, matches nothing
  and names the limitation, a complete one names none, and the effect is to allow exactly
  when the logical decision is to allow.
\<close>

theorem evaluation_fails_closed:
  assumes "evaluate_with_facts de ext cp ctx facts = Inr ev"
  shows "(ev_complete ev \<longleftrightarrow> ev_logical ev \<noteq> LD_Indeterminate)
    \<and> (\<not> ev_complete ev \<longrightarrow> ev_effect ev = PE_Block \<and> ev_matched ev = None \<and> ev_reason ev = Incomplete)
    \<and> (ev_complete ev \<longleftrightarrow> ev_limitation ev = None)
    \<and> (ev_effect ev = PE_Allow \<longleftrightarrow> ev_logical ev = LD_Allow)"
  using assms
proof (cases rule: evaluate_cases)
  case (unknown b l)
  then show ?thesis by (simp add: evaluation_defs)
next
  case (rules b m path caller host dctx)
  note inputs = request_inputsD [OF rules(1)]
  from rules(3) show ?thesis
  proof (cases rule: decide_rules_cases)
    case unknown
    then show ?thesis by (simp add: evaluation_defs)
  next
    case (direct d obs)
    then show ?thesis by (simp add: evaluation_defs split: RuleAction.splits)
  next
    case (undecided obs k')
    from undecided(2) show ?thesis
      by (cases rule: decide_undecided_cases) (auto simp: evaluation_defs split: if_splits option.splits)
  qed
qed

theorem evaluation_fails_closed_witness:
  "\<exists>ev. evaluate_with_facts sample_digest sample_externals (sample_compiled alias_rules)
      (sample_context alias_rules ''/alias'' (HT_McpAlias ''/mcp'') None) uncaptured = Inr ev
    \<and> (ev_complete ev \<longleftrightarrow> ev_logical ev \<noteq> LD_Indeterminate)"
  using evaluation_fails_closed [OF sample_alias] sample_alias by blast

text \<open>
  C5. Facts never overturn. If an evaluation is complete with some captured facts, then
  evaluating the same request with any further facts either is refused for their size or
  reaches the same decision in every field but the record of which facts were in use.
\<close>

theorem complete_decision_is_stable:
  assumes "facts_le f g"
    and "evaluate_with_facts de ext cp ctx f = Inr ev" "ev_complete ev"
    and "evaluate_with_facts de ext cp ctx g = Inr ev'"
  shows "ev' = ev\<lparr>ev_binding := ev_binding ev'\<rparr>"
  using assms(2)
proof (cases rule: evaluate_cases)
  case (unknown b l)
  with assms(3) show ?thesis by (simp add: evaluation_defs)
next
  case (rules b m path caller host dctx)
  let ?decide = "\<lambda>b facts. decide_rules NoStages_record ext cp b m path (canonical_path_of ctx) caller dctx
         (required_host ctx \<noteq> None) host facts ()"
  have inputs: "request_inputs cp ctx g m path caller host dctx"
    using rules(1) by (simp add: request_inputs_def judged_principal_stable [OF assms(1)])
  from assms(4) obtain b' where b': "fst (?decide b' g) = Inr ev'"
    unfolding evaluate_eq [OF inputs] by (auto split: sum.splits)
  have "fst (?decide b' f) = Inr (rebind b' ev)"
    using rules(3) by (simp add: decide_rules_rebind [of _ _ _ b' _ _ _ _ _ _ _ _ _ "with_facts b f"])
  with b' decide_rules_stable [OF assms(1) this] assms(3) have "ev' = rebind b' ev" by simp
  then show ?thesis by (simp add: rebind_def)
qed

theorem complete_decision_is_stable_witness:
  "\<exists>ev ev'. facts_le uncaptured header_facts
    \<and> evaluate_with_facts sample_digest sample_externals (sample_compiled header_rules)
        (sample_context header_rules ''/h'' HT_Contextless None) uncaptured = Inr ev
    \<and> evaluate_with_facts sample_digest sample_externals (sample_compiled header_rules)
        (sample_context header_rules ''/h'' HT_Contextless None) header_facts = Inr ev'
    \<and> ev' = ev\<lparr>ev_binding := ev_binding ev'\<rparr>"
  using complete_decision_is_stable [OF uncaptured_least sample_header(1) _ sample_header(2)]
    sample_header uncaptured_least
  by (simp add: Evaluation_complete_def)

text \<open>
  C31. The decision never fails internally. A request is refused only by the
  validation of its context and facts or by the encoding of its binding; once these succeed the kernel returns an
  evaluation, so the internal-invariant error is unreachable.
\<close>

theorem decision_errors_are_validation_errors:
  "(evaluate_with_facts de ext cp ctx facts = Inl e) = (validated_binding de cp ctx facts = Inl e)"
proof (cases "validated_binding de cp ctx facts")
  case (Inl e')
  then show ?thesis by (simp add: evaluate_with_facts_def decide_def validated_binding_def)
next
  case (Inr b)
  have "\<exists>ev. evaluate_with_facts de ext cp ctx facts = Inr ev"
  proof (cases "\<exists>m path caller host dctx. request_inputs cp ctx facts m path caller host dctx")
    case True
    then obtain m path caller host dctx where "request_inputs cp ctx facts m path caller host dctx" by blast
    from evaluate_eq [OF this] Inr show ?thesis by (simp add: decide_rules_total)
  next
    case False
    from evaluate_incomplete [OF this Inr] show ?thesis by blast
  qed
  with Inr show ?thesis by auto
qed

text \<open>
  C30. Recording is faithful. Whatever the sink does with the stages, it receives the very
  sequence a collecting sink receives and the decision is the same; that sequence has its stages in
  strictly increasing order, so each kind at most once, and never more than six of them.
\<close>

theorem stages_are_ordered_and_inert:
  fixes push :: "'k \<Rightarrow> HttpStage \<Rightarrow> 'k"
  shows "\<exists>ev ss. decide de ext cp ctx facts Vec_record [] = (ev, ss)
      \<and> decide de ext cp ctx facts push k = (ev, foldl push k ss)
      \<and> evaluate_with_facts de ext cp ctx facts = ev
      \<and> sorted_wrt (<) (map stage_rank ss) \<and> length ss \<le> 6"
proof -
  obtain ev ss where collect: "decide de ext cp ctx facts Vec_record [] = (ev, ss)" by fastforce
  have "decide de ext cp ctx facts push k = (ev, foldl push k ss)"
    using decide_hom [OF replay.sink_hom_axioms, of de ext cp ctx facts push k "[]"] collect by simp
  moreover have "evaluate_with_facts de ext cp ctx facts = ev"
    using decide_hom [OF forget.sink_hom_axioms, of de ext cp ctx facts "[]"] collect
    by (simp add: evaluate_with_facts_def)
  moreover have "map stage_rank ss \<in> {[], [0], [0, 1], [0, 1, 2], [0, 1, 2, 3], [0, 1, 2, 3, 4],
      [0, 1, 2, 3, 4, 5], [0, 1, 2, 3, 4, 6]}"
    using decide_stages [of "[]" de ext cp ctx facts] collect by (simp add: extends_def)
  then have "sorted_wrt (<) (map stage_rank ss) \<and> length (map stage_rank ss) \<le> 6" by auto
  ultimately show ?thesis using collect by simp
qed

end
