(* ===== verification/Binding_Properties.thy ===== *)
theory Binding_Properties
  imports Http_Properties
begin

text \<open>
  What a decision is bound to: the digest frame separates its parts, the canonical text of a
  policy does not depend on member order, and an evaluation is reused only for
  the request it was made for.
\<close>

section \<open>Digest frames\<close>

lemma length_be_bytes8 [simp]: "length (be_bytes8 n) = 8"
  by (simp add: be_bytes8_def)

lemma base256_digits:
  assumes "n < 256 ^ k" "m < 256 ^ k" "\<forall>i<k. n div 256 ^ i mod 256 = m div 256 ^ i mod (256 :: nat)"
  shows "n = m"
  using assms
proof (induction k arbitrary: n m)
  case (Suc k)
  have "n div 256 ^ Suc i mod 256 = (n div 256) div 256 ^ i mod 256" for n i :: nat
    by (simp add: div_mult2_eq)
  then have "\<forall>i<k. (n div 256) div 256 ^ i mod 256 = (m div 256) div 256 ^ i mod 256"
    using Suc.prems(3) by (metis Suc_less_eq)
  moreover have "n div 256 < 256 ^ k" "m div 256 < 256 ^ k" using Suc.prems(1,2) by (simp_all add: less_mult_imp_div_less mult.commute)
  ultimately have "n div 256 = m div 256" by (rule Suc.IH [rotated 2])
  moreover have "n mod 256 = m mod 256" using Suc.prems(3) by (metis div_by_1 power_0 zero_less_Suc)
  ultimately show ?case by (metis div_mult_mod_eq)
qed simp

lemma be_bytes8_inj:
  assumes "be_bytes8 n = be_bytes8 m" "n < 2 ^ 64" "m < 2 ^ 64"
  shows "n = m"
proof (rule base256_digits [of _ 8])
  have eq: "char_of (n div 256 ^ i mod 256) = (char_of (m div 256 ^ i mod 256) :: char)" if "i < 8" for i
  proof -
    have "i \<in> set [7, 6, 5, 4, 3, 2, 1, 0]" using that by auto
    with assms(1) show ?thesis unfolding be_bytes8_def map_eq_conv by blast
  qed
  have "n div 256 ^ i mod 256 = m div 256 ^ i mod 256" if "i < 8" for i
    using arg_cong [OF eq [OF that], of "of_char :: char \<Rightarrow> nat"] by simp
  then show "\<forall>i<8. n div 256 ^ i mod 256 = m div 256 ^ i mod 256" by blast
qed (use assms in simp_all)

lemma frame_part_inj:
  assumes "frame_part a @ x = frame_part b @ y" "length a < 2 ^ 64" "length b < 2 ^ 64"
  shows "a = b \<and> x = y"
proof -
  from assms have "be_bytes8 (length a) = be_bytes8 (length b)" and rest: "a @ x = b @ y"
    by (simp_all add: frame_part_def append_eq_append_conv_if split: if_splits)
  then have "length a = length b" using assms be_bytes8_inj by blast
  with rest show ?thesis by simp
qed

text \<open>
  Digest frames separate domains. Two frames are the same bytes only if their kinds,
  media types, versions and payloads are each the same, for parts shorter than
  \<open>2 ^ 64\<close> bytes: no shifting of bytes between the parts, and no payload of another kind,
  yields a frame that hashes alike.
\<close>

theorem digest_frame_injective:
  assumes "digest_frame kind media ver payload = digest_frame kind' media' ver' payload'"
    and "\<forall>part\<in>{kind, media, ver, payload, kind', media', ver', payload'}. length part < 2 ^ 64"
  shows "kind = kind' \<and> media = media' \<and> ver = ver' \<and> payload = payload'"
proof -
  have frames: "frame_part kind @ frame_part media @ frame_part ver @ frame_part payload @ []
      = frame_part kind' @ frame_part media' @ frame_part ver' @ frame_part payload' @ []"
    using assms(1) by (simp add: digest_frame_def)
  from frame_part_inj [OF frames] assms(2)
  have 1: "kind = kind'" "frame_part media @ frame_part ver @ frame_part payload @ []
      = frame_part media' @ frame_part ver' @ frame_part payload' @ []" by simp_all
  from frame_part_inj [OF 1(2)] assms(2)
  have 2: "media = media'" "frame_part ver @ frame_part payload @ []
      = frame_part ver' @ frame_part payload' @ []" by simp_all
  from frame_part_inj [OF 2(2)] assms(2)
  have 3: "ver = ver'" "frame_part payload @ [] = frame_part payload' @ []" by simp_all
  from frame_part_inj [OF 3(2)] assms(2) 1 2 3 show ?thesis by simp
qed

theorem digest_frame_injective_witness:
  "(''ab'' = ''ab'' \<and> ''c'' = ''c'' \<and> ''1'' = ''1'' \<and> ([] :: string) = [])
   \<and> digest_frame ''ab'' ''c'' ''1'' [] \<noteq> digest_frame ''a'' ''bc'' ''1'' []"
proof -
  have "''ab'' = ''ab'' \<and> ''c'' = ''c'' \<and> ''1'' = ''1'' \<and> ([] :: string) = []"
    by (rule digest_frame_injective [OF refl]) simp
  moreover have "digest_frame ''ab'' ''c'' ''1'' [] \<noteq> digest_frame ''a'' ''bc'' ''1'' []"
    using digest_frame_injective [of "''ab''" "''c''" "''1''" "[]" "''a''" "''bc''" "''1''" "[]"] by auto
  ultimately show ?thesis by simp
qed

section \<open>Canonical text\<close>

lemma map_fst_values: "map fst (map (\<lambda>(k, v). (k, f v)) xs) = map fst xs"
  by (induction xs) auto

text \<open>
  The canonical text of an object, over which a policy's digest is taken, does not
  depend on the order of its members.
\<close>

theorem canonical_text_ignores_member_order:
  assumes "set members = set members'" "distinct (map fst members)" "distinct (map fst members')"
  shows "write_canonical de (JObject members) = write_canonical de (JObject members')"
proof -
  let ?text = "map (\<lambda>(k, v). (k, write_canonical de v))"
  have "map_of (?text members) = map_of (?text members')"
    using assms by (subst map_of_inject_set) (simp_all only: map_fst_values set_map)
  moreover have "sort (map fst members) = sort (map fst members')"
    using assms by (intro sorted_distinct_set_unique) simp_all
  ultimately show ?thesis by simp
qed

section \<open>Reuse\<close>

text \<open>
  A principal fact holds an identity: only the fields the binding covers.
\<close>

definition identity_only :: "PrincipalFact \<Rightarrow> bool" where
  "identity_only pf =
     (case pf of PF_Authenticated p \<Rightarrow> PrincipalIdentity_from_principal p = p | _ \<Rightarrow> True)"

lemma json_opt_inj [simp]: "json_opt a = json_opt b \<longleftrightarrow> a = b"
  by (cases a; cases b) (simp_all add: json_opt_def)

lemma target_json_inj: "target_json a = target_json b \<Longrightarrow> a = b"
  by (cases a; cases b) (simp_all add: target_json_def)

lemma binding_method_inj: "binding_method a = binding_method b \<Longrightarrow> a = b"
  by (cases a; cases b) simp_all

lemma map_JString_inj: "map JString xs = map JString ys \<longleftrightarrow> xs = ys"
  by (rule inj_map_eq_map) (simp add: inj_def)

lemma principal_json_inj:
  assumes "principal_json a = principal_json b" "identity_only a" "identity_only b"
  shows "a = b"
proof (cases a)
  case (PF_Authenticated p)
  with assms(1) obtain q where b: "b = PF_Authenticated q"
    by (cases b) (simp_all add: principal_json_def)
  have "PrincipalIdentity_from_principal p = PrincipalIdentity_from_principal q"
    using assms(1) PF_Authenticated b
    by (auto simp: principal_json_def PrincipalIdentity_from_principal_def map_JString_inj
        dest: binding_method_inj)
  with assms(2,3) PF_Authenticated b show ?thesis by (simp add: identity_only_def)
qed (use assms(1) in \<open>cases b; simp add: principal_json_def\<close>)+

lemma host_json_inj: "host_json a = host_json b \<Longrightarrow> a = b"
  by (cases a; cases b) (simp_all add: host_json_def)

lemma dispatch_json_inj: "dispatch_json a = dispatch_json b \<Longrightarrow> a = b"
  by (cases a; cases b) (auto simp: dispatch_json_def)

lemma context_json_inj:
  assumes "context_json a = context_json b" "pc_version a = pc_version b" "pc_snapshot a = pc_snapshot b"
    "identity_only (pc_principal a)" "identity_only (pc_principal b)"
  shows "a = b"
proof -
  have "pc_target a = pc_target b" "pc_method a = pc_method b" "pc_path a = pc_path b"
    "pc_principal a = pc_principal b" "pc_request_host a = pc_request_host b"
    "pc_dispatch a = pc_dispatch b"
    using assms by (auto simp: context_json_def dest: target_json_inj principal_json_inj host_json_inj
        dispatch_json_inj)
  with assms(2,3) show ?thesis by (intro PolicyEvaluationContext.equality) simp_all
qed

lemma digest_frame_payload:
  "digest_frame kind media ver a = digest_frame kind media ver b \<Longrightarrow> a = b"
  by (simp add: digest_frame_def frame_part_def append_eq_append_conv_if split: if_splits)

lemma evaluate_binding:
  assumes "evaluate_with_facts de ext cp ctx facts = Inr ev"
  shows "\<exists>b. validated_binding de cp ctx facts = Inr b \<and> ev_binding ev = with_facts b facts"
proof (cases "\<exists>m path caller host dctx. request_inputs cp ctx facts m path caller host dctx")
  case True
  then obtain m path caller host dctx where "request_inputs cp ctx facts m path caller host dctx" by blast
  from evaluate_eq [OF this] assms obtain b where b: "validated_binding de cp ctx facts = Inr b"
    and "fst (decide_rules NoStages_record ext cp (with_facts b facts) m path
                   (canonical_path_of ctx) caller dctx (required_host ctx \<noteq> None) host facts ()) = Inr ev"
    by (auto split: sum.splits)
  then have "ev = rebind (with_facts b facts) ev"
    using arg_cong [where f = fst, OF decide_rules_rebind [of NoStages_record ext cp "with_facts b facts" m
        path "canonical_path_of ctx" caller dctx "required_host ctx \<noteq> None" host facts "()" "with_facts b facts"]]
    by simp
  then have "ev_binding ev = with_facts b facts" by (metis rebind_fields(2))
  with b show ?thesis by blast
next
  case False
  obtain b where b: "validated_binding de cp ctx facts = Inr b"
    using assms
    by (auto simp: evaluate_with_facts_def decide_def validated_binding_def split: sum.splits)
  from evaluate_incomplete [OF False b, of ext] assms b show ?thesis
    by (auto simp: Evaluation_indeterminate_def)
qed

text \<open>The bytes a context is hashed as.\<close>

definition context_frame :: "digest_env \<Rightarrow> PolicyEvaluationContext \<Rightarrow> string option" where
  "context_frame de ctx =
     map_option (digest_frame ''context'' ''application/json'' (dec_of_nat CONTEXT_VERSION))
       (de_to_vec de (context_json ctx))"

text \<open>
  C16. Reuse is sound. If an evaluation made for one context is reusable for another, the two
  contexts are the same request in every field, and no captured fact was used. The hash and the
  encoder are assumed not to collide on the two contexts at hand.
\<close>

theorem reuse_only_for_the_same_request:
  assumes "evaluate_with_facts de ext cp ctx facts = Inr ev"
    and "Evaluation_reusable_for de ev ctx'"
    and "identity_only (pc_principal ctx)" "identity_only (pc_principal ctx')"
    and no_collision: "map_option (de_sha256 de) (context_frame de ctx)
             = map_option (de_sha256 de) (context_frame de ctx') \<Longrightarrow>
           context_frame de ctx = context_frame de ctx'"
    and encoder: "de_to_vec de (context_json ctx) = de_to_vec de (context_json ctx') \<Longrightarrow>
           context_json ctx = context_json ctx'"
  shows "ctx' = ctx \<and> \<not> any_captured facts"
proof -
  from evaluate_binding [OF assms(1)] obtain b where
    b: "validated_binding de cp ctx facts = Inr b" "ev_binding ev = with_facts b facts" by blast
  then have valid: "context_validate ctx (cp_snapshot cp) = Inr ()" "context_binding de ctx = Inr b"
    by (auto simp: validated_binding_def and_try_def split: sum.splits)
  then have snap: "pc_snapshot ctx = cp_snapshot cp" "pc_version ctx = CONTEXT_VERSION"
    by (auto simp: context_validate_def split: if_splits)
  from assms(2) have ctx': "context_validate ctx' (ib_snapshot (with_facts b facts)) = Inr ()"
    "context_binding de ctx' = Inr (with_facts b facts)"
    by (auto simp: Evaluation_reusable_for_def b(2) split: sum.splits)
  from valid(2) obtain bytes where bytes: "de_to_vec de (context_json ctx) = Some bytes"
    "ib_snapshot b = pc_snapshot ctx"
    "ib_context_digest b = framed_digest de ''context'' ''application/json'' (dec_of_nat CONTEXT_VERSION) bytes"
    by (auto simp: context_binding_def split: option.splits)
  from ctx'(2) obtain bytes' where bytes': "de_to_vec de (context_json ctx') = Some bytes'"
    "ib_context_digest b = framed_digest de ''context'' ''application/json'' (dec_of_nat CONTEXT_VERSION) bytes'"
    and facts: "FactsUse_of facts = FU_Uncaptured"
    by (cases b) (auto simp: context_binding_def with_facts_def split: option.splits)
  have "bytes = bytes'"
    using bytes bytes' no_collision digest_frame_payload
    by (simp add: context_frame_def framed_digest_def)
  then have "context_json ctx' = context_json ctx" using bytes(1) bytes'(1) encoder by simp
  moreover have "pc_snapshot ctx' = pc_snapshot ctx" "pc_version ctx' = pc_version ctx"
    using ctx'(1) snap bytes(2) by (auto simp: context_validate_def with_facts_def split: if_splits)
  ultimately have "ctx' = ctx" using context_json_inj assms(3,4) by blast
  with facts show ?thesis by (simp add: FactsUse_of_def split: if_splits)
qed

theorem reuse_only_for_the_same_request_witness:
  "\<exists>ev. evaluate_with_facts sample_digest sample_externals (sample_compiled alias_rules)
      (sample_context alias_rules ''/alias'' (HT_McpAlias ''/mcp'') None) uncaptured = Inr ev
    \<and> Evaluation_reusable_for sample_digest ev
        (sample_context alias_rules ''/alias'' (HT_McpAlias ''/mcp'') None)
    \<and> \<not> any_captured uncaptured"
proof -
  let ?ctx = "sample_context alias_rules ''/alias'' (HT_McpAlias ''/mcp'') None"
  have "identity_only (pc_principal ?ctx)"
    by (simp add: identity_only_def sample_defs PrincipalIdentity_from_principal_def)
  moreover have "Evaluation_reusable_for sample_digest
      (Evaluation_complete (sample_binding alias_rules uncaptured)
       LD_Deny PE_Block MatchedRule (Some (RR_Direct 1)) None) ?ctx"
    by (simp add: sample_defs alias_rules_def uncaptured_def eval_defs)
  ultimately show ?thesis
    using reuse_only_for_the_same_request [OF sample_alias] sample_alias by blast
qed

section \<open>Rate lanes\<close>

lemma enumerate_conv: "List.enumerate 0 xs = map (\<lambda>i. (i, xs ! i)) [0..<length xs]"
  by (rule nth_equalityI) (simp_all add: nth_enumerate_eq)

lemma find_indexed:
  "find (\<lambda>(_, x). P x) (map (\<lambda>i. (i, xs ! i)) is)
   = (case filter (\<lambda>i. P (xs ! i)) is of [] \<Rightarrow> None | i # _ \<Rightarrow> Some (i, xs ! i))"
  by (induction "is") auto

lemma select_override_cases:
  "select_override cp p m path =
     (case filter (\<lambda>i. rate_rule_matches p m path (pol_rate_limits (cp_policy cp) ! i))
             [0..<length (pol_rate_limits (cp_policy cp))] of
        [] \<Rightarrow> None
      | i # _ \<Rightarrow> Some (i, pol_rate_limits (cp_policy cp) ! i))"
  by (simp add: select_override_def enumerate_conv find_indexed)

lemma rate_lane_outcome:
  assumes "fst (select_rate_lane_with_facts de cp ctx facts push k) = Inr sel"
    and "pc_method ctx = Some m" "pc_path ctx = Some path" "pc_principal ctx = PF_Authenticated p"
  shows "rls_outcome sel =
     (case judged_principal cp (pc_principal ctx) facts of
        Inl _ \<Rightarrow> RL_Indeterminate MissingMatcherFact
      | Inr None \<Rightarrow> NoOverride
      | Inr (Some q) \<Rightarrow>
          (case select_override cp q m path of
             Some (index, rule) \<Rightarrow>
               Override index \<lparr>lim_requests_per_second = rl_requests_per_second rule, lim_burst = rl_burst rule\<rparr>
           | None \<Rightarrow> NoOverride))"
  using assms
  by (auto simp: select_rate_lane_with_facts_def missing_rate_fact_def Let_def
      split: sum.splits option.splits Limitation.splits)

text \<open>
  The rate override of a request is the first rate rule in document order whose
  principal matcher, methods and path pattern all accept it, with that rule's
  limits; an anonymous caller never gets one, whatever the rules.
\<close>

theorem rate_lane_first_override:
  assumes "select_rate_lane_with_facts de cp ctx facts push k = (Inr sel, k')"
    and "pc_method ctx = Some m" "pc_path ctx = Some path"
    and "judged_principal cp (pc_principal ctx) facts = Inr caller"
  shows "rls_outcome sel = (case caller of
       None \<Rightarrow> NoOverride
     | Some p \<Rightarrow>
         (case filter (\<lambda>i. rate_rule_matches p m path (pol_rate_limits (cp_policy cp) ! i))
                 [0..<length (pol_rate_limits (cp_policy cp))] of
            [] \<Rightarrow> NoOverride
          | i # _ \<Rightarrow> Override i
              \<lparr>lim_requests_per_second = rl_requests_per_second (pol_rate_limits (cp_policy cp) ! i),
               lim_burst = rl_burst (pol_rate_limits (cp_policy cp) ! i)\<rparr>))"
proof -
  have "missing_rate_fact ctx = None"
    using assms(2-4) by (auto simp: missing_rate_fact_def judged_principal_def)
  then show ?thesis
    using assms
    by (auto simp: select_rate_lane_with_facts_def select_override_cases Let_def
        split: sum.splits option.splits list.splits)
qed

definition rated_policy :: "unit CompiledPolicy" where
  "rated_policy = (sample_compiled [])
     \<lparr>cp_policy := (sample_policy [])\<lparr>pol_rate_limits :=
        [\<lparr>rl_id = None, rl_principal = anyone, rl_methods = [''POST''], rl_path = None,
          rl_requests_per_second = Finite 1, rl_burst = 1\<rparr>,
         \<lparr>rl_id = None, rl_principal = anyone, rl_methods = [''GET''], rl_path = Some ''/h'',
          rl_requests_per_second = Finite 2, rl_burst = 5\<rparr>]\<rparr>\<rparr>"

theorem rate_lane_first_override_witness:
  "\<exists>sel. fst (select_rate_lane_with_facts sample_digest rated_policy
        (sample_context [] ''/h'' HT_Contextless None) uncaptured Vec_record []) = Inr sel
    \<and> rls_outcome sel = Override 1 \<lparr>lim_requests_per_second = Finite 2, lim_burst = 5\<rparr>"
proof -
  let ?ctx = "sample_context [] ''/h'' HT_Contextless None"
  let ?limits = "pol_rate_limits (cp_policy rated_policy)"
  obtain sel k' where sel: "select_rate_lane_with_facts sample_digest rated_policy ?ctx uncaptured
      Vec_record [] = (Inr sel, k')"
    by (simp add: rated_policy_def sample_defs eval_defs)
  have "pc_method ?ctx = Some ''GET''" "pc_path ?ctx = Some ''/h''"
    "judged_principal rated_policy (pc_principal ?ctx) uncaptured = Inr (Some sample_principal)"
    by (simp_all add: rated_policy_def sample_defs eval_defs)
  moreover have "filter (\<lambda>i. rate_rule_matches sample_principal ''GET'' ''/h'' (?limits ! i))
      [0..<length ?limits] = [1]"
    by (simp add: rated_policy_def sample_defs eval_defs upt_rec)
  ultimately have "rls_outcome sel = Override 1 \<lparr>lim_requests_per_second = Finite 2, lim_burst = 5\<rparr>"
    using rate_lane_first_override [OF sel, of "''GET''" "''/h''" "Some sample_principal"]
    by (simp add: rated_policy_def)
  with sel show ?thesis by simp
qed

end
