(* ===== verification/Tool_Eval.thy ===== *)
theory Tool_Eval
  imports Policy_Eval
begin

text \<open>
  The tool lane of the policy kernel (\<open>gateway/src/policy_eval/tools.rs\<close>): the decision on
  a tool operation and on an enum-source refresh. \<open>evaluate_tool_with_facts\<close> is cut where the
  source branches: the facts the operation reads, the named entry, and the rules.
  The static fields of a \<open>ToolEvaluation\<close> (domain, versions, unevaluated lanes) are constants and
  are left out.
\<close>

definition TOOL_CONTEXT_VERSION :: nat where "TOOL_CONTEXT_VERSION = 1"
definition TOOL_SEMANTICS_VERSION :: string where "TOOL_SEMANTICS_VERSION = ''gg-tool-policy-v1''"

datatype ToolOperation = Invocation | Visibility | PolicyEligibility | CompositeLeaf | RenderedHttp

record ToolEvaluationContext =
  tc_version :: nat
  tc_snapshot :: ResourceSnapshot
  tc_operation :: ToolOperation
  tc_tool_name :: "string option"
  tc_principal :: PrincipalFact
  tc_method :: "string option"
  tc_path :: "string option"

section \<open>The tool context\<close>

fun escapes_valid :: "string \<Rightarrow> bool" where
  "escapes_valid [] = True"
| "escapes_valid (c # rest) =
     (if c = CHR ''%'' then
        (case rest of
           a # b # tail \<Rightarrow> is_ascii_hexdigit a \<and> is_ascii_hexdigit b \<and> escapes_valid tail
         | _ \<Rightarrow> False)
      else escapes_valid rest)"

definition validate_rendered_http_path :: "string \<Rightarrow> (EvaluationError, unit) result" where
  "validate_rendered_http_path path =
     (if length path > MAX_REQUEST_PATH_BYTES then Inl ContextTooLarge
      else if \<not> escapes_valid path then Inl MalformedPath
      else if \<not> starts_with path ''/''
              \<or> list_ex (\<lambda>c. c = CHR ''?'' \<or> c = CHR ''#'' \<or> c = CHR 0x5C) path
              \<or> list_ex (\<lambda>b. byte b \<le> 32 \<or> byte b = 127) path
              \<or> str_contains path ''//''
              \<or> list_ex (\<lambda>segment. segment = ''.'' \<or> segment = ''..'') (str_split CHR ''/'' path)
      then Inl MalformedPath
      else Inr ())"

definition tool_context_validate ::
    "ToolEvaluationContext \<Rightarrow> ResourceSnapshot \<Rightarrow> (EvaluationError, unit) result" where
  "tool_context_validate ctx expected =
     (if tc_version ctx \<noteq> TOOL_CONTEXT_VERSION then Inl UnsupportedContextVersion
      else if tc_snapshot ctx \<noteq> expected then Inl SnapshotMismatch
      else if (case tc_tool_name ctx of None \<Rightarrow> False | Some s \<Rightarrow> length s > MAX_TOOL_NAME_BYTES)
              \<or> (case tc_method ctx of None \<Rightarrow> False | Some m \<Rightarrow> length m > MAX_REQUEST_METHOD_BYTES)
      then Inl ContextTooLarge
      else if tc_operation ctx \<noteq> RenderedHttp \<and> (tc_method ctx \<noteq> None \<or> tc_path ctx \<noteq> None)
      then Inl InconsistentContext
      else and_try (case tc_path ctx of
                      None \<Rightarrow> Inr ()
                    | Some path \<Rightarrow> if tc_operation ctx = RenderedHttp then validate_rendered_http_path path
                                   else validate_path path)
          (and_try (validate_principal_fact (tc_principal ctx))
                   (if tc_operation ctx = PolicyEligibility \<and> tc_principal ctx = PF_Anonymous
                    then Inl InconsistentContext else Inr ())))"

record ToolBinding =
  tb_snapshot :: ResourceSnapshot
  tb_context_digest :: string
  tb_facts :: FactsUse

fun operation_name :: "ToolOperation \<Rightarrow> string" where
  "operation_name Invocation = ''invocation''"
| "operation_name Visibility = ''visibility''"
| "operation_name PolicyEligibility = ''policy_eligibility''"
| "operation_name CompositeLeaf = ''composite_leaf''"
| "operation_name RenderedHttp = ''rendered_http''"

definition tool_context_json :: "ToolEvaluationContext \<Rightarrow> json" where
  "tool_context_json ctx =
     JArray [JString TOOL_SEMANTICS_VERSION, JNumber (dec_of_nat (tc_version ctx)),
             JString (operation_name (tc_operation ctx)), json_opt (tc_tool_name ctx),
             principal_json (tc_principal ctx), json_opt (tc_method ctx), json_opt (tc_path ctx)]"

definition tool_context_binding ::
    "digest_env \<Rightarrow> ToolEvaluationContext \<Rightarrow> (EvaluationError, ToolBinding) result" where
  "tool_context_binding de ctx =
     (case de_to_vec de (tool_context_json ctx) of
        None \<Rightarrow> Inl TraceEncoding
      | Some bytes \<Rightarrow>
          Inr \<lparr>tb_snapshot = tc_snapshot ctx,
               tb_context_digest = framed_digest de ''gg.tool-context'' ''application/json''
                                     TOOL_SEMANTICS_VERSION bytes,
               tb_facts = FU_Uncaptured\<rparr>)"

section \<open>The tool evaluation\<close>

datatype ToolReason =
    UnknownTool | Disabled | RoleNotAllowed | TR_MatchedRule | Allowed | NotInPolicy | PolicyDisabled
  | PrincipalNotEligible | PolicyDenied | Eligible | NoHttpRule | TR_Incomplete

datatype ToolLimitation = TL_ToolName | TL_Principal | TL_Method | TL_Path | TL_MatcherFact

datatype ToolEntry = Entry_Absent | Entry_Disabled | Entry_Enabled
datatype IdentityCheck = Admitted | Refused
datatype ToolRules = Rules_NoMatch | Rules_Matched DirectMatch | Rules_Undetermined

datatype ToolStage =
    TS_Facts "ToolLimitation option"
  | TS_Entry ToolEntry
  | TS_Identity IdentityCheck
  | TS_Rules ToolRules

record ToolEvaluation =
  te_binding :: ToolBinding
  te_operation :: ToolOperation
  te_logical :: LogicalDecision
  te_effect :: PolicyEffect
  te_reason :: ToolReason
  te_matched :: "RuleReference option"
  te_complete :: bool
  te_limitation :: "ToolLimitation option"

definition te_deny :: "ToolReason \<Rightarrow> ToolEvaluation \<Rightarrow> ToolEvaluation" where
  "te_deny reason ev = ev\<lparr>te_logical := LD_Deny, te_effect := PE_Block, te_reason := reason\<rparr>"

definition te_incomplete :: "ToolLimitation \<Rightarrow> ToolEvaluation \<Rightarrow> ToolEvaluation" where
  "te_incomplete limitation ev =
     ev\<lparr>te_logical := LD_Indeterminate, te_effect := PE_Block, te_reason := TR_Incomplete,
        te_complete := False, te_limitation := Some limitation\<rparr>"

definition te_start :: "ToolBinding \<Rightarrow> ToolOperation \<Rightarrow> ToolEvaluation" where
  "te_start binding operation =
     \<lparr>te_binding = binding, te_operation = operation, te_logical = LD_Allow, te_effect = PE_Allow,
      te_reason = Allowed, te_matched = None, te_complete = True, te_limitation = None\<rparr>"

definition tool_principal_matches :: "ToolPolicyEntry \<Rightarrow> Principal option \<Rightarrow> bool" where
  "tool_principal_matches tool caller =
     (if tp_allowed_roles tool = [] \<and> tp_issuers tool = [] \<and> tp_auth_methods tool = [] then True
      else (case caller of
              None \<Rightarrow> False
            | Some p \<Rightarrow>
                principal_identity_matches (tp_issuers tool) (tp_auth_methods tool) p
                \<and> (tp_allowed_roles tool = []
                   \<or> list_ex (\<lambda>role. role \<in> set (roles p)) (tp_allowed_roles tool))))"

section \<open>The decision\<close>

text \<open>
  The facts the operation reads: the caller it is judged by, or the first fact missing.
\<close>

definition tool_caller ::
    "'net CompiledPolicy \<Rightarrow> ToolEvaluationContext \<Rightarrow> PolicyFacts
       \<Rightarrow> (ToolLimitation, Principal option) result" where
  "tool_caller cp ctx facts =
     (case (tc_tool_name ctx, tc_principal ctx) of
        (None, _) \<Rightarrow> Inl TL_ToolName
      | (Some _, PF_Missing) \<Rightarrow>
          if tc_operation ctx \<noteq> CompositeLeaf then Inl TL_Principal else Inr None
      | (Some _, PF_Authenticated identity) \<Rightarrow>
          (case effective_principal cp identity facts of
             Some p \<Rightarrow> Inr (Some p)
           | None \<Rightarrow> Inl TL_MatcherFact)
      | (Some _, PF_Anonymous) \<Rightarrow> Inr None)"

definition tool_inputs ::
    "'net CompiledPolicy \<Rightarrow> ToolEvaluationContext \<Rightarrow> PolicyFacts
       \<Rightarrow> (ToolLimitation, Principal option) result" where
  "tool_inputs cp ctx facts =
     (case tool_caller cp ctx facts of
        Inl limitation \<Rightarrow> Inl limitation
      | Inr caller \<Rightarrow>
          if tc_operation ctx = RenderedHttp then
            (if tc_method ctx = None then Inl TL_Method
             else if tc_path ctx = None then Inl TL_Path
             else Inr caller)
          else Inr caller)"

definition is_preview :: "ToolOperation \<Rightarrow> bool" where
  "is_preview operation = (operation = Visibility \<or> operation = PolicyEligibility)"

text \<open>The scan's answer, applied to the result so far.\<close>

definition apply_decision :: "RuleDecision option \<Rightarrow> bool \<Rightarrow> ToolEvaluation \<Rightarrow> ToolEvaluation" where
  "apply_decision decision preview result =
     (case decision of
        None \<Rightarrow> result
      | Some d \<Rightarrow>
          let result = result\<lparr>te_matched := Some (RR_Direct (rd_rule_index d))\<rparr> in
          if preview then (if rd_action d = Deny then te_deny PolicyDenied result else result)
          else
            let result = result\<lparr>te_reason := TR_MatchedRule\<rparr> in
            (case rd_action d of
               Allow \<Rightarrow> result
             | Deny \<Rightarrow> te_deny TR_MatchedRule result
             | Shadow \<Rightarrow> result\<lparr>te_logical := LD_Deny, te_effect := PE_Observe\<rparr>))"

definition tool_rules ::
    "('k \<Rightarrow> ToolStage \<Rightarrow> 'k) \<Rightarrow> RuleScan \<Rightarrow> bool \<Rightarrow> ToolEvaluation \<Rightarrow> 'k
       \<Rightarrow> (EvaluationError, ToolEvaluation) result \<times> 'k" where
  "tool_rules push scan preview result k =
     (case scan of
        Undetermined _ \<Rightarrow>
          (Inr (te_incomplete TL_MatcherFact result), push k (TS_Rules Rules_Undetermined))
      | Matched d \<Rightarrow>
          (Inr (apply_decision (Some d) preview result),
           push k (TS_Rules (Rules_Matched \<lparr>dm_rule = rd_rule_index d, dm_action = rd_action d\<rparr>)))
      | NoMatch \<Rightarrow> (Inr (apply_decision None preview result), push k (TS_Rules Rules_NoMatch)))"

definition tool_entry ::
    "('k \<Rightarrow> ToolStage \<Rightarrow> 'k) \<Rightarrow> 'net externals \<Rightarrow> 'net CompiledPolicy \<Rightarrow> ToolOperation \<Rightarrow> string
       \<Rightarrow> Principal option \<Rightarrow> PolicyFacts \<Rightarrow> ToolEvaluation \<Rightarrow> 'k
       \<Rightarrow> (EvaluationError, ToolEvaluation) result \<times> 'k" where
  "tool_entry push ext cp operation name caller facts result k =
     (let preview = is_preview operation in
      case map_of (pol_tools (cp_policy cp)) name of
        None \<Rightarrow> (Inr (te_deny (if preview then NotInPolicy else UnknownTool) result),
                 push k (TS_Entry Entry_Absent))
      | Some tool \<Rightarrow>
          if \<not> tp_enabled tool then
            (Inr (te_deny (if preview then PolicyDisabled else Disabled) result),
             push k (TS_Entry Entry_Disabled))
          else
            let k = push k (TS_Entry Entry_Enabled) in
            if operation = CompositeLeaf then (Inr result, k)
            else if \<not> tool_principal_matches tool caller then
              (Inr (te_deny (if preview then PrincipalNotEligible else RoleNotAllowed) result),
               push k (TS_Identity Refused))
            else
              tool_rules push (scan_tool ext (cp_matcher cp) name caller facts) preview
                (if preview then result\<lparr>te_reason := Eligible\<rparr> else result)
                (push k (TS_Identity Admitted)))"

definition evaluate_tool_known ::
    "('k \<Rightarrow> ToolStage \<Rightarrow> 'k) \<Rightarrow> 'net externals \<Rightarrow> 'net CompiledPolicy \<Rightarrow> ToolEvaluationContext
       \<Rightarrow> Principal option \<Rightarrow> PolicyFacts \<Rightarrow> ToolEvaluation \<Rightarrow> 'k
       \<Rightarrow> (EvaluationError, ToolEvaluation) result \<times> 'k" where
  "evaluate_tool_known push ext cp ctx caller facts result k =
     (case tc_tool_name ctx of
        None \<Rightarrow> (Inl InternalInvariant, k)
      | Some name \<Rightarrow>
          if tc_operation ctx = RenderedHttp then
            (case (tc_method ctx, tc_path ctx) of
               (Some m, Some path) \<Rightarrow>
                 tool_rules push
                   (scan_with_dispatch ext (cp_matcher cp) m path caller dispatch_unknown facts)
                   (is_preview (tc_operation ctx)) (result\<lparr>te_reason := NoHttpRule\<rparr>) k
             | _ \<Rightarrow> (Inl InternalInvariant, k))
          else tool_entry push ext cp (tc_operation ctx) name caller facts result k)"

definition evaluate_tool_with_facts ::
    "digest_env \<Rightarrow> 'net externals \<Rightarrow> 'net CompiledPolicy \<Rightarrow> ToolEvaluationContext \<Rightarrow> PolicyFacts
       \<Rightarrow> ('k \<Rightarrow> ToolStage \<Rightarrow> 'k) \<Rightarrow> 'k \<Rightarrow> (EvaluationError, ToolEvaluation) result \<times> 'k" where
  "evaluate_tool_with_facts de ext cp ctx facts push k =
     (case and_try (tool_context_validate ctx (cp_snapshot cp))
            (and_try (validate_facts facts) (tool_context_binding de ctx)) of
        Inl e \<Rightarrow> (Inl e, k)
      | Inr unmarked \<Rightarrow>
          let result = te_start (unmarked\<lparr>tb_facts := FactsUse_of facts\<rparr>) (tc_operation ctx) in
          (case tool_inputs cp ctx facts of
             Inl limitation \<Rightarrow>
               (Inr (te_incomplete limitation result), push k (TS_Facts (Some limitation)))
           | Inr caller \<Rightarrow>
               evaluate_tool_known push ext cp ctx caller facts result (push k (TS_Facts None))))"

definition evaluate_tool ::
    "digest_env \<Rightarrow> 'net externals \<Rightarrow> 'net CompiledPolicy \<Rightarrow> ToolEvaluationContext
       \<Rightarrow> (EvaluationError, ToolEvaluation) result" where
  "evaluate_tool de ext cp ctx =
     fst (evaluate_tool_with_facts de ext cp ctx uncaptured NoStages_record ())"

definition ToolEvaluation_reusable_for ::
    "digest_env \<Rightarrow> ToolEvaluation \<Rightarrow> ToolEvaluationContext \<Rightarrow> bool" where
  "ToolEvaluation_reusable_for de ev ctx =
     (te_complete ev
      \<and> tool_context_validate ctx (tb_snapshot (te_binding ev)) = Inr ()
      \<and> (case tool_context_binding de ctx of Inl _ \<Rightarrow> False | Inr b \<Rightarrow> b = te_binding ev))"

section \<open>Enum-source requests\<close>

record SourceRequestContext =
  sr_version :: nat
  sr_snapshot :: ResourceSnapshot
  sr_tool_name :: "string option"
  sr_path :: string

datatype SourceRequestDecision = SR_Allowed | ToolDisabled | Denied nat | SR_Undetermined

definition evaluate_source_request ::
    "'net externals \<Rightarrow> 'net CompiledPolicy \<Rightarrow> SourceRequestContext
       \<Rightarrow> (EvaluationError, SourceRequestDecision) result" where
  "evaluate_source_request ext cp ctx =
     (if sr_version ctx \<noteq> TOOL_CONTEXT_VERSION then Inl UnsupportedContextVersion
      else if sr_snapshot ctx \<noteq> cp_snapshot cp then Inl SnapshotMismatch
      else if (case sr_tool_name ctx of None \<Rightarrow> False | Some name \<Rightarrow> length name > MAX_TOOL_NAME_BYTES)
      then Inl ContextTooLarge
      else and_try (validate_rendered_http_path (sr_path ctx))
        (if (case sr_tool_name ctx of
               None \<Rightarrow> False
             | Some name \<Rightarrow>
                 \<not> (case map_of (pol_tools (cp_policy cp)) name of
                      None \<Rightarrow> False | Some tool \<Rightarrow> tp_enabled tool))
         then Inr ToolDisabled
         else Inr (case match_direct ext cp ''GET'' (sr_path ctx) None None dispatch_contextless True
                          uncaptured of
                     Matched decision \<Rightarrow> Denied (rd_rule_index decision)
                   | NoMatch \<Rightarrow> SR_Allowed
                   | Undetermined _ \<Rightarrow> SR_Undetermined)))"

lemmas tool_defs = TOOL_CONTEXT_VERSION_def TOOL_SEMANTICS_VERSION_def validate_rendered_http_path_def
  tool_context_validate_def tool_context_json_def tool_context_binding_def te_deny_def te_incomplete_def
  te_start_def tool_principal_matches_def tool_caller_def tool_inputs_def is_preview_def
  apply_decision_def tool_rules_def tool_entry_def evaluate_tool_known_def evaluate_tool_with_facts_def
  evaluate_tool_def ToolEvaluation_reusable_for_def evaluate_source_request_def

declare tool_defs [eval_defs]

end
