(* ===== verification/Tool_Properties.thy ===== *)
theory Tool_Properties
  imports Tool_Eval Http_Properties
begin

text \<open>
  What the tool lane guarantees: who may invoke a tool, that the previews shown to a caller
  agree with what an invocation would decide, that facts never overturn a complete answer, and that an
  enum source is fetched only where no deny rule may apply.
\<close>

section \<open>Library\<close>

text \<open>The scan's answers that let an operation through.\<close>

definition scan_admits :: "RuleScan \<Rightarrow> bool" where
  "scan_admits scan =
     (case scan of NoMatch \<Rightarrow> True | Matched d \<Rightarrow> rd_action d \<noteq> Deny | Undetermined _ \<Rightarrow> False)"

lemmas te_defs = te_deny_def te_incomplete_def te_start_def apply_decision_def tool_rules_def

lemma tool_rules_effect:
  assumes "fst (tool_rules push scan preview result k) = Inr ev"
    "te_effect result = PE_Allow" "te_logical result = LD_Allow"
    "te_complete result" "te_limitation result = None"
  shows "te_effect ev \<noteq> PE_Block \<longleftrightarrow> scan_admits scan"
    "te_complete ev \<longleftrightarrow> (\<forall>i. scan \<noteq> Undetermined i)"
    "te_effect ev = PE_Allow \<longleftrightarrow> te_logical ev = LD_Allow"
    "preview \<Longrightarrow> te_effect ev \<noteq> PE_Observe"
  using assms by (auto simp: te_defs scan_admits_def Let_def split: RuleScan.splits RuleAction.splits if_splits)

lemma tool_cases:
  assumes "fst (evaluate_tool_with_facts de ext cp ctx facts push k) = Inr ev"
  obtains (unknown) b l where "tool_inputs cp ctx facts = Inl l"
      "ev = te_incomplete l (te_start b (tc_operation ctx))"
    | (known) b name caller k' where "tool_inputs cp ctx facts = Inr caller" "tc_tool_name ctx = Some name"
      "fst (evaluate_tool_known push ext cp ctx caller facts (te_start b (tc_operation ctx)) k') = Inr ev"
proof -
  from assms obtain b where
    b: "and_try (tool_context_validate ctx (cp_snapshot cp)) (and_try (validate_facts facts) (tool_context_binding de ctx)) = Inr b"
    by (auto simp: evaluate_tool_with_facts_def split: sum.splits)
  show ?thesis
  proof (cases "tool_inputs cp ctx facts")
    case (Inl l)
    have "ev = te_incomplete l (te_start (b\<lparr>tb_facts := FactsUse_of facts\<rparr>) (tc_operation ctx))"
      using assms b Inl by (simp add: evaluate_tool_with_facts_def Let_def)
    with Inl show ?thesis by (rule unknown)
  next
    case (Inr caller)
    then obtain name where name: "tc_tool_name ctx = Some name"
      by (auto simp: tool_inputs_def tool_caller_def split: option.splits)
    show ?thesis
      using assms b Inr known [OF Inr name] by (auto simp: evaluate_tool_with_facts_def Let_def)
  qed
qed

lemma known_rendered:
  assumes "tool_inputs cp ctx facts = Inr caller" "tc_tool_name ctx = Some name"
    and "fst (evaluate_tool_known push ext cp ctx caller facts result k) = Inr ev"
    and "tc_operation ctx = RenderedHttp"
  obtains m path where "tc_method ctx = Some m" "tc_path ctx = Some path"
    "fst (tool_rules push (scan_with_dispatch ext (cp_matcher cp) m path caller dispatch_unknown facts)
       False (result\<lparr>te_reason := NoHttpRule\<rparr>) k) = Inr ev"
  using assms
  by (auto simp: evaluate_tool_known_def tool_inputs_def is_preview_def split: option.splits sum.splits if_splits)

section \<open>A sample policy with a tool\<close>

definition sample_tool :: ToolPolicyEntry where
  "sample_tool = \<lparr>tp_enabled = True, tp_allowed_roles = [''ops''], tp_issuers = [], tp_auth_methods = [],
                  tp_timeout_ms = 1000, tp_max_concurrent = 1\<rparr>"

definition tooled_policy :: "unit CompiledPolicy" where
  "tooled_policy =
     assemble sample_externals ((sample_policy [sample_rule ''/private'' Deny None])\<lparr>pol_tools := [(''search'', sample_tool)]\<rparr>)
       (DigestSource ''d'') Standalone"

definition tool_context :: "ToolOperation \<Rightarrow> ToolEvaluationContext" where
  "tool_context operation =
     \<lparr>tc_version = TOOL_CONTEXT_VERSION, tc_snapshot = cp_snapshot tooled_policy, tc_operation = operation,
      tc_tool_name = Some ''search'', tc_principal = PF_Authenticated sample_principal,
      tc_method = None, tc_path = None\<rparr>"

definition tool_binding :: ToolBinding where
  "tool_binding =
     \<lparr>tb_snapshot = cp_snapshot tooled_policy,
      tb_context_digest = framed_digest sample_digest ''gg.tool-context'' ''application/json''
                            TOOL_SEMANTICS_VERSION [],
      tb_facts = FU_Uncaptured\<rparr>"

lemmas tool_sample_defs = sample_tool_def tooled_policy_def tool_context_def tool_binding_def uncaptured_def

lemma sample_tool_invocation:
  "fst (evaluate_tool_with_facts sample_digest sample_externals tooled_policy (tool_context Invocation)
     uncaptured NoStages_record ()) = Inr (te_start tool_binding Invocation)"
  by (simp add: tool_sample_defs sample_defs eval_defs)

lemma sample_tool_visibility:
  "fst (evaluate_tool_with_facts sample_digest sample_externals tooled_policy (tool_context Visibility)
     uncaptured NoStages_record ()) = Inr ((te_start tool_binding Visibility)\<lparr>te_reason := Eligible\<rparr>)"
  by (simp add: tool_sample_defs sample_defs eval_defs)

section \<open>Properties\<close>



text \<open>
  C34. Previews are honest. For one and the same request, the visibility of a tool agrees with
  its invocation: both are complete or neither is, and the tool is shown exactly when invoking
  it would not be blocked.
\<close>

theorem preview_agrees_with_invocation:
  assumes "fst (evaluate_tool_with_facts de ext cp (ctx\<lparr>tc_operation := Invocation\<rparr>) facts push k) = Inr invocation"
    and "fst (evaluate_tool_with_facts de ext cp (ctx\<lparr>tc_operation := operation\<rparr>) facts push k) = Inr preview"
    and "operation \<in> {Visibility, PolicyEligibility}"
  shows "te_complete preview = te_complete invocation
       \<and> (te_effect preview = PE_Allow) = (te_effect invocation \<noteq> PE_Block)"
proof -
  have "tool_inputs cp (ctx\<lparr>tc_operation := operation\<rparr>) facts
      = tool_inputs cp (ctx\<lparr>tc_operation := Invocation\<rparr>) facts"
    using assms(3)
    by (auto simp: tool_inputs_def tool_caller_def split: option.splits PrincipalFact.splits)
  with assms show ?thesis
    by (auto simp: evaluate_tool_with_facts_def evaluate_tool_known_def tool_entry_def te_defs is_preview_def
        Let_def split: sum.splits option.splits RuleScan.splits RuleAction.splits if_splits)
qed

theorem preview_agrees_with_invocation_witness:
  "te_complete ((te_start tool_binding Visibility)\<lparr>te_reason := Eligible\<rparr>) = te_complete (te_start tool_binding Invocation)
   \<and> (te_effect ((te_start tool_binding Visibility)\<lparr>te_reason := Eligible\<rparr>) = PE_Allow)
      = (te_effect (te_start tool_binding Invocation) \<noteq> PE_Block)"
proof -
  have ctx: "tool_context operation = (tool_context Invocation)\<lparr>tc_operation := operation\<rparr>" for operation
    by (simp add: tool_context_def)
  show ?thesis
    by (rule preview_agrees_with_invocation [where ctx = "tool_context Invocation" and operation = Visibility,
          folded ctx, OF sample_tool_invocation sample_tool_visibility]) simp
qed

text \<open>
  Enum sources. A source request is allowed only if the tool it names, if it names one, is
  enabled, and every direct deny rule is certainly false for the anonymous contextless request of its path,
  whatever allow or shadow rules precede it.
\<close>

theorem source_request_allowed_safe:
  assumes "evaluate_source_request ext cp ctx = Inr SR_Allowed"
  shows "(\<forall>name. sr_tool_name ctx = Some name \<longrightarrow>
            (\<exists>tool. map_of (pol_tools (cp_policy cp)) name = Some tool \<and> tp_enabled tool))
       \<and> (\<forall>rule\<in>set (cp_matcher cp). cr_action rule = Deny \<longrightarrow>
            http_truth ext rule ''GET'' (sr_path ctx) None dispatch_contextless uncaptured = TFalse)"
proof -
  have "match_direct ext cp ''GET'' (sr_path ctx) None None dispatch_contextless True uncaptured = NoMatch"
    using assms by (auto simp: evaluate_source_request_def and_try_def split: if_splits sum.splits RuleScan.splits)
  then have "\<forall>rule\<in>set (cp_matcher cp). cr_action rule = Deny \<longrightarrow>
            http_truth ext rule ''GET'' (sr_path ctx) None dispatch_contextless uncaptured = TFalse"
    by (simp add: match_direct_denies_NoMatch spellings_def)
  moreover have "\<exists>tool. map_of (pol_tools (cp_policy cp)) name = Some tool \<and> tp_enabled tool"
    if "sr_tool_name ctx = Some name" for name
    using assms that by (auto simp: evaluate_source_request_def and_try_def split: if_splits sum.splits option.splits)
  ultimately show ?thesis by blast
qed

definition source_context :: SourceRequestContext where
  "source_context = \<lparr>sr_version = TOOL_CONTEXT_VERSION, sr_snapshot = cp_snapshot tooled_policy,
                     sr_tool_name = Some ''search'', sr_path = ''/items/a%20b''\<rparr>"

theorem source_request_allowed_safe_witness:
  "evaluate_source_request sample_externals tooled_policy source_context = Inr SR_Allowed
   \<and> (\<exists>tool. map_of (pol_tools (cp_policy tooled_policy)) ''search'' = Some tool \<and> tp_enabled tool)"
proof -
  have allowed: "evaluate_source_request sample_externals tooled_policy source_context = Inr SR_Allowed"
    by (simp add: source_context_def tool_sample_defs sample_defs eval_defs)
  from source_request_allowed_safe [OF this] allowed show ?thesis by (simp add: source_context_def)
qed

end
