(* ===== verification/Ip_Text.thy ===== *)
theory Ip_Text
  imports Net_Parse Principals
begin

text \<open>
  Addresses and their texts: \<open>IpAddr\<close>, \<open>SocketAddr\<close> and \<open>Ipv6Addr\<close> of the Rust standard
  library as words, and the meaning of a CIDR text, which is what the \<open>ipnet\<close> crate documents of
  its parser and of its membership test.
\<close>

section \<open>Standard library parsers\<close>

definition ipv4_word :: "nat list \<Rightarrow> 32 word" where
  "ipv4_word octets = word_of_nat (foldl (\<lambda>acc x. acc * 256 + x) 0 octets)"

definition ipv6_word :: "nat list \<Rightarrow> 128 word" where
  "ipv6_word groups = word_of_nat (foldl (\<lambda>acc x. acc * 65536 + x) 0 groups)"

definition read_ip_addr :: "string \<Rightarrow> (IpAddr \<times> string) option" where
  "read_ip_addr s =
     (case read_ipv4_addr s of
        Some (octets, r) \<Rightarrow> Some (V4 (ipv4_word octets), r)
      | None \<Rightarrow> map_option (\<lambda>(groups, r). (V6 (ipv6_word groups), r)) (read_ipv6_addr s))"

definition parse_ip_addr :: "string \<Rightarrow> IpAddr option" where
  "parse_ip_addr s = (case read_ip_addr s of Some (ip, []) \<Rightarrow> Some ip | _ \<Rightarrow> None)"

text \<open>A decimal number of any length, refused on overflow of its type.\<close>

definition read_decimal :: "nat \<Rightarrow> string \<Rightarrow> (nat \<times> string) option" where
  "read_decimal bound s = read_number 10 (length s) True bound s"

definition read_port :: "string \<Rightarrow> (nat \<times> string) option" where
  "read_port s = Option.bind (read_given_char CHR '':'' s) (read_decimal 65536)"

definition read_socket_addr_v4 :: "string \<Rightarrow> (IpAddr \<times> nat \<times> string) option" where
  "read_socket_addr_v4 s =
     Option.bind (read_ipv4_addr s) (\<lambda>(octets, r).
     Option.bind (read_port r) (\<lambda>(port, r'). Some (V4 (ipv4_word octets), port, r')))"

definition skip_scope_id :: "string \<Rightarrow> string" where
  "skip_scope_id s =
     (case Option.bind (read_given_char CHR ''%'' s) (read_decimal (2 ^ 32)) of
        Some (_, r) \<Rightarrow> r
      | None \<Rightarrow> s)"

definition read_socket_addr_v6 :: "string \<Rightarrow> (IpAddr \<times> nat \<times> string) option" where
  "read_socket_addr_v6 s =
     Option.bind (read_given_char CHR ''['' s) (\<lambda>r.
     Option.bind (read_ipv6_addr r) (\<lambda>(groups, r).
     Option.bind (read_given_char CHR '']'' (skip_scope_id r)) (\<lambda>r.
     Option.bind (read_port r) (\<lambda>(port, r). Some (V6 (ipv6_word groups), port, r)))))"

definition parse_socket_addr :: "string \<Rightarrow> (IpAddr \<times> nat) option" where
  "parse_socket_addr s =
     (case (case read_socket_addr_v4 s of None \<Rightarrow> read_socket_addr_v6 s | Some x \<Rightarrow> Some x) of
        Some (ip, port, []) \<Rightarrow> Some (ip, port)
      | _ \<Rightarrow> None)"

section \<open>CIDR texts\<close>

fun in_prefix :: "IpAddr \<Rightarrow> nat \<Rightarrow> IpAddr \<Rightarrow> bool" where
  "in_prefix (V4 base) len (V4 ip) = (drop_bit (32 - len) ip = drop_bit (32 - len) base)"
| "in_prefix (V6 base) len (V6 ip) = (drop_bit (128 - len) ip = drop_bit (128 - len) base)"
| "in_prefix _ _ _ = False"

definition cidr_text :: "string \<Rightarrow> (IpAddr \<times> nat) option" where
  "cidr_text s =
     (case str_split CHR ''/'' s of
        [addr, len] \<Rightarrow>
          Option.bind (parse_ip_addr addr) (\<lambda>ip.
          Option.bind (read_decimal 256 len) (\<lambda>(n, r).
            if r = [] \<and> n \<le> (case ip of V4 _ \<Rightarrow> 32 | V6 _ \<Rightarrow> 128) then Some (ip, n) else None))
      | _ \<Rightarrow> None)"

lemmas ip_text_defs = ipv4_word_def ipv6_word_def read_ip_addr_def parse_ip_addr_def read_decimal_def
  read_port_def read_socket_addr_v4_def skip_scope_id_def read_socket_addr_v6_def
  parse_socket_addr_def cidr_text_def

declare ip_text_defs [eval_defs]

lemma replicate_numeral_eval [eval_defs]:
  "replicate (numeral n) x = x # replicate (pred_numeral n) x"
  by (simp add: numeral_eq_Suc)

end
