(* ===== verification/Address_Classes.thy ===== *)
theory Address_Classes
  imports Conditions Ip_Text
begin

text \<open>
  Which addresses are not globally reachable (\<open>gateway/src/egress.rs\<close>): the special-purpose
  registries, IPv4 addresses mapped or embedded in IPv6 ones, and the extraction of the
  embedded address (RFC 6052). Networks are the \<open>ipnet\<close> crate's: their parser, their
  membership test, their prefix length, their text and their base address are parameters.
\<close>

unbundle bit_operations_syntax

record 'net egress_env = "'net externals" +
  eg_prefix_len :: "'net \<Rightarrow> nat"
  eg_net_text :: "'net \<Rightarrow> string"
  eg_network :: "'net \<Rightarrow> IpAddr"

section \<open>The registries\<close>

definition IPV4_GLOBAL_EXCEPTIONS :: "string list" where
  "IPV4_GLOBAL_EXCEPTIONS = [''192.0.0.9/32'', ''192.0.0.10/32'']"

definition IPV4_NON_GLOBAL_RANGES :: "string list" where
  "IPV4_NON_GLOBAL_RANGES =
     [''0.0.0.0/8'', ''10.0.0.0/8'', ''100.64.0.0/10'', ''127.0.0.0/8'', ''169.254.0.0/16'',
      ''172.16.0.0/12'', ''192.0.0.0/24'', ''192.0.2.0/24'', ''192.88.99.0/24'', ''192.168.0.0/16'',
      ''198.18.0.0/15'', ''198.51.100.0/24'', ''203.0.113.0/24'', ''224.0.0.0/4'', ''240.0.0.0/4'']"

definition IPV6_GLOBAL_EXCEPTIONS :: "string list" where
  "IPV6_GLOBAL_EXCEPTIONS =
     [''2001:1::1/128'', ''2001:1::2/128'', ''2001:1::3/128'', ''2001:3::/32'', ''2001:4:112::/48'',
      ''2001:20::/28'', ''2001:30::/28'']"

definition IPV6_NON_GLOBAL_RANGES :: "string list" where
  "IPV6_NON_GLOBAL_RANGES =
     [''::/128'', ''::1/128'', ''64:ff9b:1::/48'', ''100::/64'', ''100:0:0:1::/64'', ''2001::/23'',
      ''2001:db8::/32'', ''2002::/16'', ''3fff::/20'', ''5f00::/16'', ''fc00::/7'', ''fe80::/10'',
      ''fec0::/10'', ''ff00::/8'']"

definition IPV6_GLOBAL_UNICAST :: string where "IPV6_GLOBAL_UNICAST = ''2000::/3''"
definition WELL_KNOWN_NAT64_PREFIX :: string where "WELL_KNOWN_NAT64_PREFIX = ''64:ff9b::/96''"

record 'net registries =
  v4_global_exceptions :: "'net list"
  v4_non_global_ranges :: "'net list"
  v6_global_exceptions :: "'net list"
  v6_non_global_ranges :: "'net list"
  v6_global_unicast :: 'net
  well_known_nat64 :: 'net

text \<open>A literal that does not parse is a panic, here \<open>None\<close>.\<close>

definition cidr_list :: "('net, 'x) egress_env_scheme \<Rightarrow> string list \<Rightarrow> 'net list option" where
  "cidr_list env values = collect_options (map (ext_parse_net env) values)"

definition special_registries :: "('net, 'x) egress_env_scheme \<Rightarrow> 'net registries option" where
  "special_registries env =
     (case (cidr_list env IPV4_GLOBAL_EXCEPTIONS, cidr_list env IPV4_NON_GLOBAL_RANGES,
            cidr_list env IPV6_GLOBAL_EXCEPTIONS, cidr_list env IPV6_NON_GLOBAL_RANGES,
            ext_parse_net env IPV6_GLOBAL_UNICAST, ext_parse_net env WELL_KNOWN_NAT64_PREFIX) of
        (Some a, Some b, Some c, Some d, Some e, Some f) \<Rightarrow>
          Some \<lparr>v4_global_exceptions = a, v4_non_global_ranges = b, v6_global_exceptions = c,
                v6_non_global_ranges = d, v6_global_unicast = e, well_known_nat64 = f\<rparr>
      | _ \<Rightarrow> None)"

section \<open>Classification\<close>

definition in_any :: "('net, 'x) egress_env_scheme \<Rightarrow> 'net list \<Rightarrow> IpAddr \<Rightarrow> bool" where
  "in_any env nets ip = list_ex (\<lambda>net. ext_net_contains env net ip) nets"

definition is_non_global_ipv4 ::
    "('net, 'x) egress_env_scheme \<Rightarrow> 'net registries \<Rightarrow> 32 word \<Rightarrow> bool" where
  "is_non_global_ipv4 env reg ip =
     (if in_any env (v4_global_exceptions reg) (V4 ip) then False
      else in_any env (v4_non_global_ranges reg) (V4 ip))"

definition to_ipv4_mapped :: "128 word \<Rightarrow> 32 word option" where
  "to_ipv4_mapped ip = (if drop_bit 32 ip = 0xFFFF then Some (ucast ip) else None)"

definition extract_rfc6052_ipv4 :: "128 word \<Rightarrow> nat \<Rightarrow> 32 word option" where
  "extract_rfc6052_ipv4 ip prefix_len =
     (if prefix_len \<notin> {32, 40, 48, 56, 64, 96} \<or> drop_bit 56 ip AND 0xFF \<noteq> 0 then None
      else if prefix_len = 96 then Some (ucast ip)
      else
        let leading_bits = 64 - prefix_len;
            trailing_bits = 32 - leading_bits;
            leading = (if leading_bits = 0 then 0
                       else ucast (drop_bit 64 ip AND (push_bit leading_bits 1 - 1)) :: 32 word);
            shift = 128 - (72 + trailing_bits);
            trailing = (if trailing_bits = 0 then 0
                        else ucast (drop_bit shift ip AND (push_bit trailing_bits 1 - 1)) :: 32 word)
        in Some (ucast (push_bit trailing_bits (ucast leading :: 64 word) OR ucast trailing)))"

datatype Nat64Address = NotNat64 | Embedded "32 word" | Malformed

definition classify_nat64_address ::
    "('net, 'x) egress_env_scheme \<Rightarrow> 'net registries \<Rightarrow> 'net list \<Rightarrow> 128 word \<Rightarrow> Nat64Address" where
  "classify_nat64_address env reg configured ip =
     (case (if ext_net_contains env (well_known_nat64 reg) (V6 ip) then Some (well_known_nat64 reg)
            else find (\<lambda>net. ext_net_contains env net (V6 ip)) configured) of
        None \<Rightarrow> NotNat64
      | Some net \<Rightarrow>
          (case extract_rfc6052_ipv4 ip (eg_prefix_len env net) of
             Some v4 \<Rightarrow> Embedded v4
           | None \<Rightarrow> Malformed))"

definition is_non_global_ip ::
    "('net, 'x) egress_env_scheme \<Rightarrow> 'net registries \<Rightarrow> IpAddr \<Rightarrow> 'net list \<Rightarrow> bool" where
  "is_non_global_ip env reg ip nat64_prefixes =
     (case ip of
        V4 a \<Rightarrow> is_non_global_ipv4 env reg a
      | V6 a \<Rightarrow>
          (case to_ipv4_mapped a of
             Some v4 \<Rightarrow> is_non_global_ipv4 env reg v4
           | None \<Rightarrow>
               (case classify_nat64_address env reg nat64_prefixes a of
                  Embedded v4 \<Rightarrow> is_non_global_ipv4 env reg v4
                | Malformed \<Rightarrow> True
                | NotNat64 \<Rightarrow>
                    if in_any env (v6_global_exceptions reg) (V6 a) then False
                    else in_any env (v6_non_global_ranges reg) (V6 a)
                         \<or> \<not> ext_net_contains env (v6_global_unicast reg) (V6 a))))"

definition ip_matches_policy_cidr ::
    "('net, 'x) egress_env_scheme \<Rightarrow> IpAddr \<Rightarrow> 'net list \<Rightarrow> bool" where
  "ip_matches_policy_cidr env ip cidrs = list_ex (\<lambda>cidr. ext_net_contains env cidr ip) cidrs"

lemmas address_defs = IPV4_GLOBAL_EXCEPTIONS_def IPV4_NON_GLOBAL_RANGES_def IPV6_GLOBAL_EXCEPTIONS_def
  IPV6_NON_GLOBAL_RANGES_def IPV6_GLOBAL_UNICAST_def WELL_KNOWN_NAT64_PREFIX_def cidr_list_def
  special_registries_def in_any_def is_non_global_ipv4_def to_ipv4_mapped_def
  extract_rfc6052_ipv4_def classify_nat64_address_def is_non_global_ip_def ip_matches_policy_cidr_def

declare address_defs [eval_defs]

section \<open>Round trip of the embedding\<close>

text \<open>
  RFC 6052, section 2.2: the prefix, then the 32 bits of the IPv4 address around the reserved
  octet (bits 64 to 71), then zeros.
\<close>

definition embed_rfc6052 :: "128 word \<Rightarrow> nat \<Rightarrow> 32 word \<Rightarrow> 128 word" where
  "embed_rfc6052 base len v4 =
     (base AND NOT (mask (128 - len))) OR
     (if len = 96 then ucast v4
      else push_bit 64 (ucast (drop_bit (len - 32) v4)) OR
           push_bit (88 - len) (ucast (v4 AND mask (len - 32))))"

lemma octet_mask: "(0xFF :: 128 word) = mask 8"
  by (simp add: mask_eq_exp_minus_1)

lemma embed_octet_zero:
  assumes "len \<in> {32, 40, 48, 56, 64}"
  shows "drop_bit 56 (embed_rfc6052 base len v4) AND 0xFF = 0"
  unfolding octet_mask embed_rfc6052_def
  by (rule bit_word_eqI) (use assms in \<open>auto simp: bit_simps\<close>)

lemma bit_embed_high:
  "len \<in> {32, 40, 48, 56, 64} \<Longrightarrow> n < 64 - len \<Longrightarrow>
     bit (embed_rfc6052 base len v4) (64 + n) = bit v4 (n + (len - 32))"
  by (elim insertE; simp add: embed_rfc6052_def bit_simps ac_simps; (metis bit_imp_le_length)?)

lemma bit_embed_low:
  "len \<in> {32, 40, 48, 56, 64} \<Longrightarrow> n < len - 32 \<Longrightarrow>
     bit (embed_rfc6052 base len v4) (88 - len + n) = bit v4 n"
  by (elim insertE; simp add: embed_rfc6052_def bit_simps ac_simps)

text \<open>Reassembling 32 bits from the two halves around the reserved octet.\<close>

lemma reassemble:
  fixes e :: "128 word" and v4 :: "32 word"
  assumes "m \<le> 32" and high: "\<And>n. n < 32 - m \<Longrightarrow> bit e (64 + n) = bit v4 (n + m)"
    and low: "\<And>n. n < m \<Longrightarrow> bit e (56 - m + n) = bit v4 n"
  shows "ucast (push_bit m (ucast (ucast (drop_bit 64 e AND mask (32 - m)) :: 32 word) :: 64 word)
               OR ucast (ucast (drop_bit (56 - m) e AND mask m) :: 32 word)) = v4"
proof (rule bit_word_eqI)
  fix n assume "n < LENGTH(32)"
  then have n: "n < 32" by simp
  show "bit (ucast (push_bit m (ucast (ucast (drop_bit 64 e AND mask (32 - m)) :: 32 word) :: 64 word)
               OR ucast (ucast (drop_bit (56 - m) e AND mask m) :: 32 word)) :: 32 word) n = bit v4 n"
  proof (cases "n < m")
    case True
    then show ?thesis using n low [of n] assms(1) by (simp add: bit_simps)
  next
    case False
    then have "n - m < 64" "n - m < 32" "n - m < 128" "n - m < 32 - m" using n assms(1) by linarith+
    with False show ?thesis using n high [of "n - m"] assms(1) by (simp add: bit_simps)
  qed
qed

lemma extract_embed_short:
  assumes "len \<in> {32, 40, 48, 56, 64}"
  shows "extract_rfc6052_ipv4 (embed_rfc6052 base len v4) len = Some v4"
proof -
  let ?e = "embed_rfc6052 base len v4"
  have len: "len - 32 \<le> 32" "32 - (len - 32) = 64 - len" "56 - (len - 32) = 88 - len"
    using assms by auto
  have "extract_rfc6052_ipv4 ?e len
      = Some (ucast (push_bit (len - 32) (ucast (ucast (drop_bit 64 ?e AND mask (64 - len)) :: 32 word) :: 64 word)
               OR ucast (ucast (drop_bit (88 - len) ?e AND mask (len - 32)) :: 32 word)))"
    using assms embed_octet_zero [OF assms, of base v4]
    by (auto simp: extract_rfc6052_ipv4_def mask_eq_exp_minus_1 Let_def)
  also have "\<dots> = Some v4"
    using reassemble [of "len - 32" ?e v4] bit_embed_high [OF assms] bit_embed_low [OF assms]
    by (simp only: len option.inject)
  finally show ?thesis .
qed

lemma extract_embed_96:
  assumes "drop_bit 56 base AND 0xFF = 0"
  shows "extract_rfc6052_ipv4 (embed_rfc6052 base 96 v4) 96 = Some v4"
proof -
  have "drop_bit 56 (embed_rfc6052 base 96 v4) AND 0xFF = drop_bit 56 base AND 0xFF"
    unfolding octet_mask embed_rfc6052_def
    by (rule bit_word_eqI) (auto simp: bit_simps dest: bit_imp_le_length)
  moreover have "ucast (embed_rfc6052 base 96 v4) = v4"
    unfolding embed_rfc6052_def by (rule bit_word_eqI) (auto simp: bit_simps dest: bit_imp_le_length)
  ultimately show ?thesis using assms by (simp add: extract_rfc6052_ipv4_def)
qed

text \<open>
  C33. NAT64. Embedding an IPv4 address under an RFC 6052 prefix of any of the six lengths and extracting
  it again gives the address back, provided that a 96-bit prefix leaves the reserved octet zero; so the
  classification of such an address is that of the IPv4 address it carries.
\<close>

theorem extract_embed_roundtrip:
  assumes "len \<in> {32, 40, 48, 56, 64, 96}"
    and "len = 96 \<Longrightarrow> drop_bit 56 base AND 0xFF = 0"
  shows "extract_rfc6052_ipv4 (embed_rfc6052 base len v4) len = Some v4"
proof (cases "len = 96")
  case True
  with assms(2) show ?thesis by (simp add: extract_embed_96)
next
  case False
  with assms(1) have "len \<in> {32, 40, 48, 56, 64}" by auto
  then show ?thesis by (rule extract_embed_short)
qed

theorem extract_embed_roundtrip_witness:
  "extract_rfc6052_ipv4 (embed_rfc6052 0x0064FF9B000000000000000000000000 96 0x0A000001) 96 = Some 0x0A000001
   \<and> extract_rfc6052_ipv4 (embed_rfc6052 0x20010DB8000000000000000000000000 40 0x0A000001) 40 = Some 0x0A000001"
proof
  show "extract_rfc6052_ipv4 (embed_rfc6052 0x0064FF9B000000000000000000000000 96 0x0A000001) 96 = Some 0x0A000001"
    by (rule extract_embed_roundtrip) simp_all
  show "extract_rfc6052_ipv4 (embed_rfc6052 0x20010DB8000000000000000000000000 40 0x0A000001) 40 = Some 0x0A000001"
    by (rule extract_embed_roundtrip) simp_all
qed

section \<open>Private addresses\<close>

text \<open>
  What the \<open>ipnet\<close> crate documents: a text parses to the network it denotes, and a network contains
  the addresses of its family that share its prefix.
\<close>

definition cidr_library :: "('net, 'x) egress_env_scheme \<Rightarrow> bool" where
  "cidr_library env =
     (\<forall>s base len. cidr_text s = Some (base, len) \<longrightarrow>
        (\<exists>net. ext_parse_net env s = Some net \<and> eg_prefix_len env net = len
           \<and> (\<forall>ip. ext_net_contains env net ip = in_prefix base len ip)))"

definition cidr_env :: "(IpAddr \<times> nat) egress_env" where
  "cidr_env =
     \<lparr>ext_parse_net = cidr_text, ext_net_trunc = (\<lambda>n. n),
      ext_net_contains = (\<lambda>(base, len) ip. in_prefix base len ip), ext_as_f64 = (\<lambda>_. None),
      ext_pointer = (\<lambda>v p. json_get v (drop 1 p)), ext_rfc3339 = (\<lambda>_. None), ext_origin = Some,
      eg_prefix_len = snd, eg_net_text = (\<lambda>_. []), eg_network = fst\<rparr>"

lemma cidr_library_env: "cidr_library cidr_env"
  by (simp add: cidr_library_def cidr_env_def)

lemma v4_registry_texts:
  "map cidr_text IPV4_GLOBAL_EXCEPTIONS = map Some [(V4 0xC0000009, 32), (V4 0xC000000A, 32)]"
  "map cidr_text IPV4_NON_GLOBAL_RANGES = map Some
     [(V4 0, 8), (V4 0x0A000000, 8), (V4 0x64400000, 10), (V4 0x7F000000, 8), (V4 0xA9FE0000, 16),
      (V4 0xAC100000, 12), (V4 0xC0000000, 24), (V4 0xC0000200, 24), (V4 0xC0586300, 24), (V4 0xC0A80000, 16),
      (V4 0xC6120000, 15), (V4 0xC6336400, 24), (V4 0xCB007100, 24), (V4 0xE0000000, 4), (V4 0xF0000000, 4)]"
  by (simp_all add: eval_defs)

lemma v6_registry_texts:
  "map cidr_text IPV6_GLOBAL_EXCEPTIONS = map Some
     [(V6 0x20010001000000000000000000000001, 128), (V6 0x20010001000000000000000000000002, 128),
      (V6 0x20010001000000000000000000000003, 128), (V6 0x20010003000000000000000000000000, 32),
      (V6 0x20010004011200000000000000000000, 48), (V6 0x20010020000000000000000000000000, 28),
      (V6 0x20010030000000000000000000000000, 28)]"
  "map cidr_text IPV6_NON_GLOBAL_RANGES = map Some
     [(V6 0, 128), (V6 1, 128), (V6 0x0064FF9B000100000000000000000000, 48),
      (V6 0x01000000000000000000000000000000, 64), (V6 0x01000000000000010000000000000000, 64),
      (V6 0x20010000000000000000000000000000, 23), (V6 0x20010DB8000000000000000000000000, 32),
      (V6 0x20020000000000000000000000000000, 16), (V6 0x3FFF0000000000000000000000000000, 20),
      (V6 0x5F000000000000000000000000000000, 16), (V6 0xFC000000000000000000000000000000, 7),
      (V6 0xFE800000000000000000000000000000, 10), (V6 0xFEC00000000000000000000000000000, 10),
      (V6 0xFF000000000000000000000000000000, 8)]"
  "cidr_text IPV6_GLOBAL_UNICAST = Some (V6 0x20000000000000000000000000000000, 3)"
  "cidr_text WELL_KNOWN_NAT64_PREFIX = Some (V6 0x0064FF9B000000000000000000000000, 96)"
  by (simp_all add: eval_defs)

lemma cidr_library_parse:
  assumes "cidr_library env" "cidr_text s = Some (base, len)"
  shows "\<exists>net. ext_parse_net env s = Some net \<and> eg_prefix_len env net = len
    \<and> (\<forall>ip. ext_net_contains env net ip = in_prefix base len ip)"
  using assms unfolding cidr_library_def by blast

lemma cidr_library_list:
  assumes "cidr_library env"
  shows "map cidr_text texts = map Some ps \<Longrightarrow>
    \<exists>nets. cidr_list env texts = Some nets \<and> (\<forall>ip. in_any env nets ip = list_ex (\<lambda>(b, l). in_prefix b l ip) ps)"
proof (induction texts arbitrary: ps)
  case Nil
  then show ?case by (simp add: cidr_list_def in_any_def)
next
  case (Cons s texts)
  then obtain b l qs where ps: "ps = (b, l) # qs" and s: "cidr_text s = Some (b, l)"
    and rest: "map cidr_text texts = map Some qs" by (cases ps) auto
  from Cons.IH [OF rest] obtain nets where "cidr_list env texts = Some nets"
    "\<forall>ip. in_any env nets ip = list_ex (\<lambda>(b, l). in_prefix b l ip) qs" by blast
  moreover obtain net where "ext_parse_net env s = Some net"
    "\<And>ip. ext_net_contains env net ip = in_prefix b l ip"
    using cidr_library_parse [OF assms s] by blast
  ultimately show ?case using ps by (auto simp: cidr_list_def in_any_def)
qed

lemma special_registries_defined:
  assumes "cidr_library env"
  obtains reg where "special_registries env = Some reg"
    "\<And>ip. in_any env (v4_global_exceptions reg) ip
       = list_ex (\<lambda>(b, l). in_prefix b l ip) [(V4 0xC0000009, 32), (V4 0xC000000A, 32)]"
    "\<And>ip. in_any env (v4_non_global_ranges reg) ip = list_ex (\<lambda>(b, l). in_prefix b l ip)
     [(V4 0, 8), (V4 0x0A000000, 8), (V4 0x64400000, 10), (V4 0x7F000000, 8), (V4 0xA9FE0000, 16),
      (V4 0xAC100000, 12), (V4 0xC0000000, 24), (V4 0xC0000200, 24), (V4 0xC0586300, 24), (V4 0xC0A80000, 16),
      (V4 0xC6120000, 15), (V4 0xC6336400, 24), (V4 0xCB007100, 24), (V4 0xE0000000, 4), (V4 0xF0000000, 4)]"
    "\<And>ip. ext_net_contains env (well_known_nat64 reg) ip = in_prefix (V6 0x0064FF9B000000000000000000000000) 96 ip"
    "eg_prefix_len env (well_known_nat64 reg) = 96"
proof -
  obtain a where a: "cidr_list env IPV4_GLOBAL_EXCEPTIONS = Some a" "\<And>ip. in_any env a ip
       = list_ex (\<lambda>(b, l). in_prefix b l ip) [(V4 0xC0000009, 32), (V4 0xC000000A, 32)]"
    using cidr_library_list [OF assms v4_registry_texts(1)] by blast
  obtain b where b: "cidr_list env IPV4_NON_GLOBAL_RANGES = Some b" "\<And>ip. in_any env b ip = list_ex (\<lambda>(b, l). in_prefix b l ip)
     [(V4 0, 8), (V4 0x0A000000, 8), (V4 0x64400000, 10), (V4 0x7F000000, 8), (V4 0xA9FE0000, 16),
      (V4 0xAC100000, 12), (V4 0xC0000000, 24), (V4 0xC0000200, 24), (V4 0xC0586300, 24), (V4 0xC0A80000, 16),
      (V4 0xC6120000, 15), (V4 0xC6336400, 24), (V4 0xCB007100, 24), (V4 0xE0000000, 4), (V4 0xF0000000, 4)]"
    using cidr_library_list [OF assms v4_registry_texts(2)] by blast
  obtain c where c: "cidr_list env IPV6_GLOBAL_EXCEPTIONS = Some c"
    using cidr_library_list [OF assms v6_registry_texts(1)] by blast
  obtain d where d: "cidr_list env IPV6_NON_GLOBAL_RANGES = Some d"
    using cidr_library_list [OF assms v6_registry_texts(2)] by blast
  obtain e where e: "ext_parse_net env IPV6_GLOBAL_UNICAST = Some e"
    using cidr_library_parse [OF assms v6_registry_texts(3)] by blast
  obtain f where f: "ext_parse_net env WELL_KNOWN_NAT64_PREFIX = Some f" "eg_prefix_len env f = 96"
    "\<And>ip. ext_net_contains env f ip = in_prefix (V6 0x0064FF9B000000000000000000000000) 96 ip"
    using cidr_library_parse [OF assms v6_registry_texts(4)] by blast
  show thesis
    by (rule that [of "\<lparr>v4_global_exceptions = a, v4_non_global_ranges = b, v6_global_exceptions = c,
                v6_non_global_ranges = d, v6_global_unicast = e, well_known_nat64 = f\<rparr>"])
       (simp_all only: special_registries_def registries.simps a b c d e f option.case prod.case)
qed

text \<open>This network, private use, loopback, link local and shared address space (RFC 1122, 1918, 3927, 6598).\<close>

definition private_ipv4 :: "32 word \<Rightarrow> bool" where
  "private_ipv4 a =
     (drop_bit 24 a \<in> {0, 10, 127} \<or> drop_bit 20 a = 0xAC1 \<or> drop_bit 16 a \<in> {0xC0A8, 0xA9FE} \<or> drop_bit 22 a = 0x191)"

definition ipv4_mapped :: "32 word \<Rightarrow> 128 word" where
  "ipv4_mapped a = push_bit 32 0xFFFF OR ucast a"

lemma halves_of_or:
  fixes k :: "128 word" and a :: "32 word"
  shows "ucast (push_bit 32 k OR ucast a) = a"
    and "drop_bit 32 (push_bit 32 k OR ucast a) = k AND mask 96"
  by (rule bit_word_eqI; auto simp: bit_simps dest: bit_imp_le_length)+

lemma to_ipv4_mapped_mapped: "to_ipv4_mapped (ipv4_mapped a) = Some a"
  unfolding to_ipv4_mapped_def ipv4_mapped_def halves_of_or by (simp add: mask_eq_exp_minus_1)

lemma drop_embed_96: "drop_bit 32 (embed_rfc6052 base 96 v4) = drop_bit 32 base"
  unfolding embed_rfc6052_def by (rule bit_word_eqI) (auto simp: bit_simps dest: bit_imp_le_length)

lemma private_in_ranges:
  "private_ipv4 a \<Longrightarrow> list_ex (\<lambda>(b, l). in_prefix b l (V4 a))
     [(V4 0, 8), (V4 0x0A000000, 8), (V4 0x64400000, 10), (V4 0x7F000000, 8), (V4 0xA9FE0000, 16),
      (V4 0xAC100000, 12), (V4 0xC0000000, 24), (V4 0xC0000200, 24), (V4 0xC0586300, 24), (V4 0xC0A80000, 16),
      (V4 0xC6120000, 15), (V4 0xC6336400, 24), (V4 0xCB007100, 24), (V4 0xE0000000, 4), (V4 0xF0000000, 4)]"
  by (auto simp: private_ipv4_def)

lemma private_no_exception:
  "private_ipv4 a \<Longrightarrow> \<not> list_ex (\<lambda>(b, l). in_prefix b l (V4 a)) [(V4 0xC0000009, 32), (V4 0xC000000A, 32)]"
  by (auto simp: private_ipv4_def)

text \<open>
  C32. Hidden private addresses. With a CIDR library that reads and tests networks as documented, the registries
  load, and an IPv4 address of this network, private use, loopback, link local or shared space is
  classified as not globally reachable in all three of its spellings: as itself, mapped into IPv6, and
  embedded under the well-known NAT64 prefix, whatever other NAT64 prefixes are configured.
\<close>

theorem private_addresses_non_global:
  assumes "cidr_library env" and "private_ipv4 a"
  shows "\<exists>reg. special_registries env = Some reg
    \<and> is_non_global_ip env reg (V4 a) nat64
    \<and> is_non_global_ip env reg (V6 (ipv4_mapped a)) nat64
    \<and> is_non_global_ip env reg (V6 (embed_rfc6052 0x0064FF9B000000000000000000000000 96 a)) nat64"
proof -
  obtain reg where reg: "special_registries env = Some reg"
    "\<And>ip. in_any env (v4_global_exceptions reg) ip
       = list_ex (\<lambda>(b, l). in_prefix b l ip) [(V4 0xC0000009, 32), (V4 0xC000000A, 32)]"
    "\<And>ip. in_any env (v4_non_global_ranges reg) ip = list_ex (\<lambda>(b, l). in_prefix b l ip)
     [(V4 0, 8), (V4 0x0A000000, 8), (V4 0x64400000, 10), (V4 0x7F000000, 8), (V4 0xA9FE0000, 16),
      (V4 0xAC100000, 12), (V4 0xC0000000, 24), (V4 0xC0000200, 24), (V4 0xC0586300, 24), (V4 0xC0A80000, 16),
      (V4 0xC6120000, 15), (V4 0xC6336400, 24), (V4 0xCB007100, 24), (V4 0xE0000000, 4), (V4 0xF0000000, 4)]"
    "\<And>ip. ext_net_contains env (well_known_nat64 reg) ip = in_prefix (V6 0x0064FF9B000000000000000000000000) 96 ip"
    "eg_prefix_len env (well_known_nat64 reg) = 96"
    using special_registries_defined [OF assms(1)] by blast
  let ?e = "embed_rfc6052 0x0064FF9B000000000000000000000000 96 a"
  have v4: "is_non_global_ipv4 env reg a"
    unfolding is_non_global_ipv4_def reg
    using private_in_ranges [OF assms(2)] private_no_exception [OF assms(2)] by (simp only: if_False)
  have "to_ipv4_mapped ?e = None" by (simp add: to_ipv4_mapped_def drop_embed_96)
  moreover have "classify_nat64_address env reg nat64 ?e = Embedded a"
    using extract_embed_96 [of "0x0064FF9B000000000000000000000000" a]
    by (simp add: classify_nat64_address_def reg drop_embed_96)
  ultimately show ?thesis
    using reg(1) v4 by (simp add: is_non_global_ip_def to_ipv4_mapped_mapped)
qed

theorem private_addresses_non_global_witness:
  "private_ipv4 0x7F000001 \<and> (\<exists>reg. special_registries cidr_env = Some reg
    \<and> is_non_global_ip cidr_env reg (V4 0x7F000001) []
    \<and> is_non_global_ip cidr_env reg (V6 (ipv4_mapped 0x7F000001)) []
    \<and> is_non_global_ip cidr_env reg (V6 (embed_rfc6052 0x0064FF9B000000000000000000000000 96 0x7F000001)) [])"
proof -
  have p: "private_ipv4 0x7F000001" by (simp add: private_ipv4_def)
  show ?thesis using p private_addresses_non_global [OF cidr_library_env p, of "[]"] by simp
qed

end
