(* ===== verification/Egress_Eval.thy ===== *)
theory Egress_Eval
  imports Address_Classes Policy_Kernel
begin

text \<open>
  The static egress lane of the policy kernel (\<open>gateway/src/policy_eval/egress.rs\<close>): whether the
  effective controls admit an outbound destination, decided over what its URL says and, when they are
  supplied, the addresses its name resolved to. The registries the address classes read are the
  process-wide ones (\<open>Address_Classes\<close>), passed as an argument. The accessors of a parsed \<open>url::Url\<close>
  are a record. The fields of an evaluation that are constants (domain, versions, unevaluated lanes) are
  left out.
\<close>

definition EGRESS_CONTEXT_VERSION :: nat where "EGRESS_CONTEXT_VERSION = 1"
definition EGRESS_SEMANTICS_VERSION :: string where "EGRESS_SEMANTICS_VERSION = ''gg-static-egress-v1''"
definition EGRESS_CONTROLS_DIGEST_KIND :: string where
  "EGRESS_CONTROLS_DIGEST_KIND = ''gg.egress-controls.v1''"

section \<open>Socket addresses\<close>

text \<open>A \<open>SocketAddr\<close> without the flow label, which nothing here reads.\<close>

record SocketAddr =
  sa_ip :: IpAddr
  sa_port :: nat
  sa_scope :: nat

text \<open>The texts of \<open>Display\<close> for addresses: RFC 5952 for IPv6, with IPv4-mapped addresses dotted.\<close>

definition ipv4_display :: "32 word \<Rightarrow> string" where
  "ipv4_display a =
     str_join CHR ''.'' (map (\<lambda>i. dec_of_nat (unat a div 256 ^ i mod 256)) [3, 2, 1, 0])"

definition hex_char :: "nat \<Rightarrow> char" where
  "hex_char d = char_of (if d < 10 then 48 + d else 87 + d)"

definition hex_group :: "nat \<Rightarrow> string" where
  "hex_group n =
     (if n < 16 then [hex_char n]
      else if n < 256 then [hex_char (n div 16), hex_char (n mod 16)]
      else if n < 4096 then [hex_char (n div 256), hex_char (n div 16 mod 16), hex_char (n mod 16)]
      else [hex_char (n div 4096), hex_char (n div 256 mod 16), hex_char (n div 16 mod 16), hex_char (n mod 16)])"

definition segments :: "128 word \<Rightarrow> nat list" where
  "segments a = map (\<lambda>i. unat a div 65536 ^ i mod 65536) [7, 6, 5, 4, 3, 2, 1, 0]"

text \<open>The first longest run of zero groups: its start and its length.\<close>

fun zero_runs :: "nat list \<Rightarrow> nat \<Rightarrow> nat \<times> nat \<Rightarrow> nat \<times> nat \<Rightarrow> nat \<times> nat" where
  "zero_runs [] i longest current = longest"
| "zero_runs (g # gs) i longest current =
     (if g = 0 then
        let current' = ((if snd current = 0 then i else fst current), snd current + 1);
            longest' = (if snd current' > snd longest then current' else longest)
        in zero_runs gs (i + 1) longest' current'
      else zero_runs gs (i + 1) longest (0, 0))"

definition ipv6_display :: "128 word \<Rightarrow> string" where
  "ipv6_display a =
     (case to_ipv4_mapped a of
        Some v4 \<Rightarrow> ''::ffff:'' @ ipv4_display v4
      | None \<Rightarrow>
          let gs = segments a;
              (start, len) = zero_runs gs 0 (0, 0) (0, 0)
          in if len > 1
             then str_join CHR '':'' (map hex_group (take start gs)) @ ''::''
                  @ str_join CHR '':'' (map hex_group (drop (start + len) gs))
             else str_join CHR '':'' (map hex_group gs))"

definition socket_display :: "SocketAddr \<Rightarrow> string" where
  "socket_display a =
     (case sa_ip a of
        V4 ip \<Rightarrow> ipv4_display ip @ '':'' @ dec_of_nat (sa_port a)
      | V6 ip \<Rightarrow>
          ''['' @ ipv6_display ip @ (if sa_scope a = 0 then [] else ''%'' @ dec_of_nat (sa_scope a))
          @ '']:'' @ dec_of_nat (sa_port a))"

section \<open>Controls, destinations, contexts\<close>

record 'net EgressControls =
  ec_allowed_hosts :: "string set"
  ec_allowed_host_globs :: "string list"
  ec_allowed_ports :: "nat set"
  ec_deny_private_ips :: bool
  ec_nat64_prefixes :: "'net list"
  ec_private_ip_allow_cidrs :: "'net list"

record EgressSnapshot =
  es_controls_digest :: string
  es_context_version :: nat
  es_semantics_version :: string

record 'net CompiledEgressPolicy =
  ce_controls :: "'net EgressControls"
  ce_snapshot :: EgressSnapshot

record Url =
  url_scheme :: string
  url_host_str :: "string option"
  url_port_or_known_default :: "nat option"
  url_username :: string
  url_password :: "string option"
  url_fragment :: "string option"

record EgressDestination =
  ed_scheme :: string
  ed_host :: "string option"
  ed_port :: "nat option"
  ed_userinfo :: bool
  ed_fragment :: bool

definition EgressDestination_from_url :: "Url \<Rightarrow> EgressDestination" where
  "EgressDestination_from_url url =
     \<lparr>ed_scheme = url_scheme url,
      ed_host = map_option str_lower (url_host_str url),
      ed_port = url_port_or_known_default url,
      ed_userinfo = (url_username url \<noteq> [] \<or> url_password url \<noteq> None),
      ed_fragment = (url_fragment url \<noteq> None)\<rparr>"

datatype ResolutionFact = RF_Missing | RF_Resolved "SocketAddr list"

record EgressEvaluationContext =
  xc_version :: nat
  xc_snapshot :: EgressSnapshot
  xc_destination :: EgressDestination
  xc_resolution :: ResolutionFact

definition egress_context_validate ::
    "EgressEvaluationContext \<Rightarrow> EgressSnapshot \<Rightarrow> (EvaluationError, unit) result" where
  "egress_context_validate ctx expected =
     (if xc_version ctx \<noteq> EGRESS_CONTEXT_VERSION then Inl UnsupportedContextVersion
      else if xc_snapshot ctx \<noteq> expected then Inl SnapshotMismatch
      else Inr ())"

record EgressBinding =
  xb_snapshot :: EgressSnapshot
  xb_context_digest :: string

definition egress_context_json :: "EgressEvaluationContext \<Rightarrow> json" where
  "egress_context_json ctx =
     (let d = xc_destination ctx in
      JArray [JString EGRESS_SEMANTICS_VERSION, JNumber (dec_of_nat (xc_version ctx)),
              JString (ed_scheme d), json_opt (ed_host d),
              (case ed_port d of None \<Rightarrow> JNull | Some p \<Rightarrow> JNumber (dec_of_nat p)),
              JBool (ed_userinfo d), JBool (ed_fragment d),
              (case xc_resolution ctx of
                 RF_Missing \<Rightarrow> JArray [JString ''missing'', JNull]
               | RF_Resolved answers \<Rightarrow>
                   JArray [JString ''resolved'', JArray (map (\<lambda>a. JString (socket_display a)) answers)])])"

definition egress_context_binding ::
    "digest_env \<Rightarrow> EgressEvaluationContext \<Rightarrow> (EvaluationError, EgressBinding) result" where
  "egress_context_binding de ctx =
     (case de_to_vec de (egress_context_json ctx) of
        None \<Rightarrow> Inl TraceEncoding
      | Some bytes \<Rightarrow>
          Inr \<lparr>xb_snapshot = xc_snapshot ctx,
               xb_context_digest = framed_digest de ''gg.egress-context'' ''application/json''
                 EGRESS_SEMANTICS_VERSION bytes\<rparr>)"

section \<open>The decision\<close>

datatype EgressDenial =
    MissingHost | Userinfo | Fragment | ED_SchemeNotAllowed | ED_HostNotAllowed | MissingPort
  | ED_PortNotAllowed | EmptyResolution | UnexpectedResolvedPort | NonGlobalAddress nat

datatype EgressLimitation = MissingResolution

datatype EgressOutcome =
    EO_Allow nat
  | EO_Deny EgressDenial
  | EO_Indeterminate EgressLimitation

record EgressEvaluation =
  xe_binding :: EgressBinding
  xe_logical :: LogicalDecision
  xe_effect :: PolicyEffect
  xe_outcome :: EgressOutcome
  xe_complete :: bool

definition host_glob_matches :: "string \<Rightarrow> string \<Rightarrow> bool" where
  "host_glob_matches pat hostname =
     (let p = str_lower pat; h = str_lower hostname in
      case strip_prefix p ''*.'' of
        Some suff \<Rightarrow>
          length h > length suff \<and> ends_with h suff \<and> h ! (length h - length suff - 1) = CHR ''.''
      | None \<Rightarrow> h = p)"

definition lane_admit_destination ::
    "'net CompiledEgressPolicy \<Rightarrow> EgressDestination \<Rightarrow> (EgressDenial, nat) result" where
  "lane_admit_destination pol d =
     (case ed_host d of
        None \<Rightarrow> Inl MissingHost
      | Some h \<Rightarrow>
          if ed_userinfo d then Inl Userinfo
          else if ed_fragment d then Inl Fragment
          else if ed_scheme d \<notin> {''http'', ''https''} then Inl ED_SchemeNotAllowed
          else if \<not> (h \<in> ec_allowed_hosts (ce_controls pol)
                   \<or> list_ex (\<lambda>pat. host_glob_matches pat h) (ec_allowed_host_globs (ce_controls pol)))
          then Inl ED_HostNotAllowed
          else
            (case ed_port d of
               None \<Rightarrow> Inl MissingPort
             | Some port \<Rightarrow>
                 if ec_allowed_ports (ce_controls pol) \<noteq> {} \<and> port \<notin> ec_allowed_ports (ce_controls pol)
                 then Inl ED_PortNotAllowed
                 else Inr port))"

fun position :: "('a \<Rightarrow> bool) \<Rightarrow> 'a list \<Rightarrow> nat option" where
  "position P [] = None"
| "position P (x # xs) = (if P x then Some 0 else map_option Suc (position P xs))"

definition address_refused ::
    "('net, 'x) egress_env_scheme \<Rightarrow> 'net registries \<Rightarrow> 'net EgressControls \<Rightarrow> IpAddr \<Rightarrow> bool" where
  "address_refused env reg c ip =
     (is_non_global_ip env reg ip (ec_nat64_prefixes c)
      \<and> \<not> ip_matches_policy_cidr env ip (ec_private_ip_allow_cidrs c))"

definition check_answers ::
    "('net, 'x) egress_env_scheme \<Rightarrow> 'net registries \<Rightarrow> 'net CompiledEgressPolicy \<Rightarrow> nat \<Rightarrow> SocketAddr list
       \<Rightarrow> EgressOutcome" where
  "check_answers env reg pol port answers =
     (if answers = [] then EO_Deny EmptyResolution
      else if list_ex (\<lambda>a. sa_port a \<noteq> port) answers then EO_Deny UnexpectedResolvedPort
      else
        (case (if ec_deny_private_ips (ce_controls pol)
               then position (\<lambda>a. address_refused env reg (ce_controls pol) (sa_ip a)) answers
               else None) of
           Some index \<Rightarrow> EO_Deny (NonGlobalAddress index)
         | None \<Rightarrow> EO_Allow 0))"

definition lane_outcome ::
    "('net, 'x) egress_env_scheme \<Rightarrow> 'net registries \<Rightarrow> 'net CompiledEgressPolicy \<Rightarrow> EgressDestination
       \<Rightarrow> ResolutionFact \<Rightarrow> EgressOutcome" where
  "lane_outcome env reg pol d resolution =
     (case lane_admit_destination pol d of
        Inl denial \<Rightarrow> EO_Deny denial
      | Inr port \<Rightarrow>
          (case resolution of
             RF_Missing \<Rightarrow> EO_Indeterminate MissingResolution
           | RF_Resolved answers \<Rightarrow> check_answers env reg pol port answers))"

fun outcome_decision :: "EgressOutcome \<Rightarrow> LogicalDecision \<times> PolicyEffect \<times> bool" where
  "outcome_decision (EO_Allow _) = (LD_Allow, PE_Allow, True)"
| "outcome_decision (EO_Deny _) = (LD_Deny, PE_Block, True)"
| "outcome_decision (EO_Indeterminate _) = (LD_Indeterminate, PE_Block, False)"

definition evaluate_egress ::
    "digest_env \<Rightarrow> ('net, 'x) egress_env_scheme \<Rightarrow> 'net registries \<Rightarrow> 'net CompiledEgressPolicy
       \<Rightarrow> EgressEvaluationContext \<Rightarrow> (EvaluationError, EgressEvaluation) result" where
  "evaluate_egress de env reg pol ctx =
     and_then (egress_context_validate ctx (ce_snapshot pol)) (\<lambda>_.
     and_then (egress_context_binding de ctx) (\<lambda>binding.
       let outcome = lane_outcome env reg pol (xc_destination ctx) (xc_resolution ctx);
           (logical, effect, complete) = outcome_decision outcome
       in Inr \<lparr>xe_binding = binding, xe_logical = logical, xe_effect = effect, xe_outcome = outcome,
               xe_complete = complete\<rparr>))"

definition EgressEvaluation_reusable_for ::
    "digest_env \<Rightarrow> EgressEvaluation \<Rightarrow> EgressEvaluationContext \<Rightarrow> bool" where
  "EgressEvaluation_reusable_for de ev ctx =
     (xe_complete ev \<and> egress_context_validate ctx (xb_snapshot (xe_binding ev)) = Inr ()
      \<and> egress_context_binding de ctx = Inr (xe_binding ev))"

section \<open>The identity of the controls\<close>

definition controls_json :: "('net, 'x) egress_env_scheme \<Rightarrow> 'net EgressControls \<Rightarrow> json" where
  "controls_json env c =
     JArray [JArray (map JString (sorted_list_of_set (ec_allowed_hosts c))),
             JArray (map JString (sort (ec_allowed_host_globs c))),
             JArray (map (\<lambda>p. JNumber (dec_of_nat p)) (sorted_list_of_set (ec_allowed_ports c))),
             JBool (ec_deny_private_ips c),
             JArray (map JString (sort (map (eg_net_text env) (ec_nat64_prefixes c)))),
             JArray (map JString (sort (map (eg_net_text env) (ec_private_ip_allow_cidrs c))))]"

text \<open>Strings, integers and a Boolean always encode, so the fallback text is not reached.\<close>

definition controls_digest ::
    "digest_env \<Rightarrow> ('net, 'x) egress_env_scheme \<Rightarrow> 'net EgressControls \<Rightarrow> string" where
  "controls_digest de env c =
     framed_digest de EGRESS_CONTROLS_DIGEST_KIND ''application/json'' EGRESS_SEMANTICS_VERSION
       (case de_to_vec de (controls_json env c) of
          Some payload \<Rightarrow> payload
        | None \<Rightarrow> ''unserializable'' @ [CHR 0x00])"

definition CompiledEgressPolicy_new ::
    "digest_env \<Rightarrow> ('net, 'x) egress_env_scheme \<Rightarrow> 'net EgressControls \<Rightarrow> 'net CompiledEgressPolicy" where
  "CompiledEgressPolicy_new de env c =
     \<lparr>ce_controls = c,
      ce_snapshot = \<lparr>es_controls_digest = controls_digest de env c,
                     es_context_version = EGRESS_CONTEXT_VERSION,
                     es_semantics_version = EGRESS_SEMANTICS_VERSION\<rparr>\<rparr>"

lemmas egress_eval_defs = EGRESS_CONTEXT_VERSION_def EGRESS_SEMANTICS_VERSION_def EGRESS_CONTROLS_DIGEST_KIND_def
  EgressDestination_from_url_def egress_context_validate_def egress_context_binding_def host_glob_matches_def
  lane_admit_destination_def address_refused_def check_answers_def lane_outcome_def evaluate_egress_def
  EgressEvaluation_reusable_for_def CompiledEgressPolicy_new_def

declare egress_eval_defs [eval_defs]

end
