(* ===== verification/Egress_Config.thy ===== *)
theory Egress_Config
  imports Egress_Eval
begin

text \<open>
  The egress configuration (\<open>gateway/src/egress.rs\<close>): how the effective controls are assembled from the
  deployment's configuration and the policy, the NAT64 prefixes the configuration compiler accepts
  (\<open>gateway-config/src/compiler.rs\<close>), and the generations that identify a configuration. A \<open>Duration\<close> is
  a number of nanoseconds. The TLS material of a configuration is carried by its fingerprints; parsing it
  is outside this theory. \<open>url_parse\<close> stands for \<open>Url::parse\<close>.
\<close>

definition DEFAULT_TIMEOUT :: nat where "DEFAULT_TIMEOUT = 30 * 10 ^ 9"
definition DEFAULT_CONNECT_TIMEOUT :: nat where "DEFAULT_CONNECT_TIMEOUT = 10 * 10 ^ 9"
definition DEFAULT_MAX_RESPONSE_BYTES :: nat where "DEFAULT_MAX_RESPONSE_BYTES = 5 * 1024 * 1024"
definition DEFAULT_MAX_REQUEST_BODY_BYTES :: nat where "DEFAULT_MAX_REQUEST_BODY_BYTES = 1024 * 1024"

definition from_millis :: "nat \<Rightarrow> nat" where "from_millis ms = ms * 10 ^ 6"

section \<open>Errors\<close>

datatype GrpcFailure =
    GF_Connect | GF_Tls | AlpnNotH2 | Handshake | ConnectionClosed | StreamReset | GF_Protocol | ConnectTimeout

fun GrpcFailure_category :: "GrpcFailure \<Rightarrow> string" where
  "GrpcFailure_category GF_Connect = ''grpc_connect''"
| "GrpcFailure_category GF_Tls = ''grpc_tls''"
| "GrpcFailure_category AlpnNotH2 = ''grpc_alpn_not_h2''"
| "GrpcFailure_category Handshake = ''grpc_handshake''"
| "GrpcFailure_category ConnectionClosed = ''grpc_connection_closed''"
| "GrpcFailure_category StreamReset = ''grpc_stream_reset''"
| "GrpcFailure_category GF_Protocol = ''grpc_protocol''"
| "GrpcFailure_category ConnectTimeout = ''grpc_connect_timeout''"

text \<open>
  What the source reads of a \<open>reqwest::Error\<close>: its predicates, and the chain of its sources, each the
  kind of an \<open>io::Error\<close> or an error of another type.
\<close>

datatype ErrorKind =
    ConnectionRefused | ConnectionReset | ConnectionAborted | NotConnected | BrokenPipe | TimedOut
  | UnexpectedEof | OtherKind

record HttpError =
  he_timeout :: bool
  he_connect :: bool
  he_request :: bool
  he_body :: bool
  he_decode :: bool
  he_status :: bool
  he_sources :: "ErrorKind option list"

datatype EgressError =
    HostNotAllowed string
  | PortNotAllowed nat
  | NonGlobalIpBlocked IpAddr
  | InvalidPolicy string
  | DnsResolutionFailed string
  | InvalidUrl string
  | SchemeNotAllowed string
  | RequestBodyTooLarge nat nat
  | RequestBodyReadFailed
  | UnexpectedStatus nat
  | ResponseTooLarge nat nat
  | ResponseIdleTimeout nat
  | InvalidTlsCaBundle "string option" string
  | InvalidTlsClientIdentity
  | Grpc GrpcFailure
  | Http HttpError

fun EgressError_is_timeout :: "EgressError \<Rightarrow> bool" where
  "EgressError_is_timeout (ResponseIdleTimeout _) = True"
| "EgressError_is_timeout (Grpc ConnectTimeout) = True"
| "EgressError_is_timeout (Http err) = he_timeout err"
| "EgressError_is_timeout _ = False"

fun safe_category :: "EgressError \<Rightarrow> string" where
  "safe_category (HostNotAllowed _) = ''host_not_allowed''"
| "safe_category (PortNotAllowed _) = ''port_not_allowed''"
| "safe_category (NonGlobalIpBlocked _) = ''non_global_ip_blocked''"
| "safe_category (InvalidPolicy _) = ''invalid_policy''"
| "safe_category (DnsResolutionFailed _) = ''dns_resolution_failed''"
| "safe_category (InvalidUrl _) = ''invalid_url''"
| "safe_category (SchemeNotAllowed _) = ''scheme_not_allowed''"
| "safe_category (RequestBodyTooLarge _ _) = ''request_body_too_large''"
| "safe_category RequestBodyReadFailed = ''request_body_read_failed''"
| "safe_category (UnexpectedStatus _) = ''unexpected_status''"
| "safe_category (ResponseTooLarge _ _) = ''response_too_large''"
| "safe_category (ResponseIdleTimeout _) = ''response_idle_timeout''"
| "safe_category (InvalidTlsCaBundle _ _) = ''invalid_tls_ca_bundle''"
| "safe_category InvalidTlsClientIdentity = ''invalid_tls_client_identity''"
| "safe_category (Grpc failure) = GrpcFailure_category failure"
| "safe_category (Http err) =
     (if he_timeout err then ''http_timeout''
      else if he_connect err then ''http_connect''
      else if he_request err then ''http_request''
      else if he_body err then ''http_body''
      else if he_decode err then ''http_decode''
      else if he_status err then ''http_status''
      else ''http_other'')"

fun is_passive_health_failure :: "EgressError \<Rightarrow> bool" where
  "is_passive_health_failure (DnsResolutionFailed _) = True"
| "is_passive_health_failure (ResponseIdleTimeout _) = True"
| "is_passive_health_failure (Grpc failure) = (failure \<notin> {StreamReset, GF_Protocol})"
| "is_passive_health_failure (Http err) =
     (\<not> he_body err \<and> (he_connect err \<or> he_timeout err \<or> he_request err))"
| "is_passive_health_failure _ = False"

fun error_chain_has_retryable_io :: "ErrorKind option list \<Rightarrow> bool" where
  "error_chain_has_retryable_io [] = False"
| "error_chain_has_retryable_io (Some kind # rest) = (kind \<noteq> OtherKind)"
| "error_chain_has_retryable_io (None # rest) = error_chain_has_retryable_io rest"

fun is_retryable_transport_failure :: "EgressError \<Rightarrow> bool" where
  "is_retryable_transport_failure (ResponseIdleTimeout _) = True"
| "is_retryable_transport_failure (Grpc _) = False"
| "is_retryable_transport_failure (Http err) =
     (if he_timeout err then True
      else if he_connect err then error_chain_has_retryable_io (he_sources err)
      else he_request err \<and> \<not> he_body err)"
| "is_retryable_transport_failure _ = False"

section \<open>The effective configuration\<close>

record 'net EgressConfig =
  eg_allowed_hosts :: "string set"
  eg_allowed_host_globs :: "string list"
  eg_private_ip_allow_cidrs :: "'net list"
  eg_allowed_ports :: "nat set"
  eg_timeout :: nat
  eg_response_idle_timeout :: nat
  eg_connect_timeout :: nat
  eg_max_response_bytes :: nat
  eg_max_request_body_bytes :: nat
  eg_nat64_prefixes :: "'net list"
  eg_deny_private_ips :: bool
  eg_tls_root_set_fingerprint :: string
  eg_client_identity_fingerprint :: "string option"
  eg_transport_partition :: "string option"

text \<open>The fields of the deployment's \<open>Config\<close> the egress configuration is made of.\<close>

datatype AuthProviderType = Jwt | CookieSession

record AuthProviderConfig =
  ap_provider_type :: AuthProviderType
  ap_jwks_url :: "string option"
  ap_issuer :: "string option"
  ap_introspection_url :: "string option"

record 'net DeploymentConfig =
  cf_egress_allowed_hosts :: "string list"
  cf_jwt_jwks_url :: "string option"
  cf_jwt_issuer :: "string option"
  cf_auth_providers :: "AuthProviderConfig list"
  cf_upstream_url :: "string option"
  cf_upstream_routes :: "(string \<times> string list) list"
  cf_egress_timeout_ms :: nat
  cf_egress_response_idle_timeout_ms :: nat
  cf_egress_connect_timeout_ms :: nat
  cf_egress_max_response_bytes :: nat
  cf_egress_max_request_body_bytes :: nat
  cf_egress_nat64_prefixes :: "'net list"
  cf_egress_deny_private_ips :: bool
  cf_upstream_timeout_ms :: "nat option"
  cf_upstream_response_idle_timeout_ms :: "nat option"
  cf_upstream_connect_timeout_ms :: "nat option"

type_synonym url_parser = "string \<Rightarrow> (string, Url) result"

text \<open>The first component is the allowlist, the second the hosts seeded so far.\<close>

definition auto_seed_endpoint_host ::
    "url_parser \<Rightarrow> string option \<Rightarrow> string set \<times> string list \<Rightarrow> string set \<times> string list" where
  "auto_seed_endpoint_host url_parse endpoint state =
     (case endpoint of
        None \<Rightarrow> state
      | Some e \<Rightarrow>
          (case url_parse e of
             Inl _ \<Rightarrow> state
           | Inr url \<Rightarrow>
               (case url_host_str url of
                  None \<Rightarrow> state
                | Some h \<Rightarrow>
                    let h' = str_lower h in
                    if h' \<in> fst state then state else (insert h' (fst state), snd state @ [h']))))"

definition provider_endpoints :: "AuthProviderConfig \<Rightarrow> string option list" where
  "provider_endpoints p =
     (case ap_provider_type p of
        Jwt \<Rightarrow> [ap_jwks_url p, ap_issuer p]
      | CookieSession \<Rightarrow> [ap_introspection_url p])"

definition route_endpoints :: "string \<times> string list \<Rightarrow> string option list" where
  "route_endpoints r = (if fst r \<noteq> [] then [Some (fst r)] else []) @ map Some (snd r)"

definition seeded_endpoints :: "'net DeploymentConfig \<Rightarrow> string option list" where
  "seeded_endpoints cf =
     [cf_jwt_jwks_url cf, cf_jwt_issuer cf] @ concat (map provider_endpoints (cf_auth_providers cf))
     @ [cf_upstream_url cf] @ concat (map route_endpoints (cf_upstream_routes cf))"

definition tls_root_set_fingerprint :: "digest_env \<Rightarrow> string \<Rightarrow> string" where
  "tls_root_set_fingerprint de pem_bundle =
     de_sha256 de (''greengateway:tls-root-set:v1'' @ [CHR 0x00] @ frame_part pem_bundle)"

definition tls_client_identity_fingerprint :: "digest_env \<Rightarrow> string \<Rightarrow> string" where
  "tls_client_identity_fingerprint de pem_identity =
     de_sha256 de (''greengateway:tls-client-identity:v1'' @ [CHR 0x00] @ frame_part pem_identity)"

definition TransportPartition_from_opaque :: "digest_env \<Rightarrow> string \<Rightarrow> string" where
  "TransportPartition_from_opaque de v =
     de_sha256 de (''greengateway:egress-transport-partition:v1'' @ [CHR 0x00] @ frame_part v)"

definition EgressConfig_default :: "digest_env \<Rightarrow> 'net EgressConfig" where
  "EgressConfig_default de =
     \<lparr>eg_allowed_hosts = {}, eg_allowed_host_globs = [], eg_private_ip_allow_cidrs = [],
      eg_allowed_ports = {}, eg_timeout = DEFAULT_TIMEOUT, eg_response_idle_timeout = DEFAULT_TIMEOUT,
      eg_connect_timeout = DEFAULT_CONNECT_TIMEOUT, eg_max_response_bytes = DEFAULT_MAX_RESPONSE_BYTES,
      eg_max_request_body_bytes = DEFAULT_MAX_REQUEST_BODY_BYTES, eg_nat64_prefixes = [],
      eg_deny_private_ips = True, eg_tls_root_set_fingerprint = tls_root_set_fingerprint de [],
      eg_client_identity_fingerprint = None, eg_transport_partition = None\<rparr>"

definition EgressConfig_from_config ::
    "digest_env \<Rightarrow> url_parser \<Rightarrow> 'net DeploymentConfig \<Rightarrow> 'net EgressConfig" where
  "EgressConfig_from_config de url_parse cf =
     \<lparr>eg_allowed_hosts =
        fst (foldl (\<lambda>st e. auto_seed_endpoint_host url_parse e st)
               (set (map str_lower (cf_egress_allowed_hosts cf)), []) (seeded_endpoints cf)),
      eg_allowed_host_globs = [], eg_private_ip_allow_cidrs = [], eg_allowed_ports = {},
      eg_timeout = from_millis (cf_egress_timeout_ms cf),
      eg_response_idle_timeout = from_millis (cf_egress_response_idle_timeout_ms cf),
      eg_connect_timeout = from_millis (cf_egress_connect_timeout_ms cf),
      eg_max_response_bytes = cf_egress_max_response_bytes cf,
      eg_max_request_body_bytes = cf_egress_max_request_body_bytes cf,
      eg_nat64_prefixes = cf_egress_nat64_prefixes cf,
      eg_deny_private_ips = cf_egress_deny_private_ips cf,
      eg_tls_root_set_fingerprint = tls_root_set_fingerprint de [],
      eg_client_identity_fingerprint = None, eg_transport_partition = None\<rparr>"

text \<open>The text of the parser's own error is left out of the message.\<close>

fun parse_cidrs :: "('net, 'x) egress_env_scheme \<Rightarrow> string list \<Rightarrow> (EgressError, 'net list) result" where
  "parse_cidrs env [] = Inr []"
| "parse_cidrs env (cidr # cidrs) =
     (case ext_parse_net env cidr of
        None \<Rightarrow> Inl (InvalidPolicy (''CIDR '' @ [CHR 0x27] @ cidr @ [CHR 0x27] @ '' is invalid''))
      | Some net \<Rightarrow> and_then (parse_cidrs env cidrs) (\<lambda>nets. Inr (net # nets)))"

definition apply_policy ::
    "('net, 'x) egress_env_scheme \<Rightarrow> EgressPolicy \<Rightarrow> 'net EgressConfig \<Rightarrow> (EgressError, 'net EgressConfig) result" where
  "apply_policy env policy c =
     and_then (parse_cidrs env (ep_cidrs policy)) (\<lambda>nets.
       Inr (c\<lparr>eg_allowed_host_globs := eg_allowed_host_globs c @ map str_lower (ep_hosts policy),
              eg_private_ip_allow_cidrs := eg_private_ip_allow_cidrs c @ nets,
              eg_allowed_ports := eg_allowed_ports c \<union> set (ep_ports policy)\<rparr>))"

definition from_config_and_policy ::
    "digest_env \<Rightarrow> ('net, 'x) egress_env_scheme \<Rightarrow> url_parser \<Rightarrow> 'net DeploymentConfig \<Rightarrow> EgressPolicy option
       \<Rightarrow> (EgressError, 'net EgressConfig) result" where
  "from_config_and_policy de env url_parse cf policy =
     (let effective = EgressConfig_from_config de url_parse cf in
      case policy of None \<Rightarrow> Inr effective | Some p \<Rightarrow> apply_policy env p effective)"

definition static_egress_controls :: "'net EgressConfig \<Rightarrow> 'net EgressControls" where
  "static_egress_controls c =
     \<lparr>ec_allowed_hosts = eg_allowed_hosts c, ec_allowed_host_globs = eg_allowed_host_globs c,
      ec_allowed_ports = eg_allowed_ports c, ec_deny_private_ips = eg_deny_private_ips c,
      ec_nat64_prefixes = eg_nat64_prefixes c, ec_private_ip_allow_cidrs = eg_private_ip_allow_cidrs c\<rparr>"

definition config_auto_seed_endpoint_host ::
    "url_parser \<Rightarrow> string \<Rightarrow> 'net EgressConfig \<Rightarrow> 'net EgressConfig \<times> string option" where
  "config_auto_seed_endpoint_host url_parse endpoint c =
     (let (hosts, seeded) = auto_seed_endpoint_host url_parse (Some endpoint) (eg_allowed_hosts c, [])
      in (c\<lparr>eg_allowed_hosts := hosts\<rparr>, (case seeded of [] \<Rightarrow> None | h # _ \<Rightarrow> Some h)))"

definition apply_timeout_overrides ::
    "nat option \<Rightarrow> nat option \<Rightarrow> nat option \<Rightarrow> 'net EgressConfig \<Rightarrow> 'net EgressConfig" where
  "apply_timeout_overrides timeout_ms idle_ms connect_ms c =
     c\<lparr>eg_timeout := (case timeout_ms of None \<Rightarrow> eg_timeout c | Some ms \<Rightarrow> from_millis ms),
       eg_response_idle_timeout := (case idle_ms of None \<Rightarrow> eg_response_idle_timeout c | Some ms \<Rightarrow> from_millis ms),
       eg_connect_timeout := (case connect_ms of None \<Rightarrow> eg_connect_timeout c | Some ms \<Rightarrow> from_millis ms)\<rparr>"

definition apply_upstream_timeout_overrides ::
    "'net DeploymentConfig \<Rightarrow> 'net EgressConfig \<Rightarrow> 'net EgressConfig" where
  "apply_upstream_timeout_overrides cf c =
     apply_timeout_overrides (cf_upstream_timeout_ms cf) (cf_upstream_response_idle_timeout_ms cf)
       (cf_upstream_connect_timeout_ms cf) c"

definition apply_transport_partition :: "digest_env \<Rightarrow> string \<Rightarrow> 'net EgressConfig \<Rightarrow> 'net EgressConfig" where
  "apply_transport_partition de opaque_id c =
     c\<lparr>eg_transport_partition := Some (TransportPartition_from_opaque de opaque_id)\<rparr>"

section \<open>NAT64 prefixes\<close>

text \<open>
  \<open>parse_nat64_prefixes\<close>: the accepted prefixes, with one entry per refused text. The loop over
  the comma-separated entries keeps the prefixes accepted so far. The problem texts are left out; \<open>None\<close> is
  an unset variable, and an undecodable one is a problem with no entry.
\<close>

datatype Nat64Problem =
    NP_NotUnicode | NP_Length string | NP_IPv4 string | NP_Invalid string | NP_Octet string
  | NP_WellKnown string | NP_Overlap string

datatype EnvVar = NotPresent | NotUnicode | VarValue string

definition nat64_entry ::
    "('net, 'x) egress_env_scheme \<Rightarrow> 'net registries \<Rightarrow> 'net list \<Rightarrow> string \<Rightarrow> (Nat64Problem, 'net) result" where
  "nat64_entry env reg accepted entry =
     (case ext_parse_net env entry of
        None \<Rightarrow> Inl (NP_Invalid entry)
      | Some net \<Rightarrow>
          (case eg_network env net of
             V4 _ \<Rightarrow> Inl (NP_IPv4 entry)
           | V6 base \<Rightarrow>
               if eg_prefix_len env net \<notin> {32, 40, 48, 56, 64, 96} then Inl (NP_Length entry)
               else if drop_bit 56 base AND 0xFF \<noteq> 0 then Inl (NP_Octet entry)
               else if ext_net_contains env (well_known_nat64 reg) (eg_network env net)
                       \<or> ext_net_contains env net (eg_network env (well_known_nat64 reg))
               then Inl (NP_WellKnown entry)
               else if list_ex (\<lambda>existing. ext_net_contains env existing (eg_network env net)
                                  \<or> ext_net_contains env net (eg_network env existing)) accepted
               then Inl (NP_Overlap entry)
               else Inr net))"

fun nat64_loop ::
    "('net, 'x) egress_env_scheme \<Rightarrow> 'net registries \<Rightarrow> string list \<Rightarrow> 'net list \<Rightarrow> Nat64Problem list
       \<Rightarrow> 'net list \<times> Nat64Problem list" where
  "nat64_loop env reg [] accepted problems = (accepted, problems)"
| "nat64_loop env reg (entry # entries) accepted problems =
     (case nat64_entry env reg accepted entry of
        Inl problem \<Rightarrow> nat64_loop env reg entries accepted (problems @ [problem])
      | Inr net \<Rightarrow> nat64_loop env reg entries (accepted @ [net]) problems)"

definition parse_nat64_prefixes ::
    "('net, 'x) egress_env_scheme \<Rightarrow> 'net registries \<Rightarrow> EnvVar \<Rightarrow> 'net list \<times> Nat64Problem list" where
  "parse_nat64_prefixes env reg v =
     (case v of
        NotPresent \<Rightarrow> ([], [])
      | NotUnicode \<Rightarrow> ([], [NP_NotUnicode])
      | VarValue s \<Rightarrow>
          nat64_loop env reg (filter (\<lambda>e. e \<noteq> []) (map str_trim (str_split CHR '','' s))) [] [])"

section \<open>Generations\<close>

definition be_bytes4 :: "nat \<Rightarrow> string" where
  "be_bytes4 n = map (\<lambda>i. char_of (n div 256 ^ i mod 256)) [3, 2, 1, 0]"

definition be_bytes2 :: "nat \<Rightarrow> string" where
  "be_bytes2 n = map (\<lambda>i. char_of (n div 256 ^ i mod 256)) [1, 0]"

text \<open>The bytes fed to the hasher.\<close>

definition hash_strings :: "string list \<Rightarrow> string" where
  "hash_strings xs = be_bytes8 (length xs mod 2 ^ 64) @ concat (map frame_part xs)"

definition hash_duration :: "nat \<Rightarrow> string" where
  "hash_duration d = be_bytes8 (d div 10 ^ 9) @ be_bytes4 (d mod 10 ^ 9)"

definition hash_egress_policy :: "('net, 'x) egress_env_scheme \<Rightarrow> 'net EgressConfig \<Rightarrow> string" where
  "hash_egress_policy env c =
     hash_strings (sorted_list_of_set (eg_allowed_hosts c))
     @ hash_strings (sort (eg_allowed_host_globs c))
     @ hash_strings (sort (map (eg_net_text env) (eg_private_ip_allow_cidrs c)))
     @ (let ports = sorted_list_of_set (eg_allowed_ports c)
        in be_bytes8 (length ports) @ concat (map be_bytes2 ports))
     @ hash_strings (sort (map (eg_net_text env) (eg_nat64_prefixes c)))
     @ [char_of (if eg_deny_private_ips c then 1 else 0 :: nat)]"

definition hash_optional :: "string option \<Rightarrow> string" where
  "hash_optional v = (case v of Some x \<Rightarrow> CHR 0x01 # x | None \<Rightarrow> [CHR 0x00])"

definition egress_config_generation :: "digest_env \<Rightarrow> ('net, 'x) egress_env_scheme \<Rightarrow> 'net EgressConfig \<Rightarrow> string" where
  "egress_config_generation de env c =
     de_sha256 de
       (''greengateway:egress-config-generation:v2'' @ [CHR 0x00] @ hash_egress_policy env c
        @ hash_duration (eg_timeout c) @ hash_duration (eg_response_idle_timeout c)
        @ hash_duration (eg_connect_timeout c) @ be_bytes8 (eg_max_response_bytes c)
        @ be_bytes8 (eg_max_request_body_bytes c) @ eg_tls_root_set_fingerprint c
        @ hash_optional (eg_client_identity_fingerprint c) @ hash_optional (eg_transport_partition c))"

definition egress_policy_generation :: "digest_env \<Rightarrow> ('net, 'x) egress_env_scheme \<Rightarrow> 'net EgressConfig \<Rightarrow> string" where
  "egress_policy_generation de env c =
     de_sha256 de (''greengateway:egress-policy-generation:v1'' @ [CHR 0x00] @ hash_egress_policy env c)"

end
