(* ===== verification/Egress_Client.thy ===== *)
theory Egress_Client
  imports Egress_Config
begin

text \<open>
  The egress client (\<open>gateway/src/egress.rs\<close>): the adapter that asks the static egress lane about a
  destination, resolves what the lane admits, pins the address and checks it again before each use, and the
  bounds on request and response bodies. The DNS resolver is an argument, and \<open>checked_destination\<close> returns
  the lookups it made beside its result. The pooled transport that connects is outside the model.
\<close>

record 'net runtime =
  rt_digest :: digest_env
  rt_env :: "'net egress_env"
  rt_registries :: "'net registries"
  rt_url_parse :: url_parser

type_synonym resolver = "string \<Rightarrow> nat \<Rightarrow> (string, SocketAddr list) result"

record 'net EgressClient =
  cl_config :: "'net EgressConfig"
  cl_static_policy :: "'net CompiledEgressPolicy"
  cl_config_generation :: string
  cl_policy_generation :: string

record CheckedEgressDestination =
  cd_scheme :: string
  cd_host :: string
  cd_pinned_addr :: SocketAddr
  cd_config_generation :: string
  cd_policy_generation :: string

text \<open>\<open>transport\<close> validates a transport profile: \<open>base_client_builder\<close> and the build of its client.\<close>

definition EgressClient_new ::
    "'net runtime \<Rightarrow> ('net EgressConfig \<Rightarrow> (EgressError, unit) result) \<Rightarrow> 'net EgressConfig
       \<Rightarrow> (EgressError, 'net EgressClient) result" where
  "EgressClient_new rt transport c =
     and_then (transport c) (\<lambda>_.
       Inr \<lparr>cl_config = c,
            cl_static_policy = CompiledEgressPolicy_new (rt_digest rt) (rt_env rt) (static_egress_controls c),
            cl_config_generation = egress_config_generation (rt_digest rt) (rt_env rt) c,
            cl_policy_generation = egress_policy_generation (rt_digest rt) (rt_env rt) c\<rparr>)"

definition with_response_cap ::
    "'net runtime \<Rightarrow> ('net EgressConfig \<Rightarrow> (EgressError, unit) result) \<Rightarrow> nat \<Rightarrow> 'net EgressClient
       \<Rightarrow> (EgressError, 'net EgressClient) result" where
  "with_response_cap rt transport maximum cl =
     EgressClient_new rt transport
       ((cl_config cl)\<lparr>eg_max_response_bytes := min (eg_max_response_bytes (cl_config cl)) maximum\<rparr>)"

section \<open>The adapter\<close>

record AdmittedDestination =
  ad_url :: Url
  ad_facts :: EgressDestination
  ad_host :: string
  ad_port :: nat

definition matches_authority_of :: "AdmittedDestination \<Rightarrow> CheckedEgressDestination \<Rightarrow> bool" where
  "matches_authority_of admitted d =
     (cd_scheme d = url_scheme (ad_url admitted) \<and> cd_host d = ad_host admitted
      \<and> sa_port (cd_pinned_addr d) = ad_port admitted)"

definition unanswered_static_egress :: EgressError where
  "unanswered_static_egress = InvalidPolicy ''static egress evaluation did not answer''"

definition static_egress_refusal ::
    "EgressDenial \<Rightarrow> Url \<Rightarrow> EgressDestination \<Rightarrow> SocketAddr list \<Rightarrow> EgressError" where
  "static_egress_refusal denial url facts answers =
     (let h = (case ed_host facts of Some h \<Rightarrow> h | None \<Rightarrow> []);
          port = (case ed_port facts of Some p \<Rightarrow> p | None \<Rightarrow> 0)
      in case denial of
           MissingHost \<Rightarrow> InvalidUrl ''missing host''
         | Userinfo \<Rightarrow> InvalidUrl ''URL userinfo is not allowed''
         | Fragment \<Rightarrow> InvalidUrl ''URL fragments are not allowed''
         | ED_SchemeNotAllowed \<Rightarrow> SchemeNotAllowed (url_scheme url)
         | ED_HostNotAllowed \<Rightarrow> HostNotAllowed h
         | MissingPort \<Rightarrow> InvalidUrl ''missing port for URL scheme''
         | ED_PortNotAllowed \<Rightarrow> PortNotAllowed port
         | EmptyResolution \<Rightarrow> DnsResolutionFailed (h @ '':'' @ dec_of_nat port)
         | UnexpectedResolvedPort \<Rightarrow>
             DnsResolutionFailed (h @ '':'' @ dec_of_nat port @ '': resolver returned an unexpected port'')
         | NonGlobalAddress index \<Rightarrow>
             if index < length answers then NonGlobalIpBlocked (sa_ip (answers ! index))
             else unanswered_static_egress)"

definition evaluate_static_egress ::
    "'net runtime \<Rightarrow> 'net CompiledEgressPolicy \<Rightarrow> EgressDestination \<Rightarrow> ResolutionFact
       \<Rightarrow> (EvaluationError, EgressOutcome) result" where
  "evaluate_static_egress rt pol facts resolution =
     and_then (evaluate_egress (rt_digest rt) (rt_env rt) (rt_registries rt) pol
         \<lparr>xc_version = EGRESS_CONTEXT_VERSION, xc_snapshot = ce_snapshot pol, xc_destination = facts,
          xc_resolution = resolution\<rparr>)
       (\<lambda>ev. Inr (xe_outcome ev))"

definition admitted_from_answer ::
    "Url \<Rightarrow> EgressDestination \<Rightarrow> (EvaluationError, EgressOutcome) result
       \<Rightarrow> (EgressError, AdmittedDestination) result" where
  "admitted_from_answer url facts answer =
     (case answer of
        Inr (EO_Indeterminate MissingResolution) \<Rightarrow>
          (case (ed_host facts, ed_port facts) of
             (Some h, Some port) \<Rightarrow> Inr \<lparr>ad_url = url, ad_facts = facts, ad_host = h, ad_port = port\<rparr>
           | _ \<Rightarrow> Inl unanswered_static_egress)
      | Inr (EO_Deny denial) \<Rightarrow> Inl (static_egress_refusal denial url facts [])
      | Inr (EO_Allow _) \<Rightarrow> Inl unanswered_static_egress
      | Inl error \<Rightarrow> Inl unanswered_static_egress)"

definition address_from_answer ::
    "AdmittedDestination \<Rightarrow> SocketAddr list \<Rightarrow> (EvaluationError, EgressOutcome) result
       \<Rightarrow> (EgressError, SocketAddr) result" where
  "address_from_answer admitted answers answer =
     (case answer of
        Inr (EO_Allow pinned) \<Rightarrow>
          if pinned < length answers then Inr (answers ! pinned) else Inl unanswered_static_egress
      | Inr (EO_Deny denial) \<Rightarrow> Inl (static_egress_refusal denial (ad_url admitted) (ad_facts admitted) answers)
      | Inr (EO_Indeterminate _) \<Rightarrow> Inl unanswered_static_egress
      | Inl error \<Rightarrow> Inl unanswered_static_egress)"

definition admit_destination ::
    "'net runtime \<Rightarrow> 'net CompiledEgressPolicy \<Rightarrow> string \<Rightarrow> (EgressError, AdmittedDestination) result" where
  "admit_destination rt pol url =
     (case rt_url_parse rt url of
        Inl err \<Rightarrow> Inl (InvalidUrl err)
      | Inr parsed \<Rightarrow>
          let facts = EgressDestination_from_url parsed
          in admitted_from_answer parsed facts (evaluate_static_egress rt pol facts RF_Missing))"

definition admit_address ::
    "'net runtime \<Rightarrow> 'net CompiledEgressPolicy \<Rightarrow> AdmittedDestination \<Rightarrow> SocketAddr list
       \<Rightarrow> (EgressError, SocketAddr) result" where
  "admit_address rt pol admitted answers =
     address_from_answer admitted answers
       (evaluate_static_egress rt pol (ad_facts admitted) (RF_Resolved answers))"

definition resolve_and_check ::
    "'net runtime \<Rightarrow> 'net EgressClient \<Rightarrow> resolver \<Rightarrow> AdmittedDestination
       \<Rightarrow> (string \<times> nat) list \<times> (EgressError, SocketAddr) result" where
  "resolve_and_check rt cl resolve admitted =
     ([(ad_host admitted, ad_port admitted)],
      (case resolve (ad_host admitted) (ad_port admitted) of
         Inl err \<Rightarrow>
           Inl (DnsResolutionFailed (ad_host admitted @ '':'' @ dec_of_nat (ad_port admitted) @ '': '' @ err))
       | Inr resolved \<Rightarrow> admit_address rt (cl_static_policy cl) admitted resolved))"

definition checked_destination ::
    "'net runtime \<Rightarrow> 'net EgressClient \<Rightarrow> resolver \<Rightarrow> string
       \<Rightarrow> (string \<times> nat) list \<times> (EgressError, CheckedEgressDestination) result" where
  "checked_destination rt cl resolve url =
     (case admit_destination rt (cl_static_policy cl) url of
        Inl err \<Rightarrow> ([], Inl err)
      | Inr admitted \<Rightarrow>
          let (lookups, pinned) = resolve_and_check rt cl resolve admitted
          in (lookups, and_then pinned (\<lambda>pinned_addr.
                Inr \<lparr>cd_scheme = url_scheme (ad_url admitted), cd_host = ad_host admitted,
                     cd_pinned_addr = pinned_addr, cd_config_generation = cl_config_generation cl,
                     cd_policy_generation = cl_policy_generation cl\<rparr>)))"

definition rebind_checked_destination ::
    "'net runtime \<Rightarrow> 'net EgressClient \<Rightarrow> CheckedEgressDestination \<Rightarrow> string
       \<Rightarrow> (EgressError, CheckedEgressDestination) result" where
  "rebind_checked_destination rt cl d url =
     (if cd_policy_generation d \<noteq> cl_policy_generation cl
      then Inl (InvalidPolicy ''checked destination belongs to a different egress policy'')
      else
        and_then (admit_destination rt (cl_static_policy cl) url) (\<lambda>admitted.
        if \<not> matches_authority_of admitted d
        then Inl (InvalidPolicy ''checked destination does not match the request authority'')
        else
          and_then (admit_address rt (cl_static_policy cl) admitted [cd_pinned_addr d]) (\<lambda>_.
          Inr (d\<lparr>cd_config_generation := cl_config_generation cl,
                 cd_policy_generation := cl_policy_generation cl\<rparr>))))"

definition revalidated_destination ::
    "'net runtime \<Rightarrow> 'net EgressClient \<Rightarrow> CheckedEgressDestination \<Rightarrow> string
       \<Rightarrow> (EgressError, Url \<times> string \<times> nat) result" where
  "revalidated_destination rt cl d url =
     (if cd_config_generation d \<noteq> cl_config_generation cl
      then Inl (InvalidPolicy ''checked destination belongs to a different egress configuration'')
      else
        and_then (admit_destination rt (cl_static_policy cl) url) (\<lambda>admitted.
        if \<not> matches_authority_of admitted d
        then Inl (InvalidPolicy ''checked destination does not match the request authority'')
        else
          and_then (admit_address rt (cl_static_policy cl) admitted [cd_pinned_addr d]) (\<lambda>_.
          Inr (ad_url admitted, ad_host admitted, ad_port admitted))))"

section \<open>Body bounds\<close>

definition enforce_request_body_size :: "nat \<Rightarrow> nat \<Rightarrow> (EgressError, unit) result" where
  "enforce_request_body_size n bound =
     (if n > bound then Inl (RequestBodyTooLarge n bound) else Inr ())"

text \<open>A streamed body is the sequence of its chunks, each a failure or bytes.\<close>

type_synonym body_stream = "(unit, string) result list"

datatype EgressRequestBody = Empty | Buffered string | Streaming body_stream "nat option"

definition USIZE_MAX :: nat where "USIZE_MAX = 2 ^ 64 - 1"

definition enforce_known_size :: "EgressRequestBody \<Rightarrow> nat \<Rightarrow> (EgressError, unit) result" where
  "enforce_known_size body bound =
     (case body of
        Empty \<Rightarrow> Inr ()
      | Buffered bytes \<Rightarrow> enforce_request_body_size (length bytes) bound
      | Streaming _ (Some n) \<Rightarrow>
          if n > bound then enforce_request_body_size n bound else Inr ()
      | Streaming _ None \<Rightarrow> Inr ())"

datatype BodyFailure = REQUEST_BODY_OK | REQUEST_BODY_TOO_LARGE | REQUEST_BODY_READ_FAILED

record CountedRequestBodyState =
  cs_stream :: body_stream
  cs_streamed_bytes :: nat
  cs_overflow_pending :: bool

text \<open>One poll: the item yielded, if the stream has not ended, the next state, and the failure stored.\<close>

definition counted_poll ::
    "nat \<Rightarrow> CountedRequestBodyState
       \<Rightarrow> ((unit, string) result \<times> CountedRequestBodyState) option \<times> BodyFailure option" where
  "counted_poll bound st =
     (if cs_overflow_pending st then (Some (Inl (), st), Some REQUEST_BODY_TOO_LARGE)
      else
        (case cs_stream st of
           [] \<Rightarrow> (None, None)
         | Inl _ # rest \<Rightarrow> (Some (Inl (), st\<lparr>cs_stream := rest\<rparr>), Some REQUEST_BODY_READ_FAILED)
         | Inr chunk # rest \<Rightarrow>
             let remaining = bound - cs_streamed_bytes st; st' = st\<lparr>cs_stream := rest\<rparr> in
             if length chunk \<le> remaining
             then (Some (Inr chunk, st'\<lparr>cs_streamed_bytes := cs_streamed_bytes st + length chunk\<rparr>), None)
             else if remaining = 0 then (Some (Inl (), st'), Some REQUEST_BODY_TOO_LARGE)
             else (Some (Inr (take remaining chunk),
                         st'\<lparr>cs_streamed_bytes := bound, cs_overflow_pending := True\<rparr>), None)))"

text \<open>
  The transport polls until the stream ends or fails: what it sent, and the failure it reads. Every poll
  that yields bytes consumes a chunk, so one more poll than there are chunks is enough.
\<close>

fun drive_body :: "nat \<Rightarrow> nat \<Rightarrow> CountedRequestBodyState \<Rightarrow> (string list \<times> BodyFailure) option" where
  "drive_body 0 bound st = None"
| "drive_body (Suc fuel) bound st =
     (case counted_poll bound st of
        (None, _) \<Rightarrow> Some ([], REQUEST_BODY_OK)
      | (Some (Inl _, _), failure) \<Rightarrow>
          Some ([], (case failure of Some f \<Rightarrow> f | None \<Rightarrow> REQUEST_BODY_OK))
      | (Some (Inr chunk, st'), _) \<Rightarrow>
          map_option (\<lambda>(sent, f). (chunk # sent, f)) (drive_body fuel bound st'))"

definition counted_request_body_stream :: "body_stream \<Rightarrow> CountedRequestBodyState" where
  "counted_request_body_stream chunks =
     \<lparr>cs_stream = chunks, cs_streamed_bytes = 0, cs_overflow_pending = False\<rparr>"

definition saturating_add :: "nat \<Rightarrow> nat \<Rightarrow> nat" where
  "saturating_add a b = min USIZE_MAX (a + b)"

text \<open>The collecting loop of \<open>send_with_client\<close> and \<open>send_sensitive_with_client\<close>.\<close>

fun collect_response :: "nat \<Rightarrow> (HttpError, string) result list \<Rightarrow> string \<Rightarrow> (EgressError, string) result" where
  "collect_response bound [] body = Inr body"
| "collect_response bound (Inl err # rest) body = Inl (Http err)"
| "collect_response bound (Inr chunk # rest) body =
     (if saturating_add (length body) (length chunk) > bound
      then Inl (ResponseTooLarge (saturating_add (length body) (length chunk)) bound)
      else collect_response bound rest (body @ chunk))"

text \<open>
  What a streamed response yields. An event is what waiting for the next chunk with the idle timeout gave:
  a chunk, an error, or no chunk in time.
\<close>

datatype StreamEvent = SE_Chunk string | SE_Error HttpError | SE_Idle

fun stream_response ::
    "nat option \<Rightarrow> nat \<Rightarrow> StreamEvent list \<Rightarrow> nat \<Rightarrow> (EgressError, string) result list" where
  "stream_response bound idle [] streamed = []"
| "stream_response bound idle (SE_Chunk chunk # rest) streamed =
     (if (case bound of None \<Rightarrow> False | Some maximum \<Rightarrow> saturating_add streamed (length chunk) > maximum)
      then [Inl (ResponseTooLarge (saturating_add streamed (length chunk))
                   (case bound of Some maximum \<Rightarrow> maximum | None \<Rightarrow> 0))]
      else Inr chunk # stream_response bound idle rest (streamed + length chunk))"
| "stream_response bound idle (SE_Error err # rest) streamed = [Inl (Http err)]"
| "stream_response bound idle (SE_Idle # rest) streamed = [Inl (ResponseIdleTimeout idle)]"

lemmas egress_client_defs = static_egress_controls_def EgressClient_new_def matches_authority_of_def unanswered_static_egress_def
  static_egress_refusal_def evaluate_static_egress_def admitted_from_answer_def address_from_answer_def
  admit_destination_def admit_address_def resolve_and_check_def checked_destination_def
  rebind_checked_destination_def revalidated_destination_def

declare egress_client_defs [eval_defs]

end
