(* ===== verification/Egress_Properties.thy ===== *)
theory Egress_Properties
  imports Egress_Client Binding_Properties "HOL-Library.Multiset"
begin

text \<open>
  Correctness of the egress boundary: which destinations a client can reach, when a name is looked up,
  that a checked destination stays usable, that the order in which controls are listed does not matter, that
  generations identify the effective policy, and the bounds on bodies.
\<close>

section \<open>Host patterns\<close>

lemma ends_with_dot:
  "length h > length suff \<and> ends_with h suff \<and> h ! (length h - length suff - 1) = c \<longleftrightarrow> (\<exists>label. h = label @ c # suff)"
proof
  assume a: "length h > length suff \<and> ends_with h suff \<and> h ! (length h - length suff - 1) = c"
  then obtain t where t: "h = t @ suff" by (auto simp: ends_with_iff)
  with a have "t \<noteq> []" "t ! (length t - 1) = c" by (auto simp: nth_append)
  then have "t = butlast t @ [c]" by (metis append_butlast_last_id last_conv_nth)
  with t show "\<exists>label. h = label @ c # suff" by (metis append.assoc append_Cons append_Nil)
next
  assume "\<exists>label. h = label @ c # suff"
  then show "length h > length suff \<and> ends_with h suff \<and> h ! (length h - length suff - 1) = c"
    by (auto simp: ends_with_iff nth_append)
qed

text \<open>
  Host patterns. Case aside, a pattern \<open>*.s\<close> matches exactly the names that end in a dot and \<open>s\<close>: every
  name below \<open>s\<close>, at any depth, but neither \<open>s\<close> itself nor a name that merely ends in the same letters; any
  other pattern matches exactly itself.
\<close>

theorem host_glob_matches_iff:
  "host_glob_matches pat h \<longleftrightarrow>
     (case strip_prefix (str_lower pat) ''*.'' of
        Some suff \<Rightarrow> \<exists>label. str_lower h = label @ ''.'' @ suff
      | None \<Rightarrow> str_lower h = str_lower pat)"
  using ends_with_dot [of _ "str_lower h" "CHR ''.''"]
  by (simp add: host_glob_matches_def Let_def split: option.split)

section \<open>The lane\<close>

text \<open>What the controls admit of a parsed URL, as a specification.\<close>

definition destination_allowed :: "'net EgressControls \<Rightarrow> Url \<Rightarrow> string \<Rightarrow> nat \<Rightarrow> bool" where
  "destination_allowed c url h port =
     (map_option str_lower (url_host_str url) = Some h \<and> url_port_or_known_default url = Some port
      \<and> url_scheme url \<in> {''http'', ''https''}
      \<and> url_username url = [] \<and> url_password url = None \<and> url_fragment url = None
      \<and> (h \<in> ec_allowed_hosts c \<or> (\<exists>pat\<in>set (ec_allowed_host_globs c). host_glob_matches pat h))
      \<and> (ec_allowed_ports c = {} \<or> port \<in> ec_allowed_ports c))"

definition address_allowed ::
    "('net, 'x) egress_env_scheme \<Rightarrow> 'net registries \<Rightarrow> 'net EgressControls \<Rightarrow> IpAddr \<Rightarrow> bool" where
  "address_allowed env reg c ip =
     (ec_deny_private_ips c \<longrightarrow>
        \<not> is_non_global_ip env reg ip (ec_nat64_prefixes c)
        \<or> (\<exists>cidr\<in>set (ec_private_ip_allow_cidrs c). ext_net_contains env cidr ip))"

lemma address_refused_iff:
  "ec_deny_private_ips c \<Longrightarrow> address_refused env reg c ip \<longleftrightarrow> \<not> address_allowed env reg c ip"
  by (auto simp: address_refused_def address_allowed_def ip_matches_policy_cidr_def list_ex_iff)

lemma position_None: "position P xs = None \<longleftrightarrow> (\<forall>x\<in>set xs. \<not> P x)"
  by (induction xs) auto

lemma position_Some: "position P xs = Some i \<Longrightarrow> \<exists>x\<in>set xs. P x"
  by (induction xs arbitrary: i) (auto split: if_splits)

lemma lane_admit_from_url:
  "lane_admit_destination pol (EgressDestination_from_url url) = Inr port
   \<longleftrightarrow> (\<exists>h. destination_allowed (ce_controls pol) url h port)"
  by (auto simp: lane_admit_destination_def EgressDestination_from_url_def destination_allowed_def list_ex_iff
      split: option.splits if_splits)

definition static_denials :: "EgressDenial set" where
  "static_denials = {MissingHost, Userinfo, Fragment, ED_SchemeNotAllowed, ED_HostNotAllowed, MissingPort, ED_PortNotAllowed}"

lemma lane_admit_denials: "lane_admit_destination pol d = Inl denial \<Longrightarrow> denial \<in> static_denials"
  by (auto simp: lane_admit_destination_def static_denials_def split: option.splits if_splits)

lemma check_answers_allow:
  "check_answers env reg pol port answers = EO_Allow pinned \<longleftrightarrow>
     pinned = 0 \<and> answers \<noteq> []
     \<and> (\<forall>a\<in>set answers. sa_port a = port \<and> address_allowed env reg (ce_controls pol) (sa_ip a))"
proof (cases "ec_deny_private_ips (ce_controls pol)")
  case True
  then show ?thesis
    by (auto simp: check_answers_def list_ex_iff position_None address_refused_iff split: option.splits
        dest: position_Some)
next
  case False
  then show ?thesis by (auto simp: check_answers_def list_ex_iff address_allowed_def)
qed

lemma check_answers_not_indeterminate: "check_answers env reg pol port answers \<noteq> EO_Indeterminate l"
  by (auto simp: check_answers_def split: option.splits)

section \<open>The adapter\<close>

text \<open>The client supplies its own version and snapshot, so only the encoder can refuse the question.\<close>

lemma evaluate_static_egress_eq:
  "evaluate_static_egress rt pol facts resolution =
     (if de_to_vec (rt_digest rt) (egress_context_json \<lparr>xc_version = EGRESS_CONTEXT_VERSION,
           xc_snapshot = ce_snapshot pol, xc_destination = facts, xc_resolution = resolution\<rparr>) = None
      then Inl TraceEncoding
      else Inr (lane_outcome (rt_env rt) (rt_registries rt) pol facts resolution))"
  by (auto simp: evaluate_static_egress_def evaluate_egress_def egress_context_validate_def
      egress_context_binding_def Let_def split: prod.split)

lemma admit_destination_Inr:
  assumes "admit_destination rt pol url = Inr ad"
  obtains parsed where "rt_url_parse rt url = Inr parsed" "ad_url ad = parsed"
    "ad_facts ad = EgressDestination_from_url parsed"
    "destination_allowed (ce_controls pol) parsed (ad_host ad) (ad_port ad)"
proof -
  obtain parsed where p: "rt_url_parse rt url = Inr parsed"
    using assms by (auto simp: admit_destination_def split: sum.splits)
  let ?f = "EgressDestination_from_url parsed"
  have a: "admitted_from_answer parsed ?f (evaluate_static_egress rt pol ?f RF_Missing) = Inr ad"
    using assms p by (simp add: admit_destination_def Let_def)
  then obtain port where port: "lane_admit_destination pol ?f = Inr port"
    by (auto simp: admitted_from_answer_def evaluate_static_egress_eq lane_outcome_def split: if_splits sum.splits)
  then obtain h where h: "destination_allowed (ce_controls pol) parsed h port" by (auto simp: lane_admit_from_url)
  then have "ad = \<lparr>ad_url = parsed, ad_facts = ?f, ad_host = h, ad_port = port\<rparr>"
    using a port by (auto simp: admitted_from_answer_def evaluate_static_egress_eq lane_outcome_def
        destination_allowed_def EgressDestination_from_url_def split: if_splits)
  with h p that show thesis by simp
qed

lemma lane_port_of_allowed:
  "destination_allowed (ce_controls pol) parsed h port
   \<Longrightarrow> lane_admit_destination pol (EgressDestination_from_url parsed) = Inr port"
  by (auto simp: lane_admit_from_url)

lemma admit_address_iff:
  assumes "ad_facts ad = EgressDestination_from_url parsed"
    and "destination_allowed (ce_controls pol) parsed h (ad_port ad)"
  shows "admit_address rt pol ad answers = Inr a \<longleftrightarrow>
     de_to_vec (rt_digest rt) (egress_context_json \<lparr>xc_version = EGRESS_CONTEXT_VERSION,
           xc_snapshot = ce_snapshot pol, xc_destination = ad_facts ad, xc_resolution = RF_Resolved answers\<rparr>) \<noteq> None
     \<and> answers \<noteq> [] \<and> a = hd answers
     \<and> (\<forall>x\<in>set answers. sa_port x = ad_port ad
           \<and> address_allowed (rt_env rt) (rt_registries rt) (ce_controls pol) (sa_ip x))"
proof -
  have lane: "lane_outcome (rt_env rt) (rt_registries rt) pol (ad_facts ad) (RF_Resolved answers)
      = check_answers (rt_env rt) (rt_registries rt) pol (ad_port ad) answers"
    using assms by (simp add: lane_outcome_def lane_port_of_allowed)
  show ?thesis
  proof (cases "check_answers (rt_env rt) (rt_registries rt) pol (ad_port ad) answers")
    case (EO_Allow pinned)
    then show ?thesis using check_answers_allow [of "rt_env rt" "rt_registries rt" pol "ad_port ad" answers pinned]
      by (auto simp: admit_address_def evaluate_static_egress_eq lane address_from_answer_def hd_conv_nth)
  next
    case (EO_Deny denial)
    then show ?thesis using check_answers_allow [of "rt_env rt" "rt_registries rt" pol "ad_port ad" answers 0]
      by (auto simp: admit_address_def evaluate_static_egress_eq lane address_from_answer_def)
  next
    case (EO_Indeterminate x)
    then show ?thesis by (simp add: check_answers_not_indeterminate)
  qed
qed

lemma checked_destination_Inr:
  assumes "checked_destination rt cl resolve url = (lookups, Inr d)"
  obtains ad answers where "admit_destination rt (cl_static_policy cl) url = Inr ad"
    "lookups = [(ad_host ad, ad_port ad)]" "resolve (ad_host ad) (ad_port ad) = Inr answers"
    "admit_address rt (cl_static_policy cl) ad answers = Inr (cd_pinned_addr d)"
    "d = \<lparr>cd_scheme = url_scheme (ad_url ad), cd_host = ad_host ad, cd_pinned_addr = cd_pinned_addr d,
          cd_config_generation = cl_config_generation cl, cd_policy_generation = cl_policy_generation cl\<rparr>"
  using assms by (auto simp: checked_destination_def resolve_and_check_def and_then_eq_Inr split: sum.splits)


lemma admitted_from_answer_refused:
  assumes "admit_destination rt pol url = Inl e"
  shows "\<not> is_passive_health_failure e \<and> \<not> is_retryable_transport_failure e"
proof (cases "rt_url_parse rt url")
  case (Inl err)
  then show ?thesis using assms by (auto simp: admit_destination_def)
next
  case (Inr parsed)
  let ?f = "EgressDestination_from_url parsed"
  show ?thesis
  proof (cases "lane_admit_destination pol ?f")
    case (Inl denial)
    then have "denial \<in> static_denials" by (rule lane_admit_denials)
    with Inl Inr assms show ?thesis
      by (auto simp: admit_destination_def Let_def admitted_from_answer_def evaluate_static_egress_eq
          lane_outcome_def static_denials_def static_egress_refusal_def unanswered_static_egress_def split: if_splits)
  next
    case (Inr port)
    with \<open>rt_url_parse rt url = Inr parsed\<close> assms show ?thesis
      by (auto simp: admit_destination_def Let_def admitted_from_answer_def evaluate_static_egress_eq
          lane_outcome_def unanswered_static_egress_def split: if_splits option.splits)
  qed
qed

text \<open>
  C7. No lookup before admission. Asking a client for a URL either looks up exactly one name, which the
  controls admit with its port, or makes no lookup at all and fails with an error that does not depend on
  the resolver and counts neither against the endpoint's health nor as worth a retry.
\<close>

theorem lookup_only_after_admission:
  "(\<exists>parsed h port. rt_url_parse rt url = Inr parsed
       \<and> destination_allowed (ce_controls (cl_static_policy cl)) parsed h port
       \<and> (\<forall>resolve. fst (checked_destination rt cl resolve url) = [(h, port)]))
   \<or> (\<exists>e. (\<forall>resolve. checked_destination rt cl resolve url = ([], Inl e))
       \<and> \<not> is_passive_health_failure e \<and> \<not> is_retryable_transport_failure e)"
proof (cases "admit_destination rt (cl_static_policy cl) url")
  case (Inl e)
  then have "\<forall>resolve. checked_destination rt cl resolve url = ([], Inl e)"
    by (simp add: checked_destination_def)
  with admitted_from_answer_refused [OF Inl] show ?thesis by blast
next
  case (Inr ad)
  then have "\<forall>resolve. fst (checked_destination rt cl resolve url) = [(ad_host ad, ad_port ad)]"
    by (simp add: checked_destination_def resolve_and_check_def)
  moreover obtain parsed where "rt_url_parse rt url = Inr parsed"
    "destination_allowed (ce_controls (cl_static_policy cl)) parsed (ad_host ad) (ad_port ad)"
    using admit_destination_Inr [OF Inr] by metis
  ultimately show ?thesis by blast
qed

lemma revalidated_pinned:
  assumes "\<forall>v. de_to_vec (rt_digest rt) v \<noteq> None"
    and ad: "admit_destination rt (cl_static_policy cl) url = Inr ad" "matches_authority_of ad d"
    and pin: "admit_address rt (cl_static_policy cl) ad answers = Inr a" "cd_pinned_addr d \<in> set answers"
    and gen: "cd_config_generation d = cl_config_generation cl"
  shows "revalidated_destination rt cl d url = Inr (ad_url ad, cd_host d, sa_port (cd_pinned_addr d))"
proof -
  obtain parsed where p: "ad_facts ad = EgressDestination_from_url parsed"
    "destination_allowed (ce_controls (cl_static_policy cl)) parsed (ad_host ad) (ad_port ad)"
    using admit_destination_Inr [OF ad(1)] by metis
  have "admit_address rt (cl_static_policy cl) ad [cd_pinned_addr d] = Inr (cd_pinned_addr d)"
    using pin assms(1) by (simp add: admit_address_iff [OF p])
  then show ?thesis using ad gen by (simp add: revalidated_destination_def matches_authority_of_def)
qed

text \<open>
  Checked destinations stay usable. A destination a client has just checked passes that client's
  revalidation for the same URL, with the host that was checked and the port of the pinned address.
\<close>

theorem checked_destination_usable:
  assumes "\<forall>v. de_to_vec (rt_digest rt) v \<noteq> None"
    and "checked_destination rt cl resolve url = (lookups, Inr d)"
  shows "\<exists>parsed. rt_url_parse rt url = Inr parsed
     \<and> revalidated_destination rt cl d url = Inr (parsed, cd_host d, sa_port (cd_pinned_addr d))"
proof -
  obtain ad answers where ad: "admit_destination rt (cl_static_policy cl) url = Inr ad"
    and pin: "admit_address rt (cl_static_policy cl) ad answers = Inr (cd_pinned_addr d)"
    and d: "d = \<lparr>cd_scheme = url_scheme (ad_url ad), cd_host = ad_host ad, cd_pinned_addr = cd_pinned_addr d,
          cd_config_generation = cl_config_generation cl, cd_policy_generation = cl_policy_generation cl\<rparr>"
    by (rule checked_destination_Inr [OF assms(2)])
  obtain parsed where p: "rt_url_parse rt url = Inr parsed" "ad_url ad = parsed"
    "ad_facts ad = EgressDestination_from_url parsed"
    "destination_allowed (ce_controls (cl_static_policy cl)) parsed (ad_host ad) (ad_port ad)"
    by (rule admit_destination_Inr [OF ad])
  from pin have c: "cd_pinned_addr d \<in> set answers" "sa_port (cd_pinned_addr d) = ad_port ad"
    by (auto simp: admit_address_iff [OF p(3,4)])
  moreover have "matches_authority_of ad d" by (subst d) (simp add: matches_authority_of_def c)
  moreover have "cd_config_generation d = cl_config_generation cl" by (subst d) simp
  ultimately show ?thesis using revalidated_pinned [OF assms(1) ad _ pin] p by blast
qed

text \<open>
  C35. Rebinding. A destination is rebound to another client only if it was checked under the same policy
  generation; only its generations change; this client's own controls admit the URL and the pinned
  address; and the rebound destination then passes this client's revalidation.
\<close>

theorem rebound_destination_safe:
  assumes "\<forall>v. de_to_vec (rt_digest rt) v \<noteq> None"
    and "rebind_checked_destination rt cl d url = Inr d'"
  shows "cd_policy_generation d = cl_policy_generation cl
   \<and> d' = d\<lparr>cd_config_generation := cl_config_generation cl\<rparr>
   \<and> (\<exists>parsed. rt_url_parse rt url = Inr parsed \<and> cd_scheme d = url_scheme parsed
       \<and> destination_allowed (ce_controls (cl_static_policy cl)) parsed (cd_host d) (sa_port (cd_pinned_addr d))
       \<and> address_allowed (rt_env rt) (rt_registries rt) (ce_controls (cl_static_policy cl)) (sa_ip (cd_pinned_addr d))
       \<and> revalidated_destination rt cl d' url = Inr (parsed, cd_host d, sa_port (cd_pinned_addr d)))"
proof -
  obtain ad a where gen: "cd_policy_generation d = cl_policy_generation cl"
    and ad: "admit_destination rt (cl_static_policy cl) url = Inr ad" "matches_authority_of ad d"
    and pin: "admit_address rt (cl_static_policy cl) ad [cd_pinned_addr d] = Inr a"
    and d': "d' = d\<lparr>cd_config_generation := cl_config_generation cl, cd_policy_generation := cl_policy_generation cl\<rparr>"
    using assms(2) by (auto simp: rebind_checked_destination_def and_then_eq_Inr split: if_splits)
  then have frame: "d' = d\<lparr>cd_config_generation := cl_config_generation cl\<rparr>" by simp
  then have "matches_authority_of ad d'" using ad(2) by (simp add: matches_authority_of_def)
  then have "revalidated_destination rt cl d' url = Inr (ad_url ad, cd_host d', sa_port (cd_pinned_addr d'))"
    by (rule revalidated_pinned [OF assms(1) ad(1) _ pin]) (simp_all add: frame)
  moreover obtain parsed where p: "rt_url_parse rt url = Inr parsed" "ad_url ad = parsed"
    "ad_facts ad = EgressDestination_from_url parsed"
    "destination_allowed (ce_controls (cl_static_policy cl)) parsed (ad_host ad) (ad_port ad)"
    by (rule admit_destination_Inr [OF ad(1)])
  moreover have "address_allowed (rt_env rt) (rt_registries rt) (ce_controls (cl_static_policy cl)) (sa_ip (cd_pinned_addr d))"
    using pin by (simp add: admit_address_iff [OF p(3,4)])
  ultimately show ?thesis using gen frame ad(2) by (simp add: matches_authority_of_def)
qed

section \<open>Listing order\<close>

text \<open>What \<open>ipnet\<close> documents of a network: its members are the addresses that share its prefix with its base.\<close>

definition cidr_networks :: "('net, 'x) egress_env_scheme \<Rightarrow> bool" where
  "cidr_networks env =
     (\<forall>net ip. ext_net_contains env net ip = in_prefix (eg_network env net) (eg_prefix_len env net) ip)"

definition disjoint_networks :: "('net, 'x) egress_env_scheme \<Rightarrow> 'net list \<Rightarrow> bool" where
  "disjoint_networks env nets =
     (\<forall>a\<in>set nets. \<forall>b\<in>set nets. a \<noteq> b \<longrightarrow> (\<forall>ip. \<not> (ext_net_contains env a ip \<and> ext_net_contains env b ip)))"

lemma in_prefix_nested:
  assumes "in_prefix (V6 a) m ip" "in_prefix (V6 b) n ip" "m \<le> n" "n \<le> 128"
  shows "in_prefix (V6 a) m (V6 b)"
proof (cases ip)
  case (V6 w)
  then have "drop_bit (128 - m) w = drop_bit (128 - m) a" "drop_bit (128 - n) w = drop_bit (128 - n) b"
    using assms by simp_all
  moreover have "drop_bit (128 - m) v = drop_bit (n - m) (drop_bit (128 - n) v)" for v :: "128 word"
    using assms by (simp add: drop_bit_drop_bit)
  ultimately show ?thesis by simp
qed (use assms in simp)

lemma nat64_entry_Inr:
  assumes "nat64_entry env reg accepted entry = Inr net"
  shows "(\<exists>base. eg_network env net = V6 base) \<and> eg_prefix_len env net \<le> 128
    \<and> (\<forall>e\<in>set accepted. \<not> ext_net_contains env e (eg_network env net) \<and> \<not> ext_net_contains env net (eg_network env e))"
  using assms
  by (auto simp: nat64_entry_def list_ex_iff split: option.splits IpAddr.splits if_splits)

definition nat64_accepted :: "('net, 'x) egress_env_scheme \<Rightarrow> 'net list \<Rightarrow> bool" where
  "nat64_accepted env nets =
     ((\<forall>net\<in>set nets. (\<exists>base. eg_network env net = V6 base) \<and> eg_prefix_len env net \<le> 128) \<and> disjoint_networks env nets)"

lemma nat64_accepted_snoc:
  assumes "cidr_networks env" "nat64_accepted env accepted" "nat64_entry env reg accepted entry = Inr net"
  shows "nat64_accepted env (accepted @ [net])"
proof -
  obtain b where b: "eg_network env net = V6 b" "eg_prefix_len env net \<le> 128"
    and new: "\<forall>e\<in>set accepted. \<not> ext_net_contains env e (V6 b) \<and> \<not> ext_net_contains env net (eg_network env e)"
    using nat64_entry_Inr [OF assms(3)] by metis
  have "\<not> (ext_net_contains env e ip \<and> ext_net_contains env net ip)" if e: "e \<in> set accepted" for e ip
  proof
    obtain a where a: "eg_network env e = V6 a" "eg_prefix_len env e \<le> 128"
      using assms(2) e by (auto simp: nat64_accepted_def)
    assume "ext_net_contains env e ip \<and> ext_net_contains env net ip"
    then have "in_prefix (V6 a) (eg_prefix_len env e) ip" "in_prefix (V6 b) (eg_prefix_len env net) ip"
      using assms(1) a b by (simp_all add: cidr_networks_def)
    then have "ext_net_contains env e (V6 b) \<or> ext_net_contains env net (V6 a)"
      using in_prefix_nested a b assms(1) by (metis cidr_networks_def nle_le)
    with new e a show False by auto
  qed
  with assms(2) b show ?thesis by (auto simp: nat64_accepted_def disjoint_networks_def)
qed

lemma nat64_loop_accepted:
  "cidr_networks env \<Longrightarrow> nat64_accepted env accepted
   \<Longrightarrow> nat64_accepted env (fst (nat64_loop env reg entries accepted problems))"
  by (induction env reg entries accepted problems rule: nat64_loop.induct)
     (auto split: sum.split intro: nat64_accepted_snoc)

lemma parse_nat64_disjoint:
  assumes "cidr_networks env"
  shows "disjoint_networks env (fst (parse_nat64_prefixes env reg v))"
proof -
  have "nat64_accepted env []" by (simp add: nat64_accepted_def disjoint_networks_def)
  then have "nat64_accepted env (fst (parse_nat64_prefixes env reg v))"
    using nat64_loop_accepted [OF assms] by (auto simp: parse_nat64_prefixes_def split: EnvVar.split)
  then show ?thesis by (simp add: nat64_accepted_def)
qed

lemma find_unique:
  assumes "x \<in> set xs" "P x" "\<And>y. y \<in> set xs \<Longrightarrow> P y \<Longrightarrow> y = x"
  shows "find P xs = Some x"
  using assms
proof (induction xs)
  case (Cons y ys)
  show ?case
  proof (cases "P y")
    case True
    with Cons.prems(3) [of y] show ?thesis by simp
  next
    case False
    with Cons.prems(1,2) have "x \<in> set ys" by auto
    with False Cons.IH Cons.prems(2,3) show ?thesis by (metis find.simps(2) list.set_intros(2))
  qed
qed simp

lemma find_reordered:
  assumes "set xs = set ys" "\<And>x y. x \<in> set xs \<Longrightarrow> y \<in> set xs \<Longrightarrow> P x \<Longrightarrow> P y \<Longrightarrow> x = y"
  shows "find P xs = find P ys"
proof (cases "\<exists>x\<in>set xs. P x")
  case True
  then obtain x where "x \<in> set xs" "P x" by blast
  then show ?thesis using assms by (metis find_unique)
next
  case False
  then show ?thesis using assms(1) by (metis find_None_iff)
qed

lemma non_global_reordered:
  assumes "disjoint_networks env nets" "set nets = set nets'"
  shows "is_non_global_ip env reg ip nets = is_non_global_ip env reg ip nets'"
proof -
  have "find (\<lambda>net. ext_net_contains env net (V6 a)) nets = find (\<lambda>net. ext_net_contains env net (V6 a)) nets'" for a
    using assms by (intro find_reordered) (auto simp: disjoint_networks_def)
  then have eq: "classify_nat64_address env reg nets = classify_nat64_address env reg nets'"
    by (simp add: classify_nat64_address_def fun_eq_iff)
  show ?thesis unfolding is_non_global_ip_def eq ..
qed

definition same_controls :: "'net EgressControls \<Rightarrow> 'net EgressControls \<Rightarrow> bool" where
  "same_controls c c' =
     (ec_allowed_hosts c = ec_allowed_hosts c' \<and> ec_allowed_ports c = ec_allowed_ports c'
      \<and> ec_deny_private_ips c = ec_deny_private_ips c'
      \<and> mset (ec_allowed_host_globs c) = mset (ec_allowed_host_globs c')
      \<and> mset (ec_nat64_prefixes c) = mset (ec_nat64_prefixes c')
      \<and> mset (ec_private_ip_allow_cidrs c) = mset (ec_private_ip_allow_cidrs c'))"

lemma sort_mset_cong: "mset xs = mset ys \<Longrightarrow> sort xs = sort ys"
  by (metis mset_sort properties_for_sort sorted_sort)

lemma lane_outcome_same:
  assumes "set (ec_allowed_host_globs (ce_controls p)) = set (ec_allowed_host_globs (ce_controls q))"
    and "ec_allowed_hosts (ce_controls p) = ec_allowed_hosts (ce_controls q)"
    and "ec_allowed_ports (ce_controls p) = ec_allowed_ports (ce_controls q)"
    and "ec_deny_private_ips (ce_controls p) = ec_deny_private_ips (ce_controls q)"
    and "set (ec_nat64_prefixes (ce_controls p)) = set (ec_nat64_prefixes (ce_controls q))"
    and "set (ec_private_ip_allow_cidrs (ce_controls p)) = set (ec_private_ip_allow_cidrs (ce_controls q))"
    and "disjoint_networks env (ec_nat64_prefixes (ce_controls p))"
  shows "lane_outcome env reg p = lane_outcome env reg q"
proof -
  have globs: "list_ex P (ec_allowed_host_globs (ce_controls p)) = list_ex P (ec_allowed_host_globs (ce_controls q))" for P
    using assms(1) by (simp add: list_ex_iff)
  have cidrs: "list_ex P (ec_private_ip_allow_cidrs (ce_controls p)) = list_ex P (ec_private_ip_allow_cidrs (ce_controls q))" for P
    using assms(6) by (simp add: list_ex_iff)
  have refused: "address_refused env reg (ce_controls p) ip = address_refused env reg (ce_controls q) ip" for ip
    unfolding address_refused_def ip_matches_policy_cidr_def cidrs non_global_reordered [OF assms(7,5)] ..
  have admit: "lane_admit_destination p d = lane_admit_destination q d" for d
    unfolding lane_admit_destination_def globs assms(2,3) ..
  have answers: "check_answers env reg p port xs = check_answers env reg q port xs" for port xs
    unfolding check_answers_def refused assms(4) ..
  have "lane_outcome env reg p d r = lane_outcome env reg q d r" for d r
    unfolding lane_outcome_def admit answers ..
  then show ?thesis by (intro ext)
qed

lemma compiled_same:
  assumes "cidr_networks env"
    and "ec_nat64_prefixes c = fst (parse_nat64_prefixes env reg v)"
    and "same_controls c c'"
  shows "ce_snapshot (CompiledEgressPolicy_new de env c) = ce_snapshot (CompiledEgressPolicy_new de env c')"
    and "lane_outcome env reg (CompiledEgressPolicy_new de env c) = lane_outcome env reg (CompiledEgressPolicy_new de env c')"
proof -
  have s: "mset (ec_allowed_host_globs c) = mset (ec_allowed_host_globs c')"
    "mset (ec_nat64_prefixes c) = mset (ec_nat64_prefixes c')"
    "mset (ec_private_ip_allow_cidrs c) = mset (ec_private_ip_allow_cidrs c')"
    "ec_allowed_hosts c = ec_allowed_hosts c'" "ec_allowed_ports c = ec_allowed_ports c'"
    "ec_deny_private_ips c = ec_deny_private_ips c'"
    using assms(3) by (simp_all add: same_controls_def)
  have texts: "sort (map (eg_net_text env) xs) = sort (map (eg_net_text env) ys)" if "mset xs = mset ys" for xs ys
    using that by (intro sort_mset_cong) simp
  have "controls_json env c = controls_json env c'"
    unfolding controls_json_def s(4-6) sort_mset_cong [OF s(1)] texts [OF s(2)] texts [OF s(3)] ..
  then show "ce_snapshot (CompiledEgressPolicy_new de env c) = ce_snapshot (CompiledEgressPolicy_new de env c')"
    by (simp add: CompiledEgressPolicy_new_def controls_digest_def)
  show "lane_outcome env reg (CompiledEgressPolicy_new de env c) = lane_outcome env reg (CompiledEgressPolicy_new de env c')"
    using s(4-6) mset_eq_setD [OF s(1)] mset_eq_setD [OF s(2)] mset_eq_setD [OF s(3)]
      parse_nat64_disjoint [OF assms(1), of reg v] assms(2)
    by (intro lane_outcome_same) (simp_all add: CompiledEgressPolicy_new_def)
qed

text \<open>
  C37. Listing order. Two sets of controls that list the same hosts, patterns, ports, NAT64 prefixes and CIDRs
  in different orders have the same identity and answer every question alike, provided the NAT64 prefixes are
  ones the configuration compiler accepts: it refuses overlapping prefixes, without which the first prefix
  that contains an address would decide how the address is read.
\<close>

theorem controls_order_irrelevant:
  assumes "cidr_networks env"
    and "ec_nat64_prefixes c = fst (parse_nat64_prefixes env reg v)"
    and "same_controls c c'"
  shows "evaluate_egress de env reg (CompiledEgressPolicy_new de env c) ctx
       = evaluate_egress de env reg (CompiledEgressPolicy_new de env c') ctx"
  unfolding evaluate_egress_def compiled_same [OF assms] ..

section \<open>Generations\<close>

definition short :: "string list \<Rightarrow> bool" where
  "short xs = (length xs < 2 ^ 64 \<and> (\<forall>x\<in>set xs. length x < 2 ^ 64))"

text \<open>A configuration that fits the fixed-width fields of its encoding.\<close>

definition encodable :: "('net, 'x) egress_env_scheme \<Rightarrow> 'net EgressConfig \<Rightarrow> bool" where
  "encodable env c =
     (finite (eg_allowed_hosts c) \<and> finite (eg_allowed_ports c) \<and> (\<forall>p\<in>eg_allowed_ports c. p < 2 ^ 16)
      \<and> short (sorted_list_of_set (eg_allowed_hosts c)) \<and> short (eg_allowed_host_globs c)
      \<and> short (map (eg_net_text env) (eg_private_ip_allow_cidrs c))
      \<and> short (map (eg_net_text env) (eg_nat64_prefixes c)))"

lemma short_sort: "short (sort xs) = short xs"
  by (simp add: short_def)

lemma concat_frames_inj:
  "length xs = length ys \<Longrightarrow> concat (map frame_part xs) @ r = concat (map frame_part ys) @ s
   \<Longrightarrow> \<forall>x\<in>set xs. length x < 2 ^ 64 \<Longrightarrow> \<forall>y\<in>set ys. length y < 2 ^ 64 \<Longrightarrow> xs = ys \<and> r = s"
proof (induction xs ys rule: list_induct2)
  case (Cons x xs y ys)
  have "frame_part x @ (concat (map frame_part xs) @ r) = frame_part y @ (concat (map frame_part ys) @ s)"
    using Cons.prems(1) by simp
  then have "x = y \<and> concat (map frame_part xs) @ r = concat (map frame_part ys) @ s"
    by (rule frame_part_inj) (use Cons.prems in simp_all)
  with Cons show ?case by simp
qed simp

lemma hash_strings_inj:
  assumes "hash_strings xs @ r = hash_strings ys @ s" "short xs" "short ys"
  shows "xs = ys \<and> r = s"
proof -
  have len: "length xs < 2 ^ 64" "length ys < 2 ^ 64" using assms by (simp_all add: short_def)
  then have "be_bytes8 (length xs) = be_bytes8 (length ys)"
    and rest: "concat (map frame_part xs) @ r = concat (map frame_part ys) @ s"
    using assms(1) by (simp_all add: hash_strings_def)
  then have "length xs = length ys" using len be_bytes8_inj by blast
  from concat_frames_inj [OF this rest] assms(2,3) show ?thesis by (simp add: short_def)
qed

lemma be_bytes2_inj:
  assumes "be_bytes2 n = be_bytes2 m" "n < 2 ^ 16" "m < 2 ^ 16"
  shows "n = m"
proof (rule base256_digits [of _ 2])
  have "char_of (n div 256 ^ i mod 256) = (char_of (m div 256 ^ i mod 256) :: char)" if "i < 2" for i
  proof -
    have "i \<in> set [1, 0]" using that by auto
    with assms(1) show ?thesis unfolding be_bytes2_def map_eq_conv by blast
  qed
  from arg_cong [OF this, of _ "of_char :: char \<Rightarrow> nat"]
  show "\<forall>i<2. n div 256 ^ i mod 256 = m div 256 ^ i mod 256" by simp
qed (use assms in simp_all)

lemma length_be_bytes2: "length (be_bytes2 n) = 2"
  by (simp add: be_bytes2_def)

lemma concat_ports_inj:
  "length ps = length qs \<Longrightarrow> concat (map be_bytes2 ps) @ r = concat (map be_bytes2 qs) @ s
   \<Longrightarrow> \<forall>p\<in>set ps. p < 2 ^ 16 \<Longrightarrow> \<forall>q\<in>set qs. q < 2 ^ 16 \<Longrightarrow> ps = qs \<and> r = s"
proof (induction ps qs rule: list_induct2)
  case (Cons p ps q qs)
  have "be_bytes2 p @ concat (map be_bytes2 ps) @ r = be_bytes2 q @ concat (map be_bytes2 qs) @ s"
    using Cons.prems(1) by simp
  then have "be_bytes2 p = be_bytes2 q" "concat (map be_bytes2 ps) @ r = concat (map be_bytes2 qs) @ s"
    by (simp_all add: length_be_bytes2)
  moreover from this(1) have "p = q" by (rule be_bytes2_inj) (use Cons.prems in simp_all)
  ultimately show ?case using Cons.IH Cons.prems by simp
qed simp

lemma policy_encoding_inj:
  assumes eq: "hash_strings a @ hash_strings b @ hash_strings c @ (be_bytes8 (length p) @ concat (map be_bytes2 p)) @ hash_strings n @ [char_of (if deny then 1 else 0 :: nat)]
     = hash_strings a' @ hash_strings b' @ hash_strings c' @ (be_bytes8 (length p') @ concat (map be_bytes2 p')) @ hash_strings n' @ [char_of (if deny' then 1 else 0 :: nat)]"
    and "short a" "short b" "short c" "short n" "short a'" "short b'" "short c'" "short n'"
    and ports: "\<forall>x\<in>set p. x < 2 ^ 16" "\<forall>x\<in>set p'. x < 2 ^ 16" "length p < 2 ^ 64" "length p' < 2 ^ 64"
  shows "a = a' \<and> b = b' \<and> c = c' \<and> p = p' \<and> n = n' \<and> deny = deny'"
proof -
  note 1 = hash_strings_inj [OF eq assms(2,6)]
  note 2 = hash_strings_inj [OF conjunct2 [OF 1] assms(3,7)]
  note 3 = hash_strings_inj [OF conjunct2 [OF 2] assms(4,8)]
  from conjunct2 [OF 3] have len: "be_bytes8 (length p) = be_bytes8 (length p')"
    and rest: "concat (map be_bytes2 p) @ hash_strings n @ [char_of (if deny then 1 else 0 :: nat)]
      = concat (map be_bytes2 p') @ hash_strings n' @ [char_of (if deny' then 1 else 0 :: nat)]" by simp_all
  note 4 = concat_ports_inj [OF be_bytes8_inj [OF len ports(3,4)] rest ports(1,2)]
  note 5 = hash_strings_inj [OF conjunct2 [OF 4] assms(5,9)]
  have "(char_of (1 :: nat) :: char) \<noteq> char_of (0 :: nat)" by (simp add: char_of_eq_iff)
  with conjunct2 [OF 5] have "deny = deny'" by (auto split: if_splits)
  with 1 2 3 4 5 show ?thesis by simp
qed

lemma ports_small: "\<forall>p\<in>ports. p < (65536 :: nat) \<Longrightarrow> card ports < (18446744073709551616 :: nat)"
proof -
  assume "\<forall>p\<in>ports. p < (65536 :: nat)"
  then have "card ports \<le> card {..<65536 :: nat}" by (intro card_mono) auto
  then show ?thesis by simp
qed

lemma hash_egress_policy_inj:
  assumes "hash_egress_policy env c = hash_egress_policy env c'" "encodable env c" "encodable env c'"
  shows "eg_allowed_hosts c = eg_allowed_hosts c'" "eg_allowed_ports c = eg_allowed_ports c'"
    "eg_deny_private_ips c = eg_deny_private_ips c'"
    "mset (eg_allowed_host_globs c) = mset (eg_allowed_host_globs c')"
    "mset (map (eg_net_text env) (eg_private_ip_allow_cidrs c)) = mset (map (eg_net_text env) (eg_private_ip_allow_cidrs c'))"
    "mset (map (eg_net_text env) (eg_nat64_prefixes c)) = mset (map (eg_net_text env) (eg_nat64_prefixes c'))"
proof -
  note e = assms(2,3) [unfolded encodable_def]
  have p: "sorted_list_of_set (eg_allowed_hosts c) = sorted_list_of_set (eg_allowed_hosts c')
    \<and> sort (eg_allowed_host_globs c) = sort (eg_allowed_host_globs c')
    \<and> sort (map (eg_net_text env) (eg_private_ip_allow_cidrs c)) = sort (map (eg_net_text env) (eg_private_ip_allow_cidrs c'))
    \<and> sorted_list_of_set (eg_allowed_ports c) = sorted_list_of_set (eg_allowed_ports c')
    \<and> sort (map (eg_net_text env) (eg_nat64_prefixes c)) = sort (map (eg_net_text env) (eg_nat64_prefixes c'))
    \<and> eg_deny_private_ips c = eg_deny_private_ips c'"
    by (rule policy_encoding_inj [OF assms(1) [unfolded hash_egress_policy_def Let_def]])
       (use e in \<open>simp_all add: short_sort ports_small\<close>)
  with e show "eg_allowed_hosts c = eg_allowed_hosts c'" "eg_allowed_ports c = eg_allowed_ports c'"
    by (metis set_sorted_list_of_set)+
  from p show "eg_deny_private_ips c = eg_deny_private_ips c'"
    "mset (eg_allowed_host_globs c) = mset (eg_allowed_host_globs c')"
    "mset (map (eg_net_text env) (eg_private_ip_allow_cidrs c)) = mset (map (eg_net_text env) (eg_private_ip_allow_cidrs c'))"
    "mset (map (eg_net_text env) (eg_nat64_prefixes c)) = mset (map (eg_net_text env) (eg_nat64_prefixes c'))"
    by (metis mset_sort)+
qed

lemma mset_map_inj: "inj f \<Longrightarrow> mset (map f xs) = mset (map f ys) \<longleftrightarrow> mset xs = mset ys"
  using inj_eq [OF multiset.inj_map [of f], of "mset xs" "mset ys"] by simp

text \<open>
  C36. The policy generation identifies the policy. Two clients with the same policy generation answer every
  destination question alike, so that rebinding a checked destination from one to the other moves it between
  equal policies: the bytes under the generation determine the controls up to listing order. The hash is
  assumed not to collide on the two encodings at hand, and the text of a network to identify it.
\<close>

theorem same_generation_same_decisions:
  assumes "EgressClient_new rt transport c = Inr cl" "EgressClient_new rt transport c' = Inr cl'"
    and "cl_policy_generation cl = cl_policy_generation cl'"
    and "egress_policy_generation (rt_digest rt) (rt_env rt) c = egress_policy_generation (rt_digest rt) (rt_env rt) c'
           \<Longrightarrow> hash_egress_policy (rt_env rt) c = hash_egress_policy (rt_env rt) c'"
    and "inj (eg_net_text (rt_env rt))" "cidr_networks (rt_env rt)"
    and "encodable (rt_env rt) c" "encodable (rt_env rt) c'"
    and "eg_nat64_prefixes c = fst (parse_nat64_prefixes (rt_env rt) (rt_registries rt) v)"
  shows "evaluate_static_egress rt (cl_static_policy cl) facts resolution
       = evaluate_static_egress rt (cl_static_policy cl') facts resolution"
proof -
  let ?de = "rt_digest rt" and ?env = "rt_env rt"
  have cl: "cl_static_policy cl = CompiledEgressPolicy_new ?de ?env (static_egress_controls c)"
    "cl_static_policy cl' = CompiledEgressPolicy_new ?de ?env (static_egress_controls c')"
    "egress_policy_generation ?de ?env c = egress_policy_generation ?de ?env c'"
    using assms(1-3) by (auto simp: EgressClient_new_def and_then_eq_Inr)
  note h = hash_egress_policy_inj [OF assms(4) [OF cl(3)] assms(7,8)]
  have "same_controls (static_egress_controls c) (static_egress_controls c')"
    using h by (simp only: same_controls_def static_egress_controls_def EgressControls.simps mset_map_inj [OF assms(5)])
  note same = compiled_same [OF assms(6) _ this, of "rt_registries rt" v ?de]
  have "ec_nat64_prefixes (static_egress_controls c) = fst (parse_nat64_prefixes ?env (rt_registries rt) v)"
    using assms(9) by (simp add: static_egress_controls_def)
  from same [OF this] show ?thesis
    unfolding evaluate_static_egress_def evaluate_egress_def cl by (simp only:)
qed

section \<open>A sample client\<close>

definition sample_registries :: "(IpAddr \<times> nat) registries" where
  "sample_registries =
     \<lparr>v4_global_exceptions = [(V4 0xC0000009, 32), (V4 0xC000000A, 32)],
      v4_non_global_ranges = [(V4 0, 8), (V4 0x0A000000, 8), (V4 0x7F000000, 8)],
      v6_global_exceptions = [], v6_non_global_ranges = [(V6 1, 128)],
      v6_global_unicast = (V6 0x20000000000000000000000000000000, 3),
      well_known_nat64 = (V6 0x0064FF9B000000000000000000000000, 96)\<rparr>"

definition sample_url :: Url where
  "sample_url =
     \<lparr>url_scheme = ''https'', url_host_str = Some ''api.example.com'', url_port_or_known_default = Some 443,
      url_username = [], url_password = None, url_fragment = None\<rparr>"

definition sample_runtime :: "(IpAddr \<times> nat) runtime" where
  "sample_runtime =
     \<lparr>rt_digest = sample_digest, rt_env = cidr_env, rt_registries = sample_registries,
      rt_url_parse = (\<lambda>s. if s = ''u'' then Inr sample_url else Inl ''invalid'')\<rparr>"

definition sample_egress_config :: "'net EgressConfig" where
  "sample_egress_config = (EgressConfig_default sample_digest)\<lparr>eg_allowed_host_globs := [''*.Example.com'']\<rparr>"

definition sample_client :: "(IpAddr \<times> nat) EgressClient" where
  "sample_client =
     \<lparr>cl_config = sample_egress_config,
      cl_static_policy = CompiledEgressPolicy_new sample_digest cidr_env (static_egress_controls sample_egress_config),
      cl_config_generation = ''g'', cl_policy_generation = ''p''\<rparr>"

definition sample_answer :: SocketAddr where
  "sample_answer = \<lparr>sa_ip = V4 0x08080808, sa_port = 443, sa_scope = 0\<rparr>"

definition sample_checked :: CheckedEgressDestination where
  "sample_checked =
     \<lparr>cd_scheme = ''https'', cd_host = ''api.example.com'', cd_pinned_addr = sample_answer,
      cd_config_generation = ''g'', cd_policy_generation = ''p''\<rparr>"

lemmas sample_egress_defs = sample_registries_def sample_url_def sample_runtime_def sample_egress_config_def
  sample_client_def sample_answer_def sample_checked_def EgressConfig_default_def cidr_env_def sample_digest_def

lemma sample_checked_destination:
  "checked_destination sample_runtime sample_client (\<lambda>_ _. Inr [sample_answer]) ''u''
   = ([(''api.example.com'', 443)], Inr sample_checked)"
  by (simp add: sample_egress_defs eval_defs)

lemma sample_rebind:
  "rebind_checked_destination sample_runtime sample_client sample_checked ''u'' = Inr sample_checked"
  by (simp add: sample_egress_defs eval_defs)

lemma sample_encodes: "\<forall>v. de_to_vec (rt_digest sample_runtime) v \<noteq> None"
  by (simp add: sample_runtime_def sample_digest_def)


theorem checked_destination_usable_witness:
  "\<exists>parsed. rt_url_parse sample_runtime ''u'' = Inr parsed
     \<and> revalidated_destination sample_runtime sample_client sample_checked ''u''
       = Inr (parsed, cd_host sample_checked, sa_port (cd_pinned_addr sample_checked))"
  by (rule checked_destination_usable [OF sample_encodes sample_checked_destination])

theorem rebound_destination_safe_witness:
  "cd_policy_generation sample_checked = cl_policy_generation sample_client
   \<and> (\<exists>parsed. revalidated_destination sample_runtime sample_client sample_checked ''u''
       = Inr (parsed, cd_host sample_checked, sa_port (cd_pinned_addr sample_checked)))"
  using rebound_destination_safe [OF sample_encodes sample_rebind] by blast

lemma cidr_networks_env: "cidr_networks cidr_env"
  by (simp add: cidr_networks_def cidr_env_def split: prod.split)

definition listed_controls :: "string list \<Rightarrow> (IpAddr \<times> nat) EgressControls" where
  "listed_controls globs =
     \<lparr>ec_allowed_hosts = {}, ec_allowed_host_globs = globs, ec_allowed_ports = {}, ec_deny_private_ips = True,
      ec_nat64_prefixes = [(V6 0x20010DB8000000000000000000000000, 96)], ec_private_ip_allow_cidrs = []\<rparr>"

lemma sample_nat64: "parse_nat64_prefixes cidr_env sample_registries (VarValue ''2001:db8::/96'')
    = ([(V6 0x20010DB8000000000000000000000000, 96)], [])"
  by (simp add: parse_nat64_prefixes_def nat64_entry_def sample_registries_def cidr_env_def eval_defs)

definition listed_context :: EgressEvaluationContext where
  "listed_context =
     \<lparr>xc_version = EGRESS_CONTEXT_VERSION,
      xc_snapshot = ce_snapshot (CompiledEgressPolicy_new sample_digest cidr_env (listed_controls [''*.a'', ''b''])),
      xc_destination = EgressDestination_from_url sample_url, xc_resolution = RF_Missing\<rparr>"

theorem controls_order_irrelevant_witness:
  "evaluate_egress sample_digest cidr_env sample_registries
       (CompiledEgressPolicy_new sample_digest cidr_env (listed_controls [''*.a'', ''b''])) listed_context
   = evaluate_egress sample_digest cidr_env sample_registries
       (CompiledEgressPolicy_new sample_digest cidr_env (listed_controls [''b'', ''*.a''])) listed_context"
proof (rule controls_order_irrelevant [OF cidr_networks_env, of _ sample_registries "VarValue ''2001:db8::/96''"])
  show "ec_nat64_prefixes (listed_controls [''*.a'', ''b'']) = fst (parse_nat64_prefixes cidr_env sample_registries (VarValue ''2001:db8::/96''))"
    by (simp add: sample_nat64 listed_controls_def)
  show "same_controls (listed_controls [''*.a'', ''b'']) (listed_controls [''b'', ''*.a''])"
    by (simp add: same_controls_def listed_controls_def)
qed

definition unit_env :: "unit egress_env" where
  "unit_env =
     \<lparr>ext_parse_net = (\<lambda>_. Some ()), ext_net_trunc = (\<lambda>n. n),
      ext_net_contains = (\<lambda>_ ip. in_prefix (V6 1) 128 ip), ext_as_f64 = (\<lambda>_. None),
      ext_pointer = (\<lambda>v p. json_get v (drop 1 p)), ext_rfc3339 = (\<lambda>_. None), ext_origin = Some,
      eg_prefix_len = (\<lambda>_. 128), eg_net_text = (\<lambda>_. ''::1/128''), eg_network = (\<lambda>_. V6 1)\<rparr>"

definition unit_runtime :: "unit runtime" where
  "unit_runtime =
     \<lparr>rt_digest = sample_digest, rt_env = unit_env,
      rt_registries = \<lparr>v4_global_exceptions = [], v4_non_global_ranges = [], v6_global_exceptions = [],
        v6_non_global_ranges = [()], v6_global_unicast = (), well_known_nat64 = ()\<rparr>,
      rt_url_parse = (\<lambda>_. Inr sample_url)\<rparr>"

definition unit_config :: "string list \<Rightarrow> unit EgressConfig" where
  "unit_config globs = (EgressConfig_default sample_digest)\<lparr>eg_allowed_host_globs := globs\<rparr>"

lemma unit_generation:
  "egress_policy_generation sample_digest unit_env (unit_config [''*.a'', ''b''])
   = egress_policy_generation sample_digest unit_env (unit_config [''b'', ''*.a''])"
proof -
  have "sort [''*.a'', ''b''] = sort [''b'', ''*.a'']" by (rule sort_mset_cong) simp
  then show ?thesis
    by (simp only: egress_policy_generation_def hash_egress_policy_def unit_config_def EgressConfig_default_def
        EgressConfig.update_convs EgressConfig.select_convs)
qed

lemma unit_encodable: "encodable unit_env (unit_config [''*.a'', ''b''])" "encodable unit_env (unit_config [''b'', ''*.a''])"
  by (simp_all add: encodable_def short_def unit_config_def EgressConfig_default_def)

lemma unit_laws: "inj (eg_net_text unit_env)" "cidr_networks unit_env"
  "eg_nat64_prefixes (unit_config globs) = []" "rt_digest unit_runtime = sample_digest" "rt_env unit_runtime = unit_env"
  by (simp_all add: unit_env_def cidr_networks_def inj_def unit_config_def EgressConfig_default_def unit_runtime_def)

theorem same_generation_same_decisions_witness:
  "evaluate_static_egress unit_runtime
      (CompiledEgressPolicy_new sample_digest unit_env (static_egress_controls (unit_config [''*.a'', ''b''])))
      (EgressDestination_from_url sample_url) RF_Missing
   = evaluate_static_egress unit_runtime
      (CompiledEgressPolicy_new sample_digest unit_env (static_egress_controls (unit_config [''b'', ''*.a''])))
      (EgressDestination_from_url sample_url) RF_Missing"
proof -
  let ?new = "\<lambda>globs. \<lparr>cl_config = unit_config globs,
      cl_static_policy = CompiledEgressPolicy_new sample_digest unit_env (static_egress_controls (unit_config globs)),
      cl_config_generation = egress_config_generation sample_digest unit_env (unit_config globs),
      cl_policy_generation = egress_policy_generation sample_digest unit_env (unit_config globs)\<rparr>"
  have new: "EgressClient_new unit_runtime (\<lambda>_. Inr ()) (unit_config globs) = Inr (?new globs)" for globs
    by (simp add: EgressClient_new_def unit_runtime_def)
  have "evaluate_static_egress unit_runtime (cl_static_policy (?new [''*.a'', ''b''])) (EgressDestination_from_url sample_url) RF_Missing
      = evaluate_static_egress unit_runtime (cl_static_policy (?new [''b'', ''*.a''])) (EgressDestination_from_url sample_url) RF_Missing"
  proof (rule same_generation_same_decisions [OF new new, where v = NotPresent])
    show "hash_egress_policy (rt_env unit_runtime) (unit_config [''*.a'', ''b''])
        = hash_egress_policy (rt_env unit_runtime) (unit_config [''b'', ''*.a''])"
      if "egress_policy_generation (rt_digest unit_runtime) (rt_env unit_runtime) (unit_config [''*.a'', ''b''])
        = egress_policy_generation (rt_digest unit_runtime) (rt_env unit_runtime) (unit_config [''b'', ''*.a''])"
      using that by (simp add: egress_policy_generation_def unit_runtime_def sample_digest_def)
  qed (simp_all add: unit_laws unit_generation unit_encodable parse_nat64_prefixes_def)
  then show ?thesis by simp
qed

end
