(* ===== verification/Egress_Body.thy ===== *)
theory Egress_Body
  imports Egress_Client
begin

text \<open>
  The bounds on bodies at the egress boundary: what a counted request body sends, and what a bounded
  response yields.
\<close>

section \<open>Request bodies\<close>

definition chunks_before_failure :: "body_stream \<Rightarrow> string list" where
  "chunks_before_failure chunks = map projr (takeWhile (\<lambda>c. \<not> isl c) chunks)"

lemma chunks_before_failure_simps [simp]:
  "chunks_before_failure [] = []"
  "chunks_before_failure (Inl u # rest) = []"
  "chunks_before_failure (Inr c # rest) = c # chunks_before_failure rest"
  by (simp_all add: chunks_before_failure_def)

definition body_failure :: "nat \<Rightarrow> body_stream \<Rightarrow> BodyFailure" where
  "body_failure room chunks =
     (if length (concat (chunks_before_failure chunks)) > room then REQUEST_BODY_TOO_LARGE
      else if list_all (\<lambda>c. \<not> isl c) chunks then REQUEST_BODY_OK else REQUEST_BODY_READ_FAILED)"

lemma drive_body_counted:
  "length chunks < fuel \<Longrightarrow> k \<le> bound \<Longrightarrow>
   \<exists>sent. drive_body fuel bound \<lparr>cs_stream = chunks, cs_streamed_bytes = k, cs_overflow_pending = False\<rparr>
          = Some (sent, body_failure (bound - k) chunks)
     \<and> concat sent = take (bound - k) (concat (chunks_before_failure chunks))"
proof (induction chunks arbitrary: fuel k)
  case Nil
  then show ?case by (cases fuel) (simp_all add: counted_poll_def body_failure_def)
next
  case (Cons item chunks)
  then obtain fuel' where fuel: "fuel = Suc fuel'" "length chunks < fuel'" by (cases fuel) simp_all
  show ?case
  proof (cases item)
    case (Inl u)
    then show ?thesis using fuel by (simp add: counted_poll_def body_failure_def)
  next
    case (Inr c)
    consider "length c \<le> bound - k" | "length c > bound - k" "bound = k" | "length c > bound - k" "k < bound"
      using Cons.prems(2) by linarith
    then show ?thesis
    proof cases
      case 1
      then have "k + length c \<le> bound" using Cons.prems(2) by linarith
      from Cons.IH [OF fuel(2) this]
      obtain sent where "drive_body fuel' bound \<lparr>cs_stream = chunks, cs_streamed_bytes = k + length c,
            cs_overflow_pending = False\<rparr> = Some (sent, body_failure (bound - (k + length c)) chunks)"
        "concat sent = take (bound - (k + length c)) (concat (chunks_before_failure chunks))" by blast
      moreover have "body_failure (bound - (k + length c)) chunks = body_failure (bound - k) (Inr c # chunks)"
        using 1 by (auto simp: body_failure_def)
      ultimately show ?thesis using 1 Inr fuel by (simp add: counted_poll_def)
    next
      case 2
      then show ?thesis using Inr fuel by (simp add: counted_poll_def body_failure_def)
    next
      case 3
      then obtain fuel'' where "fuel' = Suc fuel''" using fuel by (cases fuel') simp_all
      with 3 show ?thesis using Inr fuel by (simp add: counted_poll_def body_failure_def Let_def)
    qed
  qed
qed

text \<open>
  C38. Request bodies are bounded. However a streamed request body is cut into chunks, polling it ends
  within one poll more than it has chunks; the bytes sent are the first \<open>bound\<close> bytes of what precedes the first
  read failure, and the failure reported is that the body was too large exactly if there was more, and
  otherwise whether reading failed.
\<close>

theorem request_body_bounded:
  "\<exists>sent. drive_body (Suc (length chunks)) bound (counted_request_body_stream chunks)
          = Some (sent, (if length (concat (chunks_before_failure chunks)) > bound then REQUEST_BODY_TOO_LARGE
                         else if list_all (\<lambda>c. \<not> isl c) chunks then REQUEST_BODY_OK else REQUEST_BODY_READ_FAILED))
     \<and> concat sent = take bound (concat (chunks_before_failure chunks))"
  using drive_body_counted [of chunks "Suc (length chunks)" 0 bound]
  by (simp add: counted_request_body_stream_def body_failure_def)

section \<open>Responses\<close>

fun source_chunks :: "StreamEvent list \<Rightarrow> string list" where
  "source_chunks (SE_Chunk c # rest) = c # source_chunks rest"
| "source_chunks _ = []"

lemma saturating_add_le: "n < USIZE_MAX \<Longrightarrow> \<not> saturating_add a b > n \<longleftrightarrow> a + b \<le> n"
  by (auto simp: saturating_add_def)

lemma stream_response_shape:
  assumes "bound < USIZE_MAX"
  shows "k \<le> bound \<Longrightarrow>
    \<exists>cs es. stream_response (Some bound) idle events k = map Inr cs @ map Inl es \<and> length es \<le> 1
      \<and> k + length (concat cs) \<le> bound \<and> cs = take (length cs) (source_chunks events)
      \<and> (es = [] \<longrightarrow> cs = source_chunks events \<and> list_all (\<lambda>e. \<exists>c. e = SE_Chunk c) events)"
proof (induction events arbitrary: k)
  case Nil
  then show ?case by (intro exI [of _ "[]"]) simp
next
  case (Cons e events)
  show ?case
  proof (cases e)
    case (SE_Chunk c)
    show ?thesis
    proof (cases "k + length c \<le> bound")
      case True
      from Cons.IH [OF this] obtain cs es where
        "stream_response (Some bound) idle events (k + length c) = map Inr cs @ map Inl es" "length es \<le> 1"
        "k + length c + length (concat cs) \<le> bound" "cs = take (length cs) (source_chunks events)"
        "es = [] \<longrightarrow> cs = source_chunks events \<and> list_all (\<lambda>e. \<exists>c. e = SE_Chunk c) events" by blast
      moreover have "\<not> saturating_add k (length c) > bound" using True saturating_add_le [OF assms] by blast
      ultimately show ?thesis using SE_Chunk by (intro exI [of _ "c # cs"] exI [of _ es]) simp
    next
      case False
      then have "saturating_add k (length c) > bound" using saturating_add_le [OF assms] by blast
      with SE_Chunk Cons.prems show ?thesis
        by (intro exI [of _ "[]"] exI [of _ "[ResponseTooLarge (saturating_add k (length c)) bound]"]) simp
    qed
  next
    case (SE_Error err)
    with Cons.prems show ?thesis by (intro exI [of _ "[]"] exI [of _ "[Http err]"]) simp
  next
    case SE_Idle
    with Cons.prems show ?thesis by (intro exI [of _ "[]"] exI [of _ "[ResponseIdleTimeout idle]"]) simp
  qed
qed

text \<open>
  C39. Responses are bounded. A streamed response under a bound yields the upstream's chunks in order, at
  most \<open>bound\<close> bytes of them, then at most one error and nothing after it; without an error it yields all of them.
\<close>

theorem response_stream_bounded:
  assumes "bound < USIZE_MAX"
  shows "\<exists>cs es. stream_response (Some bound) idle events 0 = map Inr cs @ map Inl es \<and> length es \<le> 1
      \<and> length (concat cs) \<le> bound \<and> cs = take (length cs) (source_chunks events)
      \<and> (es = [] \<longrightarrow> cs = source_chunks events)"
  using stream_response_shape [OF assms, of 0 idle events] by auto

theorem response_stream_bounded_witness:
  "(3 :: nat) < USIZE_MAX \<and> (\<exists>cs es. stream_response (Some 3) 9 [SE_Chunk ''ab'', SE_Chunk ''cd''] 0
        = map Inr cs @ map Inl es \<and> length es \<le> 1 \<and> length (concat cs) \<le> 3)"
proof -
  have "(3 :: nat) < USIZE_MAX" by (simp add: USIZE_MAX_def)
  with response_stream_bounded [OF this, of 9 "[SE_Chunk ''ab'', SE_Chunk ''cd'']"] show ?thesis by blast
qed

end
