(* ===== verification/Circuit_Breaker.thy ===== *)
theory Circuit_Breaker
  imports Prelude "HOL-Library.Word" "HOL-Library.Multiset"
begin

text \<open>
  The circuit breaker of an upstream endpoint (\<open>gateway/src/proxy/circuit.rs\<close>) as a state machine. The
  state is guarded by one lock, so the operations are atomic; \<open>circuit_step\<close> interleaves them with the
  passing of time, over the permits that are outstanding. Instants are nanoseconds of the monotonic clock,
  counters are \<open>u32\<close> values with saturating arithmetic, and generations wrap around at 64 bits. Metrics, log
  lines and audit events are left out; \<open>circuit_config_valid\<close> is the configuration compiler's check.
\<close>

definition FAILURE_WINDOW :: nat where "FAILURE_WINDOW = 60 * 10 ^ 9"
definition DEFAULT_FAILURE_STATUSES :: "nat list" where "DEFAULT_FAILURE_STATUSES = [502, 503, 504]"
definition MAX_UPSTREAM_CIRCUIT_THRESHOLD :: nat where "MAX_UPSTREAM_CIRCUIT_THRESHOLD = 1000"
definition MIN_UPSTREAM_CIRCUIT_OPEN_MS :: nat where "MIN_UPSTREAM_CIRCUIT_OPEN_MS = 10"
definition MAX_UPSTREAM_CIRCUIT_OPEN_MS :: nat where "MAX_UPSTREAM_CIRCUIT_OPEN_MS = 3600000"

record UpstreamCircuitBreakerConfig =
  failure_threshold :: nat
  open_ms :: nat
  half_open_max_requests :: nat
  recovery_threshold :: nat

definition circuit_config_valid :: "UpstreamCircuitBreakerConfig \<Rightarrow> nat \<Rightarrow> bool" where
  "circuit_config_valid cfg max_in_flight =
     (1 \<le> failure_threshold cfg \<and> failure_threshold cfg \<le> MAX_UPSTREAM_CIRCUIT_THRESHOLD
      \<and> MIN_UPSTREAM_CIRCUIT_OPEN_MS \<le> open_ms cfg \<and> open_ms cfg \<le> MAX_UPSTREAM_CIRCUIT_OPEN_MS
      \<and> half_open_max_requests cfg \<noteq> 0 \<and> half_open_max_requests cfg \<le> max_in_flight
      \<and> 1 \<le> recovery_threshold cfg \<and> recovery_threshold cfg \<le> MAX_UPSTREAM_CIRCUIT_THRESHOLD)"

datatype CircuitState =
    CS_Closed "64 word" nat "nat option"
  | CS_Open "64 word" nat
  | CS_HalfOpen "64 word" nat nat

datatype PermitKind = PK_Closed | PK_HalfOpen

type_synonym CircuitPermit = "64 word \<times> PermitKind"

definition U32_MAX :: nat where "U32_MAX = 2 ^ 32 - 1"

definition saturating_add_u32 :: "nat \<Rightarrow> nat \<Rightarrow> nat" where
  "saturating_add_u32 a b = min U32_MAX (a + b)"

section \<open>Operations\<close>

definition circuit_new :: CircuitState where
  "circuit_new = CS_Closed 0 0 None"

definition try_acquire ::
    "UpstreamCircuitBreakerConfig \<Rightarrow> nat \<Rightarrow> CircuitState \<Rightarrow> CircuitPermit option \<times> CircuitState" where
  "try_acquire cfg now st =
     (case st of
        CS_Closed generation _ _ \<Rightarrow> (Some (generation, PK_Closed), st)
      | CS_Open generation until \<Rightarrow>
          if now < until then (None, st)
          else (Some (generation + 1, PK_HalfOpen), CS_HalfOpen (generation + 1) 1 0)
      | CS_HalfOpen generation in_flight successes \<Rightarrow>
          if in_flight < half_open_max_requests cfg
          then (Some (generation, PK_HalfOpen), CS_HalfOpen generation (in_flight + 1) successes)
          else (None, st))"

definition is_failure_status :: "nat list option \<Rightarrow> nat \<Rightarrow> bool" where
  "is_failure_status retry_statuses status =
     (status \<in> set (case retry_statuses of None \<Rightarrow> DEFAULT_FAILURE_STATUSES | Some ss \<Rightarrow> ss))"

definition record_success ::
    "UpstreamCircuitBreakerConfig \<Rightarrow> 64 word \<Rightarrow> PermitKind \<Rightarrow> CircuitState \<Rightarrow> CircuitState" where
  "record_success cfg generation kind st =
     (case (st, kind) of
        (CS_Closed current _ _, PK_Closed) \<Rightarrow>
          if current = generation then CS_Closed generation 0 None else st
      | (CS_HalfOpen current in_flight successes, PK_HalfOpen) \<Rightarrow>
          if current = generation then
            let successes' = saturating_add_u32 successes 1 in
            if successes' \<ge> recovery_threshold cfg then CS_Closed (generation + 1) 0 None
            else CS_HalfOpen generation (in_flight - 1) successes'
          else st
      | _ \<Rightarrow> st)"

definition record_failure ::
    "UpstreamCircuitBreakerConfig \<Rightarrow> nat \<Rightarrow> 64 word \<Rightarrow> PermitKind \<Rightarrow> CircuitState \<Rightarrow> CircuitState" where
  "record_failure cfg now generation kind st =
     (case (st, kind) of
        (CS_Closed current consecutive_failures window_started_at, PK_Closed) \<Rightarrow>
          if current = generation then
            let window_expired =
                  (case window_started_at of None \<Rightarrow> False | Some started \<Rightarrow> now - started \<ge> FAILURE_WINDOW);
                failures = (if window_expired then 1 else saturating_add_u32 consecutive_failures 1);
                window_started_at' =
                  (if consecutive_failures = 0 \<or> window_expired then Some now else window_started_at)
            in if failures \<ge> failure_threshold cfg
               then CS_Open (generation + 1) (now + open_ms cfg * 10 ^ 6)
               else CS_Closed generation failures window_started_at'
          else st
      | (CS_HalfOpen current _ _, PK_HalfOpen) \<Rightarrow>
          if current = generation then CS_Open (generation + 1) (now + open_ms cfg * 10 ^ 6) else st
      | _ \<Rightarrow> st)"

definition cancel :: "64 word \<Rightarrow> PermitKind \<Rightarrow> CircuitState \<Rightarrow> CircuitState" where
  "cancel generation kind st =
     (if kind \<noteq> PK_HalfOpen then st
      else (case st of
              CS_HalfOpen current in_flight successes \<Rightarrow>
                if current = generation then CS_HalfOpen generation (in_flight - 1) successes else st
            | _ \<Rightarrow> st))"

lemmas circuit_defs = try_acquire_def record_success_def record_failure_def cancel_def

section \<open>The machine\<close>

record circuit_system =
  sys_state :: CircuitState
  sys_permits :: "CircuitPermit multiset"
  sys_now :: nat

text \<open>
  A permit is used once: reporting success or failure consumes it, and dropping it unreported cancels it.
\<close>

inductive circuit_step :: "UpstreamCircuitBreakerConfig \<Rightarrow> circuit_system \<Rightarrow> circuit_system \<Rightarrow> bool"
  for cfg where
  tick: "circuit_step cfg s (s\<lparr>sys_now := sys_now s + d\<rparr>)"
| acquire: "try_acquire cfg (sys_now s) (sys_state s) = (Some p, st) \<Longrightarrow>
     circuit_step cfg s (s\<lparr>sys_state := st, sys_permits := add_mset p (sys_permits s)\<rparr>)"
| reject: "try_acquire cfg (sys_now s) (sys_state s) = (None, st) \<Longrightarrow>
     circuit_step cfg s (s\<lparr>sys_state := st\<rparr>)"
| success: "(g, kind) \<in># sys_permits s \<Longrightarrow>
     circuit_step cfg s (s\<lparr>sys_state := record_success cfg g kind (sys_state s),
                           sys_permits := sys_permits s - {#(g, kind)#}\<rparr>)"
| failure: "(g, kind) \<in># sys_permits s \<Longrightarrow>
     circuit_step cfg s (s\<lparr>sys_state := record_failure cfg (sys_now s) g kind (sys_state s),
                           sys_permits := sys_permits s - {#(g, kind)#}\<rparr>)"
| dropped: "(g, kind) \<in># sys_permits s \<Longrightarrow>
     circuit_step cfg s (s\<lparr>sys_state := cancel g kind (sys_state s),
                           sys_permits := sys_permits s - {#(g, kind)#}\<rparr>)"

inductive circuit_run :: "UpstreamCircuitBreakerConfig \<Rightarrow> nat \<Rightarrow> circuit_system \<Rightarrow> bool" for cfg where
  start: "circuit_run cfg 0 \<lparr>sys_state = circuit_new, sys_permits = {#}, sys_now = t\<rparr>"
| step: "circuit_run cfg n s \<Longrightarrow> circuit_step cfg s s' \<Longrightarrow> circuit_run cfg (Suc n) s'"

fun state_generation :: "CircuitState \<Rightarrow> 64 word" where
  "state_generation (CS_Closed g _ _) = g"
| "state_generation (CS_Open g _) = g"
| "state_generation (CS_HalfOpen g _ _) = g"

section \<open>The invariant\<close>

text \<open>
  After \<open>n\<close> steps at most \<open>n\<close> generations have passed. \<open>k\<close> counts them: a state and its permits are those
  of a generation up to \<open>k\<close>, a half-open permit is never of a closed generation, and the requests in flight are
  the outstanding permits of the current half-open generation.
\<close>

definition permits_upto :: "nat \<Rightarrow> CircuitPermit multiset \<Rightarrow> bool" where
  "permits_upto k ps = (\<forall>p\<in>#ps. \<exists>j\<le>k. fst p = of_nat j)"

fun state_ok :: "UpstreamCircuitBreakerConfig \<Rightarrow> CircuitState \<Rightarrow> CircuitPermit multiset \<Rightarrow> bool" where
  "state_ok cfg (CS_Closed g failures window) ps =
     (failures < failure_threshold cfg \<and> (g, PK_HalfOpen) \<notin># ps
      \<and> (failures = 0 \<longrightarrow> window = None) \<and> (window = None \<longrightarrow> failures = 0))"
| "state_ok cfg (CS_Open g until) ps = ((g, PK_HalfOpen) \<notin># ps \<and> (g, PK_Closed) \<notin># ps)"
| "state_ok cfg (CS_HalfOpen g in_flight successes) ps =
     (in_flight = count ps (g, PK_HalfOpen) \<and> in_flight \<le> half_open_max_requests cfg
      \<and> successes < recovery_threshold cfg \<and> (g, PK_Closed) \<notin># ps)"

definition circuit_inv :: "UpstreamCircuitBreakerConfig \<Rightarrow> nat \<Rightarrow> circuit_system \<Rightarrow> bool" where
  "circuit_inv cfg n s =
     (\<exists>k\<le>n. state_generation (sys_state s) = of_nat k \<and> permits_upto k (sys_permits s)
        \<and> state_ok cfg (sys_state s) (sys_permits s))"

lemma saturating_pos [simp]: "0 < saturating_add_u32 a (Suc 0)" "saturating_add_u32 a (Suc 0) \<noteq> 0"
  by (simp_all add: saturating_add_u32_def U32_MAX_def)

lemma permits_upto_add [simp]:
  "permits_upto k (add_mset (g, kind) ps) \<longleftrightarrow> (\<exists>j\<le>k. g = of_nat j) \<and> permits_upto k ps"
  by (auto simp: permits_upto_def)

lemma permits_upto_mono:
  assumes "permits_upto k ps" "k \<le> k'"
  shows "permits_upto k' ps"
  unfolding permits_upto_def
proof
  fix p assume "p \<in># ps"
  then obtain j where "j \<le> k" "fst p = of_nat j" using assms(1) unfolding permits_upto_def by blast
  with assms(2) show "\<exists>j\<le>k'. fst p = of_nat j" by (intro exI [of _ j]) simp
qed

lemma permits_upto_diff: "permits_upto k ps \<Longrightarrow> permits_upto k (ps - {#p#})"
  by (auto simp: permits_upto_def dest: in_diffD)

lemma fresh_generation:
  assumes "permits_upto k ps" "Suc k < 2 ^ 64"
  shows "(of_nat k + 1, kind) \<notin># ps"
proof
  assume "(of_nat k + 1, kind) \<in># ps"
  then obtain j where "j \<le> k" and eq: "(of_nat (Suc k) :: 64 word) = of_nat j"
    using assms(1) by (force simp: permits_upto_def add.commute)
  have "unat (of_nat (Suc k) :: 64 word) = Suc k" "unat (of_nat j :: 64 word) = j"
    using assms(2) \<open>j \<le> k\<close> by (simp_all add: unat_of_nat del: of_nat_Suc)
  with eq \<open>j \<le> k\<close> show False by simp
qed

text \<open>A step either stays in its generation or opens the next one.\<close>

lemma inv_stay:
  assumes "state_generation st = of_nat k" "permits_upto k ps" "k \<le> n" "state_ok cfg st ps"
  shows "circuit_inv cfg (Suc n) \<lparr>sys_state = st, sys_permits = ps, sys_now = t\<rparr>"
  using assms by (auto simp: circuit_inv_def intro: exI [of _ k])

lemma inv_next:
  assumes "state_generation st = of_nat k + 1" "permits_upto (Suc k) ps" "k \<le> n" "state_ok cfg st ps"
  shows "circuit_inv cfg (Suc n) \<lparr>sys_state = st, sys_permits = ps, sys_now = t\<rparr>"
  using assms by (auto simp: circuit_inv_def add.commute intro!: exI [of _ "Suc k"])

definition inv_at ::
    "UpstreamCircuitBreakerConfig \<Rightarrow> nat \<Rightarrow> nat \<Rightarrow> CircuitState \<Rightarrow> CircuitPermit multiset \<Rightarrow> bool" where
  "inv_at cfg n k st ps =
     (0 < failure_threshold cfg \<and> 0 < half_open_max_requests cfg \<and> 0 < recovery_threshold cfg
      \<and> k \<le> n \<and> Suc n < 2 ^ 64 \<and> state_generation st = of_nat k \<and> permits_upto k ps \<and> state_ok cfg st ps)"

lemma inv_at_fresh:
  assumes "inv_at cfg n k st ps"
  shows "(of_nat k + 1, kind) \<notin># ps" "count ps (of_nat k + 1, kind) = 0" "(of_nat k + 1, kind) \<notin># ps - {#p#}"
proof -
  show fresh: "(of_nat k + 1, kind) \<notin># ps" using assms by (intro fresh_generation) (auto simp: inv_at_def)
  then show "count ps (of_nat k + 1, kind) = 0" by (simp add: count_eq_zero_iff)
  from fresh show "(of_nat k + 1, kind) \<notin># ps - {#p#}" by (auto dest: in_diffD)
qed

lemma inv_acquire:
  assumes i: "inv_at cfg n k st ps" and acquire: "try_acquire cfg now st = (Some p, st')"
  shows "circuit_inv cfg (Suc n) \<lparr>sys_state = st', sys_permits = add_mset p ps, sys_now = t\<rparr>"
proof (cases st)
  case (CS_Closed g failures window)
  with assms show ?thesis by (intro inv_stay [of _ k]) (auto simp: try_acquire_def inv_at_def)
next
  case (CS_Open g until)
  with assms inv_at_fresh [OF i] show ?thesis
    by (intro inv_next [of _ k])
       (auto simp: try_acquire_def inv_at_def add.commute permits_upto_mono [of k _ "Suc k"] split: if_splits
         intro!: exI [of _ "Suc k"])
next
  case (CS_HalfOpen g in_flight successes)
  with assms show ?thesis by (intro inv_stay [of _ k]) (auto simp: try_acquire_def inv_at_def split: if_splits)
qed

lemma inv_at_permits:
  assumes "inv_at cfg n k st ps"
  shows "permits_upto k (ps - {#p#})" "permits_upto (Suc k) (ps - {#p#})"
  using assms permits_upto_mono [of k _ "Suc k"] by (auto simp: inv_at_def intro: permits_upto_diff)

lemma inv_success:
  assumes i: "inv_at cfg n k st ps" and p: "(g, kind) \<in># ps"
  shows "circuit_inv cfg (Suc n) \<lparr>sys_state = record_success cfg g kind st, sys_permits = ps - {#(g, kind)#}, sys_now = t\<rparr>"
proof (cases st)
  case (CS_Closed current failures window)
  with assms show ?thesis
    by (intro inv_stay [of _ k] inv_at_permits [OF i])
       (auto simp: record_success_def inv_at_def split: PermitKind.splits dest: in_diffD)
next
  case (CS_Open current until)
  with assms show ?thesis
    by (intro inv_stay [of _ k] inv_at_permits [OF i]) (auto simp: record_success_def inv_at_def dest: in_diffD)
next
  case (CS_HalfOpen current in_flight successes)
  show ?thesis
  proof (cases "kind = PK_HalfOpen \<and> current = g \<and> saturating_add_u32 successes 1 \<ge> recovery_threshold cfg")
    case True
    with CS_HalfOpen i inv_at_fresh [OF i] show ?thesis
      by (intro inv_next [of _ k] inv_at_permits [OF i]) (auto simp: record_success_def inv_at_def)
  next
    case False
    with CS_HalfOpen assms show ?thesis
      by (intro inv_stay [of _ k] inv_at_permits [OF i])
         (auto simp: record_success_def inv_at_def Let_def split: PermitKind.splits if_splits dest: in_diffD)
  qed
qed

text \<open>The failures counted and the start of the window after one more failure.\<close>

definition next_failures :: "nat \<Rightarrow> nat \<Rightarrow> nat option \<Rightarrow> nat" where
  "next_failures now failures window =
     (if \<exists>started. window = Some started \<and> now - started \<ge> FAILURE_WINDOW then 1
      else saturating_add_u32 failures 1)"

definition next_window :: "nat \<Rightarrow> nat \<Rightarrow> nat option \<Rightarrow> nat option" where
  "next_window now failures window =
     (if failures = 0 \<or> (\<exists>started. window = Some started \<and> now - started \<ge> FAILURE_WINDOW) then Some now else window)"

lemma record_failure_closed:
  "record_failure cfg now g kind (CS_Closed current failures window) =
     (if kind = PK_Closed \<and> current = g then
        if next_failures now failures window \<ge> failure_threshold cfg
        then CS_Open (g + 1) (now + open_ms cfg * 10 ^ 6)
        else CS_Closed g (next_failures now failures window) (next_window now failures window)
      else CS_Closed current failures window)"
  by (cases kind; cases window) (simp_all add: record_failure_def next_failures_def next_window_def Let_def)

lemma record_failure_open [simp]: "record_failure cfg now g kind (CS_Open current until) = CS_Open current until"
  by (simp add: record_failure_def)

lemma record_failure_half_open:
  "record_failure cfg now g kind (CS_HalfOpen current in_flight successes) =
     (if kind = PK_HalfOpen \<and> current = g then CS_Open (g + 1) (now + open_ms cfg * 10 ^ 6)
      else CS_HalfOpen current in_flight successes)"
  by (cases kind) (simp_all add: record_failure_def)

lemma next_failures_pos [simp]: "next_failures now failures window \<noteq> 0"
  by (simp add: next_failures_def)

lemma next_window_Some:
  "(failures = 0) = (window = None) \<Longrightarrow> next_window now failures window \<noteq> None"
  by (auto simp: next_window_def)

lemma inv_failure:
  assumes i: "inv_at cfg n k st ps" and p: "(g, kind) \<in># ps"
  shows "circuit_inv cfg (Suc n) \<lparr>sys_state = record_failure cfg now g kind st, sys_permits = ps - {#(g, kind)#}, sys_now = t\<rparr>"
proof (cases st)
  case (CS_Closed current failures window)
  then have window: "next_window now failures window \<noteq> None" using i by (intro next_window_Some) (auto simp: inv_at_def)
  show ?thesis
  proof (cases "kind = PK_Closed \<and> current = g \<and> next_failures now failures window \<ge> failure_threshold cfg")
    case True
    with CS_Closed i inv_at_fresh [OF i] show ?thesis
      by (intro inv_next [of _ k] inv_at_permits [OF i]) (auto simp: record_failure_closed inv_at_def)
  next
    case False
    with CS_Closed i window show ?thesis
      by (intro inv_stay [of _ k] inv_at_permits [OF i]) (auto simp: record_failure_closed inv_at_def dest: in_diffD)
  qed
next
  case (CS_Open current until)
  with i show ?thesis by (intro inv_stay [of _ k] inv_at_permits [OF i]) (auto simp: inv_at_def dest: in_diffD)
next
  case (CS_HalfOpen current in_flight successes)
  show ?thesis
  proof (cases "kind = PK_HalfOpen \<and> current = g")
    case True
    with CS_HalfOpen i inv_at_fresh [OF i] show ?thesis
      by (intro inv_next [of _ k] inv_at_permits [OF i]) (auto simp: record_failure_half_open inv_at_def)
  next
    case False
    with CS_HalfOpen i p show ?thesis
      by (intro inv_stay [of _ k] inv_at_permits [OF i]) (auto simp: record_failure_half_open inv_at_def dest: in_diffD)
  qed
qed

lemma inv_dropped:
  assumes i: "inv_at cfg n k st ps" and p: "(g, kind) \<in># ps"
  shows "circuit_inv cfg (Suc n) \<lparr>sys_state = cancel g kind st, sys_permits = ps - {#(g, kind)#}, sys_now = t\<rparr>"
  using assms
  by (intro inv_stay [of _ k] inv_at_permits [OF i])
     (auto simp: cancel_def inv_at_def split: CircuitState.splits dest: in_diffD)

lemma circuit_inv_step:
  assumes "circuit_step cfg s s'" "circuit_inv cfg n s" "Suc n < 2 ^ 64"
    and valid: "0 < failure_threshold cfg" "0 < half_open_max_requests cfg" "0 < recovery_threshold cfg"
  shows "circuit_inv cfg (Suc n) s'"
proof -
  obtain st ps now where s: "s = \<lparr>sys_state = st, sys_permits = ps, sys_now = now\<rparr>" by (cases s)
  from assms(2-) obtain k where i: "inv_at cfg n k st ps" by (auto simp: circuit_inv_def inv_at_def s)
  then have stay: "circuit_inv cfg (Suc n) \<lparr>sys_state = st, sys_permits = ps, sys_now = t\<rparr>" for t
    by (intro inv_stay [of _ k]) (simp_all add: inv_at_def)
  show ?thesis using assms(1)
  proof cases
    case (tick d)
    then show ?thesis using stay by (simp add: s)
  next
    case (acquire p st')
    then show ?thesis using inv_acquire [OF i] by (simp add: s)
  next
    case (reject st')
    then have "st' = st" by (auto simp: s try_acquire_def split: CircuitState.splits if_splits)
    then show ?thesis using reject stay by (simp add: s)
  next
    case (success g kind)
    then show ?thesis using inv_success [OF i] by (simp add: s)
  next
    case (failure g kind)
    then show ?thesis using inv_failure [OF i] by (simp add: s)
  next
    case (dropped g kind)
    then show ?thesis using inv_dropped [OF i] by (simp add: s)
  qed
qed

lemma circuit_run_inv:
  assumes "circuit_run cfg n s" "n < 2 ^ 64" "circuit_config_valid cfg max_in_flight"
  shows "circuit_inv cfg n s"
  using assms(1,2)
proof (induction rule: circuit_run.induct)
  case (start t)
  with assms(3) show ?case
    by (simp add: circuit_inv_def circuit_new_def circuit_config_valid_def permits_upto_def)
next
  case (step n s s')
  with assms(3) show ?case by (intro circuit_inv_step [of cfg s s' n]) (auto simp: circuit_config_valid_def)
qed

text \<open>
  C9. Bounded probing. In every state the breaker reaches by any interleaving of acquisitions, results and
  dropped permits, within the \<open>2 ^ 64\<close> steps for which generations stay distinct: while half open, the requests
  counted in flight are exactly the outstanding permits of that half-open generation and at most the
  configured number, and fewer than the recovery threshold have succeeded; while closed, fewer failures
  than the threshold are counted, and a window is running exactly if one is.
\<close>

theorem circuit_invariant:
  assumes "circuit_run cfg n s" "n < 2 ^ 64" "circuit_config_valid cfg max_in_flight"
  shows "case sys_state s of
     CS_HalfOpen g in_flight successes \<Rightarrow>
       in_flight = count (sys_permits s) (g, PK_HalfOpen) \<and> in_flight \<le> half_open_max_requests cfg
       \<and> successes < recovery_threshold cfg
   | CS_Closed g failures window \<Rightarrow> failures < failure_threshold cfg \<and> (failures = 0) = (window = None)
   | CS_Open g until \<Rightarrow> (\<forall>kind. (g, kind) \<notin># sys_permits s)"
proof -
  from circuit_run_inv [OF assms] have ok: "state_ok cfg (sys_state s) (sys_permits s)"
    by (auto simp: circuit_inv_def)
  show ?thesis
  proof (cases "sys_state s")
    case (CS_Open g until)
    with ok show ?thesis by simp (metis PermitKind.exhaust)
  qed (use ok in auto)
qed

section \<open>Recovery\<close>

text \<open>One request that is admitted if the breaker allows it, and succeeds.\<close>

definition probe :: "UpstreamCircuitBreakerConfig \<Rightarrow> nat \<Rightarrow> CircuitState \<Rightarrow> CircuitState" where
  "probe cfg now st =
     (case try_acquire cfg now st of
        (Some (g, kind), st') \<Rightarrow> record_success cfg g kind st'
      | (None, st') \<Rightarrow> st')"

lemma probe_closed: "(probe cfg now ^^ m) (CS_Closed g 0 None) = CS_Closed g 0 None"
  by (induction m) (simp_all add: probe_def try_acquire_def record_success_def)

lemma probe_closed_first: "probe cfg now (CS_Closed g failures window) = CS_Closed g 0 None"
  by (simp add: probe_def try_acquire_def record_success_def)

lemma probe_half_open:
  assumes "circuit_config_valid cfg max_in_flight" "successes < recovery_threshold cfg"
  shows "probe cfg now (CS_HalfOpen g 0 successes) =
     (if Suc successes \<ge> recovery_threshold cfg then CS_Closed (g + 1) 0 None else CS_HalfOpen g 0 (Suc successes))"
proof -
  have "saturating_add_u32 successes 1 = Suc successes"
    using assms by (simp add: saturating_add_u32_def U32_MAX_def circuit_config_valid_def MAX_UPSTREAM_CIRCUIT_THRESHOLD_def)
  moreover have "0 < half_open_max_requests cfg" using assms(1) by (simp add: circuit_config_valid_def)
  ultimately show ?thesis by (simp add: probe_def try_acquire_def record_success_def Let_def)
qed

lemma probes_half_open:
  assumes "circuit_config_valid cfg max_in_flight"
  shows "successes < recovery_threshold cfg \<Longrightarrow> recovery_threshold cfg \<le> m + successes \<Longrightarrow>
     (probe cfg now ^^ m) (CS_HalfOpen g 0 successes) = CS_Closed (g + 1) 0 None"
proof (induction m arbitrary: successes)
  case (Suc m)
  show ?case
  proof (cases "Suc successes \<ge> recovery_threshold cfg")
    case True
    with Suc.prems show ?thesis by (simp add: funpow_Suc_right probe_half_open [OF assms] probe_closed del: funpow.simps)
  next
    case False
    with Suc show ?thesis by (simp add: funpow_Suc_right probe_half_open [OF assms] del: funpow.simps)
  qed
qed simp

lemma open_deadline:
  "circuit_run cfg n s \<Longrightarrow> sys_state s = CS_Open g until \<Longrightarrow> until \<le> sys_now s + open_ms cfg * 10 ^ 6"
proof (induction arbitrary: g until rule: circuit_run.induct)
  case (step n s s')
  from step.hyps(2) step.IH step.prems show ?case
  proof cases
    case (failure g' kind)
    then show ?thesis using step.IH step.prems
      by (cases "sys_state s") (auto simp: record_failure_closed record_failure_half_open split: if_splits)
  next
    case (tick d)
    then show ?thesis using step.IH step.prems by fastforce
  qed (use step.IH step.prems in
      \<open>auto simp: try_acquire_def record_success_def cancel_def Let_def split: CircuitState.splits PermitKind.splits if_splits\<close>)
qed (simp add: circuit_new_def)

lemma probe_open:
  "until \<le> now \<Longrightarrow> circuit_config_valid cfg max_in_flight \<Longrightarrow>
   probe cfg now (CS_Open g until) =
     (if recovery_threshold cfg \<le> 1 then CS_Closed (g + 2) 0 None else CS_HalfOpen (g + 1) 0 1)"
  by (auto simp: probe_def try_acquire_def record_success_def Let_def saturating_add_u32_def U32_MAX_def)

text \<open>
  C10. The breaker never sticks. Take any state the breaker reaches, once every permit has been reported or
  dropped: after the configured open time has passed, as many successful requests as the recovery threshold
  asks for leave it closed with no failure counted, whatever happened before.
\<close>

theorem circuit_recovers:
  assumes "circuit_run cfg n s" "n < 2 ^ 64" "circuit_config_valid cfg max_in_flight"
    and "sys_permits s = {#}" "sys_now s + open_ms cfg * 10 ^ 6 \<le> now"
  shows "\<exists>g. (probe cfg now ^^ recovery_threshold cfg) (sys_state s) = CS_Closed g 0 None"
proof -
  obtain m where m: "recovery_threshold cfg = Suc m"
    using assms(3) by (cases "recovery_threshold cfg") (auto simp: circuit_config_valid_def)
  have ok: "state_ok cfg (sys_state s) {#}" using circuit_run_inv [OF assms(1-3)] assms(4) by (auto simp: circuit_inv_def)
  show ?thesis
  proof (cases "sys_state s")
    case (CS_Closed g failures window)
    then show ?thesis by (simp add: m funpow_Suc_right probe_closed_first probe_closed del: funpow.simps)
  next
    case (CS_Open g until)
    with open_deadline [OF assms(1)] assms(5) have "until \<le> now" by fastforce
    then show ?thesis using CS_Open m probes_half_open [OF assms(3), of 1 m now "g + 1"]
      by (cases m) (simp_all add: funpow_Suc_right probe_open [OF _ assms(3)] probe_closed del: funpow.simps)
  next
    case (CS_HalfOpen g in_flight successes)
    with ok probes_half_open [OF assms(3), of successes "recovery_threshold cfg" now g] show ?thesis by simp
  qed
qed

section \<open>Opening\<close>

lemma failures_counted:
  assumes "circuit_config_valid cfg max_in_flight"
  shows "ts \<noteq> [] \<Longrightarrow> \<forall>t\<in>set ts. t - hd ts < FAILURE_WINDOW \<Longrightarrow> length ts < failure_threshold cfg \<Longrightarrow>
     foldl (\<lambda>st t. record_failure cfg t g PK_Closed st) (CS_Closed g 0 None) ts = CS_Closed g (length ts) (Some (hd ts))"
proof (induction ts rule: rev_induct)
  case (snoc t ts)
  show ?case
  proof (cases "ts = []")
    case True
    with snoc show ?thesis
      by (auto simp: record_failure_closed next_failures_def next_window_def saturating_add_u32_def U32_MAX_def)
  next
    case False
    have "Suc (length ts) \<le> U32_MAX" using snoc.prems(3) assms
      by (simp add: circuit_config_valid_def MAX_UPSTREAM_CIRCUIT_THRESHOLD_def U32_MAX_def)
    with False snoc show ?thesis
      by (simp add: record_failure_closed next_failures_def next_window_def saturating_add_u32_def)
  qed
qed simp

text \<open>
  Opening. Failures reported in a row to a freshly closed breaker, all within the failure window of the
  first, leave it closed and counting until their number reaches the threshold; that failure opens it until
  the configured time after it, and until then every acquisition is refused.
\<close>

theorem circuit_opens_at_threshold:
  assumes "circuit_config_valid cfg max_in_flight"
    and "length ts = failure_threshold cfg" "\<forall>t\<in>set ts. t - hd ts < FAILURE_WINDOW"
  shows "foldl (\<lambda>st t. record_failure cfg t g PK_Closed st) (CS_Closed g 0 None) ts
       = CS_Open (g + 1) (last ts + open_ms cfg * 10 ^ 6)
   \<and> (\<forall>k < length ts. \<exists>window. foldl (\<lambda>st t. record_failure cfg t g PK_Closed st) (CS_Closed g 0 None) (take k ts)
       = CS_Closed g k window)
   \<and> (\<forall>now < last ts + open_ms cfg * 10 ^ 6.
       try_acquire cfg now (CS_Open (g + 1) (last ts + open_ms cfg * 10 ^ 6))
       = (None, CS_Open (g + 1) (last ts + open_ms cfg * 10 ^ 6)))"
proof -
  let ?fail = "\<lambda>st t. record_failure cfg t g PK_Closed st"
  have closed: "foldl ?fail (CS_Closed g 0 None) (take k ts) = CS_Closed g k (if k = 0 then None else Some (hd ts))"
    if "k < length ts" for k
  proof (cases "k = 0")
    case False
    then have "hd (take k ts) = hd ts" "take k ts \<noteq> []" using that by (auto simp: hd_take)
    with failures_counted [OF assms(1), of "take k ts" g] assms(2,3) that False show ?thesis
      by (auto dest: in_set_takeD)
  qed simp
  have "ts \<noteq> []" using assms(1,2) by (auto simp: circuit_config_valid_def)
  then obtain us t where ts: "ts = us @ [t]" by (metis append_butlast_last_id)
  have u: "foldl ?fail (CS_Closed g 0 None) us = CS_Closed g (length us) (if length us = 0 then None else Some (hd ts))"
    using closed [of "length us"] ts by simp
  have fits: "Suc (length us) \<le> U32_MAX" using assms(1,2) ts
    by (simp add: circuit_config_valid_def MAX_UPSTREAM_CIRCUIT_THRESHOLD_def U32_MAX_def)
  have "next_failures t (length us) (if length us = 0 then None else Some (hd ts)) = length ts"
    using fits assms(3) ts by (auto simp: next_failures_def saturating_add_u32_def)
  then have "foldl ?fail (CS_Closed g 0 None) ts = CS_Open (g + 1) (last ts + open_ms cfg * 10 ^ 6)"
    using u ts assms(2) by (simp add: record_failure_closed)
  with closed show ?thesis by (auto simp: try_acquire_def)
qed

section \<open>A sample breaker\<close>

definition sample_breaker :: UpstreamCircuitBreakerConfig where
  "sample_breaker = \<lparr>failure_threshold = 1, open_ms = 10, half_open_max_requests = 1, recovery_threshold = 2\<rparr>"

definition probing :: circuit_system where
  "probing = \<lparr>sys_state = CS_HalfOpen 2 1 0, sys_permits = {#(2, PK_HalfOpen)#}, sys_now = 10000000\<rparr>"

definition tripped :: circuit_system where
  "tripped = \<lparr>sys_state = CS_Open 1 10000000, sys_permits = {#}, sys_now = 0\<rparr>"

lemma sample_breaker_valid: "circuit_config_valid sample_breaker 4"
  by (simp add: circuit_config_valid_def sample_breaker_def MAX_UPSTREAM_CIRCUIT_THRESHOLD_def
      MIN_UPSTREAM_CIRCUIT_OPEN_MS_def MAX_UPSTREAM_CIRCUIT_OPEN_MS_def)

lemma tripped_run: "circuit_run sample_breaker (Suc (Suc 0)) tripped"
proof -
  let ?s0 = "\<lparr>sys_state = circuit_new, sys_permits = {#}, sys_now = 0\<rparr>"
  let ?s1 = "\<lparr>sys_state = circuit_new, sys_permits = {#(0, PK_Closed)#}, sys_now = 0\<rparr>"
  have "circuit_step sample_breaker ?s0 ?s1"
    using circuit_step.acquire [of sample_breaker ?s0 "(0, PK_Closed)" circuit_new]
    by (simp add: try_acquire_def circuit_new_def)
  then have "circuit_run sample_breaker (Suc 0) ?s1" using circuit_run.start circuit_run.step by blast
  moreover have "circuit_step sample_breaker ?s1 tripped"
    using circuit_step.failure [of 0 PK_Closed ?s1 sample_breaker]
    by (simp add: circuit_new_def record_failure_closed next_failures_def saturating_add_u32_def U32_MAX_def
        sample_breaker_def tripped_def)
  ultimately show ?thesis by (rule circuit_run.step)
qed

lemma probing_run: "circuit_run sample_breaker (Suc (Suc (Suc (Suc 0)))) probing"
proof -
  let ?s = "tripped\<lparr>sys_now := 10000000\<rparr>"
  have "circuit_step sample_breaker tripped ?s"
    using circuit_step.tick [of sample_breaker tripped 10000000] by (simp add: tripped_def)
  moreover have "circuit_step sample_breaker ?s probing"
    using circuit_step.acquire [of sample_breaker ?s "(2, PK_HalfOpen)" "CS_HalfOpen 2 1 0"]
    by (simp add: try_acquire_def tripped_def probing_def)
  ultimately show ?thesis using tripped_run circuit_run.step by blast
qed

theorem circuit_invariant_witness:
  "count (sys_permits probing) (2, PK_HalfOpen) = 1 \<and> 1 \<le> half_open_max_requests sample_breaker"
  using circuit_invariant [OF probing_run _ sample_breaker_valid] by (simp add: probing_def)

theorem circuit_recovers_witness:
  "\<exists>g. (probe sample_breaker 10000000 ^^ recovery_threshold sample_breaker) (CS_Open 1 10000000) = CS_Closed g 0 None"
  using circuit_recovers [OF tripped_run _ sample_breaker_valid, of 10000000] by (simp add: tripped_def sample_breaker_def)

theorem circuit_opens_at_threshold_witness:
  "foldl (\<lambda>st t. record_failure sample_breaker t 7 PK_Closed st) (CS_Closed 7 0 None) [5] = CS_Open 8 10000005"
  using circuit_opens_at_threshold [OF sample_breaker_valid, of "[5]" 7]
  by (simp add: sample_breaker_def FAILURE_WINDOW_def)

end
