(* ===== verification/Client_Address.thy ===== *)
theory Client_Address
  imports Egress_Eval
begin

text \<open>
  The canonical client address (\<open>gateway/src/client_ip.rs\<close>): forwarding headers are honoured only from a
  trusted peer, and then up to the nearest hop that is not trusted. A header map is the function from a
  lower-case field name to its values in order, each \<open>None\<close> where \<open>HeaderValue::to_str\<close> refuses it. The
  extensions a request carries are its connection peer and the request id assigned to it.
\<close>

type_synonym headers = "string \<Rightarrow> string option list"

definition X_FORWARDED_FOR :: string where "X_FORWARDED_FOR = ''x-forwarded-for''"
definition X_REAL_IP :: string where "X_REAL_IP = ''x-real-ip''"
definition REQUEST_ID_HEADER :: string where "REQUEST_ID_HEADER = ''x-request-id''"

record extensions =
  ext_peer :: "SocketAddr option"
  ext_request_id :: "string option"

record 'net ClientIpPolicy =
  trusted_proxy_cidrs :: "'net list"

definition ClientIpPolicy_from_config :: "bool \<Rightarrow> 'net list \<Rightarrow> 'net ClientIpPolicy" where
  "ClientIpPolicy_from_config trust_proxy_headers cidrs =
     (if \<not> trust_proxy_headers then \<lparr>trusted_proxy_cidrs = []\<rparr> else \<lparr>trusted_proxy_cidrs = cidrs\<rparr>)"

definition canonical_ip :: "IpAddr \<Rightarrow> IpAddr" where
  "canonical_ip ip =
     (case ip of
        V6 a \<Rightarrow> (case to_ipv4_mapped a of Some v4 \<Rightarrow> V4 v4 | None \<Rightarrow> ip)
      | V4 _ \<Rightarrow> ip)"

definition trusts :: "('net, 'x) egress_env_scheme \<Rightarrow> 'net ClientIpPolicy \<Rightarrow> IpAddr \<Rightarrow> bool" where
  "trusts env policy ip =
     list_ex (\<lambda>cidr. ext_net_contains env cidr (canonical_ip ip)) (trusted_proxy_cidrs policy)"

definition forwarded_entry_ip :: "string \<Rightarrow> (unit, IpAddr) result" where
  "forwarded_entry_ip entry =
     (case parse_ip_addr entry of
        Some ip \<Rightarrow> Inr ip
      | None \<Rightarrow>
          (case parse_socket_addr entry of
             Some (ip, _) \<Rightarrow> Inr ip
           | None \<Rightarrow>
               (case Option.bind (strip_prefix entry ''['') (\<lambda>e. strip_suffix e '']'') of
                  None \<Rightarrow> Inl ()
                | Some inner \<Rightarrow>
                    (case parse_ipv6 inner of
                       Some gs \<Rightarrow> Inr (V6 (ipv6_word gs))
                     | None \<Rightarrow> Inl ()))))"

text \<open>The inner loop over the entries of one field value.\<close>

fun forwarded_entries :: "string list \<Rightarrow> IpAddr list \<Rightarrow> (unit, IpAddr list) result" where
  "forwarded_entries [] chain = Inr chain"
| "forwarded_entries (entry # entries) chain =
     (if entry = [] then Inl ()
      else and_then (forwarded_entry_ip entry) (\<lambda>ip. forwarded_entries entries (chain @ [canonical_ip ip])))"

fun forwarded_values :: "string option list \<Rightarrow> IpAddr list \<Rightarrow> (unit, IpAddr list) result" where
  "forwarded_values [] chain = Inr chain"
| "forwarded_values (v # vs) chain =
     (case v of
        None \<Rightarrow> Inl ()
      | Some s \<Rightarrow>
          and_then (forwarded_entries (map str_trim (str_split CHR '','' s)) chain) (forwarded_values vs))"

definition forwarded_for :: "headers \<Rightarrow> (unit, IpAddr list option) result" where
  "forwarded_for hs =
     and_then (forwarded_values (hs X_FORWARDED_FOR) []) (\<lambda>chain.
       Inr (if hs X_FORWARDED_FOR \<noteq> [] then Some chain else None))"

text \<open>\<open>chain[0]\<close> panics on an empty chain, here \<open>None\<close>.\<close>

definition forwarded_client_ip ::
    "('net, 'x) egress_env_scheme \<Rightarrow> 'net ClientIpPolicy \<Rightarrow> IpAddr list \<Rightarrow> IpAddr option" where
  "forwarded_client_ip env policy chain =
     (case chain of
        [] \<Rightarrow> None
      | first # _ \<Rightarrow>
          (case find (\<lambda>ip. \<not> trusts env policy ip) (rev chain) of
             Some ip \<Rightarrow> Some ip
           | None \<Rightarrow> Some first))"

definition single_ip_header :: "headers \<Rightarrow> string \<Rightarrow> (unit, IpAddr option) result" where
  "single_ip_header hs name =
     (case hs name of
        [] \<Rightarrow> Inr None
      | [Some v] \<Rightarrow>
          if str_trim v = [] then Inl ()
          else (case parse_ip_addr (str_trim v) of
                  Some ip \<Rightarrow> Inr (Some (canonical_ip ip))
                | None \<Rightarrow> Inl ())
      | _ \<Rightarrow> Inl ())"

definition canonical_client_addr ::
    "('net, 'x) egress_env_scheme \<Rightarrow> headers \<Rightarrow> extensions \<Rightarrow> 'net ClientIpPolicy \<Rightarrow> IpAddr option" where
  "canonical_client_addr env hs exts policy =
     (case map_option (\<lambda>a. canonical_ip (sa_ip a)) (ext_peer exts) of
        None \<Rightarrow> None
      | Some peer \<Rightarrow>
          if \<not> trusts env policy peer then Some peer
          else
            (case forwarded_for hs of
               Inr (Some chain) \<Rightarrow> forwarded_client_ip env policy chain
             | Inl _ \<Rightarrow> Some peer
             | Inr None \<Rightarrow>
                 (case single_ip_header hs X_REAL_IP of
                    Inr (Some ip) \<Rightarrow> Some ip
                  | _ \<Rightarrow> Some peer)))"

definition ip_display :: "IpAddr \<Rightarrow> string" where
  "ip_display ip = (case ip of V4 a \<Rightarrow> ipv4_display a | V6 a \<Rightarrow> ipv6_display a)"

definition canonical_client_ip ::
    "('net, 'x) egress_env_scheme \<Rightarrow> headers \<Rightarrow> extensions \<Rightarrow> 'net ClientIpPolicy \<Rightarrow> string" where
  "canonical_client_ip env hs exts policy =
     (case canonical_client_addr env hs exts policy of None \<Rightarrow> ''unknown'' | Some ip \<Rightarrow> ip_display ip)"

definition request_id :: "headers \<Rightarrow> extensions \<Rightarrow> string" where
  "request_id hs exts =
     (let from_header = (case hs REQUEST_ID_HEADER of v # _ \<Rightarrow> v | [] \<Rightarrow> None);
          chosen = (case from_header of Some v \<Rightarrow> Some v | None \<Rightarrow> ext_request_id exts)
      in case map_option str_trim chosen of
           Some v \<Rightarrow> if v = [] then ''unknown'' else v
         | None \<Rightarrow> ''unknown'')"

lemmas client_address_defs = X_FORWARDED_FOR_def X_REAL_IP_def REQUEST_ID_HEADER_def canonical_ip_def trusts_def
  forwarded_entry_ip_def forwarded_for_def forwarded_client_ip_def single_ip_header_def canonical_client_addr_def

declare client_address_defs [eval_defs]

section \<open>The chain\<close>

text \<open>The entries of the forwarding header in order, \<open>None\<close> for a value that does not decode.\<close>

definition value_entries :: "string option \<Rightarrow> string option list" where
  "value_entries v = (case v of None \<Rightarrow> [None] | Some s \<Rightarrow> map (\<lambda>e. Some (str_trim e)) (str_split CHR '','' s))"

definition xff_entries :: "headers \<Rightarrow> string option list" where
  "xff_entries hs = concat (map value_entries (hs X_FORWARDED_FOR))"

definition entry_address :: "string option \<Rightarrow> IpAddr option" where
  "entry_address e =
     (case e of
        Some s \<Rightarrow> if s = [] then None
                  else (case forwarded_entry_ip s of Inr ip \<Rightarrow> Some (canonical_ip ip) | Inl _ \<Rightarrow> None)
      | None \<Rightarrow> None)"

lemma collect_options_eq_Some: "collect_options xs = Some ys \<longleftrightarrow> xs = map Some ys"
proof (induction xs arbitrary: ys)
  case (Cons x xs)
  then show ?case by (cases x; cases ys) auto
qed auto

lemma forwarded_entries_eq:
  "forwarded_entries es chain =
     (case collect_options (map (\<lambda>e. entry_address (Some e)) es) of
        Some ips \<Rightarrow> Inr (chain @ ips) | None \<Rightarrow> Inl ())"
  by (induction es arbitrary: chain) (auto simp: entry_address_def and_then_def split: sum.splits option.splits)

lemma forwarded_entries_Inr:
  "forwarded_entries es chain = Inr r \<longleftrightarrow> (\<exists>ips. map (\<lambda>e. entry_address (Some e)) es = map Some ips \<and> r = chain @ ips)"
  by (auto simp: forwarded_entries_eq collect_options_eq_Some split: option.splits)
     (metis collect_options_eq_Some option.distinct(1))

lemma forwarded_values_Inr:
  "forwarded_values vs chain = Inr r \<longleftrightarrow>
     (\<exists>ips. map entry_address (concat (map value_entries vs)) = map Some ips \<and> r = chain @ ips)"
proof (induction vs arbitrary: chain)
  case (Cons v vs)
  show ?case
  proof (cases v)
    case None
    then show ?thesis by (auto simp: value_entries_def entry_address_def)
  next
    case (Some s)
    let ?es = "map str_trim (str_split CHR '','' s)"
    have "forwarded_values (v # vs) chain = Inr r \<longleftrightarrow>
        (\<exists>us ws. map (\<lambda>e. entry_address (Some e)) ?es = map Some us
           \<and> map entry_address (concat (map value_entries vs)) = map Some ws \<and> r = chain @ us @ ws)"
      using Some by (auto simp: and_then_eq_Inr forwarded_entries_Inr Cons.IH)
    also have "\<dots> \<longleftrightarrow> (\<exists>ips. map entry_address (concat (map value_entries (v # vs))) = map Some ips \<and> r = chain @ ips)"
      using Some by (simp add: value_entries_def comp_def map_eq_append_conv append_eq_map_conv) blast
    finally show ?thesis .
  qed
qed auto

lemma value_entries_not_Nil: "value_entries v \<noteq> []"
  by (cases v) (simp_all add: value_entries_def)

lemma forwarded_for_Some:
  "forwarded_for hs = Inr (Some chain) \<longleftrightarrow> hs X_FORWARDED_FOR \<noteq> [] \<and> map entry_address (xff_entries hs) = map Some chain"
  by (auto simp: forwarded_for_def and_then_eq_Inr forwarded_values_Inr xff_entries_def)

lemma forwarded_for_None: "forwarded_for hs = Inr None \<longleftrightarrow> hs X_FORWARDED_FOR = []"
  by (auto simp: forwarded_for_def and_then_eq_Inr forwarded_values_Inr)

lemma chain_not_empty:
  assumes "forwarded_for hs = Inr (Some chain)"
  shows "chain \<noteq> []"
proof -
  from assms obtain v vs where "hs X_FORWARDED_FOR = v # vs"
    by (cases "hs X_FORWARDED_FOR") (auto simp: forwarded_for_Some)
  then have "xff_entries hs \<noteq> []"
    by (simp add: xff_entries_def value_entries_not_Nil)
  with assms show ?thesis by (auto simp: forwarded_for_Some)
qed

text \<open>The nearest hop that is not trusted decides.\<close>

lemma find_rev_nearest:
  assumes "\<not> P a" "\<forall>h\<in>set hops. P h"
  shows "find (\<lambda>x. \<not> P x) (rev (before @ a # hops)) = Some a"
proof -
  have "find (\<lambda>x. \<not> P x) (xs @ a # ys) = Some a" if "\<forall>h\<in>set xs. P h" for xs ys
    using that assms(1) by (induction xs) auto
  from this [of "rev hops" "rev before"] assms(2) show ?thesis by simp
qed

lemma forwarded_client_ip_nearest:
  assumes "\<not> trusts env policy a" "\<forall>h\<in>set hops. trusts env policy h"
  shows "forwarded_client_ip env policy (before @ a # hops) = Some a"
  using find_rev_nearest [of "trusts env policy" a hops before] assms
  by (cases before) (simp_all add: forwarded_client_ip_def)

text \<open>
  C11. Client addresses cannot be forged. Suppose the forwarding header ends in an entry a trusted proxy wrote
  for an address that is not trusted, followed only by entries of trusted hops. Then the canonical client
  address is that address, or the connection peer's; nothing the client put before it, well formed or not, in
  this header or in \<open>X-Real-IP\<close>, can make it another.
\<close>

theorem client_address_not_forgeable:
  assumes "xff_entries hs = before @ e # hops"
    and "entry_address e = Some a" "\<not> trusts env policy a"
    and "\<forall>h\<in>set hops. \<exists>b. entry_address h = Some b \<and> trusts env policy b"
    and "ext_peer exts = Some peer"
  shows "canonical_client_addr env hs exts policy \<in> {Some a, Some (canonical_ip (sa_ip peer))}"
proof (cases "forwarded_for hs")
  case (Inl u)
  then show ?thesis using assms(5) by (simp add: canonical_client_addr_def)
next
  case (Inr r)
  have "hs X_FORWARDED_FOR \<noteq> []" using assms(1) by (auto simp: xff_entries_def)
  with Inr obtain chain where r: "r = Some chain" by (cases r) (auto simp: forwarded_for_None)
  with Inr have "map entry_address (before @ e # hops) = map Some chain"
    using assms(1) by (simp add: forwarded_for_Some)
  then obtain us vs where chain: "chain = us @ a # vs" and vs: "map entry_address hops = map Some vs"
    using assms(2) by (auto simp: map_eq_append_conv append_eq_map_conv Cons_eq_map_conv)
  have "\<forall>v\<in>set vs. trusts env policy v"
  proof
    fix v assume "v \<in> set vs"
    then have "Some v \<in> set (map entry_address hops)" using vs by simp
    with assms(4) show "trusts env policy v" by auto
  qed
  with assms(3) chain have "forwarded_client_ip env policy chain = Some a"
    by (simp add: forwarded_client_ip_nearest)
  with Inr r assms(5) show ?thesis by (simp add: canonical_client_addr_def)
qed

text \<open>
  Forwarding headers from outside. With an untrusted peer the headers are ignored; an address is found
  exactly when the request has a peer, so the walk over a chain never runs off its end; and a malformed
  chain falls back to the peer.
\<close>

theorem canonical_client_addr_defined:
  "(canonical_client_addr env hs exts policy = None) = (ext_peer exts = None)
   \<and> (\<forall>peer. ext_peer exts = Some peer \<longrightarrow>
        \<not> trusts env policy (canonical_ip (sa_ip peer)) \<or> forwarded_for hs = Inl ()
        \<longrightarrow> canonical_client_addr env hs exts policy = Some (canonical_ip (sa_ip peer)))"
proof -
  have "forwarded_client_ip env policy chain \<noteq> None" if "forwarded_for hs = Inr (Some chain)" for chain
    using chain_not_empty [OF that] by (auto simp: forwarded_client_ip_def split: list.splits option.splits)
  then show ?thesis
    by (auto simp: canonical_client_addr_def split: option.splits sum.splits)
qed

section \<open>A sample request\<close>

definition behind_proxy :: "(IpAddr \<times> nat) ClientIpPolicy" where
  "behind_proxy = \<lparr>trusted_proxy_cidrs = [(V4 0x0A000000, 8)]\<rparr>"

definition forged_headers :: headers where
  "forged_headers = (\<lambda>name. if name = ''x-forwarded-for'' then [Some ''1.2.3.4, 8.8.8.8''] else [])"

definition proxied :: extensions where
  "proxied = \<lparr>ext_peer = Some \<lparr>sa_ip = V4 0x0A000001, sa_port = 9000, sa_scope = 0\<rparr>, ext_request_id = None\<rparr>"

lemma forged_entries: "xff_entries forged_headers = [Some ''1.2.3.4''] @ Some ''8.8.8.8'' # []"
  by (simp add: xff_entries_def value_entries_def forged_headers_def eval_defs)

lemma forged_address: "entry_address (Some ''8.8.8.8'') = Some (V4 0x08080808)"
  by (simp add: entry_address_def eval_defs)

theorem client_address_not_forgeable_witness:
  "canonical_client_addr cidr_env forged_headers proxied behind_proxy \<in> {Some (V4 0x08080808), Some (V4 0x0A000001)}"
proof -
  have "\<not> trusts cidr_env behind_proxy (V4 0x08080808)" by (simp add: behind_proxy_def cidr_env_def eval_defs)
  from client_address_not_forgeable [OF forged_entries forged_address this, of proxied]
  show ?thesis by (simp add: proxied_def canonical_ip_def)
qed

theorem canonical_client_addr_defined_witness:
  "canonical_client_addr cidr_env forged_headers (proxied\<lparr>ext_peer := Some \<lparr>sa_ip = V4 0x09090909, sa_port = 1, sa_scope = 0\<rparr>\<rparr>) behind_proxy
   = Some (V4 0x09090909)"
proof -
  have "\<not> trusts cidr_env behind_proxy (canonical_ip (V4 0x09090909))"
    by (simp add: behind_proxy_def cidr_env_def eval_defs)
  with canonical_client_addr_defined [of cidr_env forged_headers
      "proxied\<lparr>ext_peer := Some \<lparr>sa_ip = V4 0x09090909, sa_port = 1, sa_scope = 0\<rparr>\<rparr>" behind_proxy]
  show ?thesis by (simp add: canonical_ip_def)
qed

end
