(* ===== verification/Rate_Limit.thy ===== *)
theory Rate_Limit
  imports Policy_Eval "HOL-Library.Word"
begin

text \<open>
  The rate limiter of the middleware (\<open>gateway/src/middleware/rate_limit.rs\<close>): token buckets in a bounded
  store with second-chance eviction, the isolated bucket a policy simulation runs, the policy stage's selection
  of an override, and the order of local and shared decisions. A store is guarded by one lock, so its operations
  are atomic. Keys are \<open>u64\<close> hashes, of which the seeded hasher is an argument; instants and durations are
  nanoseconds. Floating-point operations are those of IEEE 754: on finite values the exact result rounded by
  \<open>rnd\<close>, which may overflow to an infinity; \<open>Infinite True\<close> is the negative one. Gauges and log lines
  are left out.
\<close>

section \<open>Floating point\<close>

type_synonym rounding = "rat \<Rightarrow> f64"

fun f64_le :: "f64 \<Rightarrow> f64 \<Rightarrow> bool" where
  "f64_le NotANumber _ = False"
| "f64_le _ NotANumber = False"
| "f64_le (Finite x) (Finite y) = (x \<le> y)"
| "f64_le (Finite _) (Infinite neg) = (\<not> neg)"
| "f64_le (Infinite neg) (Finite _) = neg"
| "f64_le (Infinite neg) (Infinite neg') = (neg \<or> \<not> neg')"

fun f64_eq :: "f64 \<Rightarrow> f64 \<Rightarrow> bool" where
  "f64_eq NotANumber _ = False"
| "f64_eq x y = (x = y)"

fun f64_add :: "rounding \<Rightarrow> f64 \<Rightarrow> f64 \<Rightarrow> f64" where
  "f64_add rnd (Finite x) (Finite y) = rnd (x + y)"
| "f64_add rnd (Infinite neg) (Infinite neg') = (if neg = neg' then Infinite neg else NotANumber)"
| "f64_add rnd (Infinite neg) (Finite _) = Infinite neg"
| "f64_add rnd (Finite _) (Infinite neg) = Infinite neg"
| "f64_add rnd _ _ = NotANumber"

fun f64_mul :: "rounding \<Rightarrow> f64 \<Rightarrow> f64 \<Rightarrow> f64" where
  "f64_mul rnd (Finite x) (Finite y) = rnd (x * y)"
| "f64_mul rnd (Infinite neg) (Infinite neg') = Infinite (neg \<noteq> neg')"
| "f64_mul rnd (Infinite neg) (Finite y) = (if y = 0 then NotANumber else Infinite (neg \<noteq> (y < 0)))"
| "f64_mul rnd (Finite x) (Infinite neg) = (if x = 0 then NotANumber else Infinite (neg \<noteq> (x < 0)))"
| "f64_mul rnd _ _ = NotANumber"

text \<open>\<open>f64::min\<close> ignores an operand that is not a number.\<close>

definition f64_min :: "f64 \<Rightarrow> f64 \<Rightarrow> f64" where
  "f64_min x y = (if x = NotANumber then y else if y = NotANumber then x else if f64_le x y then x else y)"

text \<open>\<open>Duration::as_secs_f64\<close>: the seconds plus the nanoseconds over a thousand million.\<close>

definition as_secs_f64 :: "rounding \<Rightarrow> nat \<Rightarrow> f64" where
  "as_secs_f64 rnd d =
     f64_add rnd (rnd (of_nat (d div 10 ^ 9))) (rnd (of_nat (d mod 10 ^ 9) / 10 ^ 9))"

text \<open>What is used of rounding: it is monotone, and exact on the integers below \<open>2 ^ 53\<close>.\<close>

definition ieee_rounding :: "rounding \<Rightarrow> bool" where
  "ieee_rounding rnd =
     ((\<forall>x y. x \<le> y \<longrightarrow> f64_le (rnd x) (rnd y)) \<and> (\<forall>n < 2 ^ 53. rnd (of_nat n) = Finite (of_nat n)))"

section \<open>Token buckets\<close>

definition spend_token :: "rounding \<Rightarrow> f64 \<Rightarrow> f64 \<Rightarrow> f64 \<Rightarrow> f64 \<Rightarrow> bool \<times> f64" where
  "spend_token rnd tokens elapsed_secs rps burst =
     (let refilled = f64_min (f64_add rnd tokens (f64_mul rnd elapsed_secs rps)) burst in
      if f64_le (Finite 1) refilled then (True, f64_add rnd refilled (Finite (-1))) else (False, refilled))"

record LaneLimit =
  ll_requests_per_second :: f64
  ll_burst :: nat

record IsolatedBucket =
  ib_rps :: f64
  ib_burst :: f64
  ib_state :: "(f64 \<times> nat) option"

definition IsolatedBucket_new :: "LaneLimit \<Rightarrow> IsolatedBucket" where
  "IsolatedBucket_new cfg =
     \<lparr>ib_rps = ll_requests_per_second cfg, ib_burst = Finite (of_nat (ll_burst cfg)), ib_state = None\<rparr>"

definition IsolatedBucket_check_at :: "rounding \<Rightarrow> nat \<Rightarrow> IsolatedBucket \<Rightarrow> bool \<times> IsolatedBucket" where
  "IsolatedBucket_check_at rnd t b =
     (let (tokens, elapsed) =
            (case ib_state b of
               None \<Rightarrow> (ib_burst b, Finite 0)
             | Some (tokens, last_step) \<Rightarrow> (tokens, as_secs_f64 rnd (t - last_step)));
          (allowed, tokens') = spend_token rnd tokens elapsed (ib_rps b) (ib_burst b)
      in (allowed, b\<lparr>ib_state := Some (tokens', t)\<rparr>))"

section \<open>The bucket store\<close>

record TokenBucket =
  bk_tokens :: f64
  bk_last_refill :: nat
  bk_referenced :: bool

record BucketStore =
  bs_map :: "64 word \<rightharpoonup> TokenBucket"
  bs_hand :: "64 word list"
  bs_capacity :: nat
  bs_idle_ttl :: nat

definition BucketStore_new :: "nat \<Rightarrow> nat \<Rightarrow> BucketStore" where
  "BucketStore_new capacity idle_ttl =
     \<lparr>bs_map = Map.empty, bs_hand = [], bs_capacity = capacity, bs_idle_ttl = idle_ttl\<rparr>"

text \<open>The scanning loop of \<open>evict_one\<close>; the Boolean is whether it evicted.\<close>

fun evict_scan :: "nat \<Rightarrow> nat \<Rightarrow> BucketStore \<Rightarrow> BucketStore \<times> bool" where
  "evict_scan 0 now st = (st, False)"
| "evict_scan (Suc scans) now st =
     (case bs_hand st of
        [] \<Rightarrow> (st, False)
      | candidate # rest \<Rightarrow>
          (case bs_map st candidate of
             None \<Rightarrow> evict_scan scans now (st\<lparr>bs_hand := rest\<rparr>)
           | Some bucket \<Rightarrow>
               if now - bk_last_refill bucket \<ge> bs_idle_ttl st
               then (st\<lparr>bs_map := (bs_map st)(candidate := None), bs_hand := rest\<rparr>, True)
               else if bk_referenced bucket
               then evict_scan scans now
                      (st\<lparr>bs_map := (bs_map st)(candidate \<mapsto> bucket\<lparr>bk_referenced := False\<rparr>),
                          bs_hand := rest @ [candidate]\<rparr>)
               else (st\<lparr>bs_map := (bs_map st)(candidate := None), bs_hand := rest\<rparr>, True)))"

fun evict_any :: "64 word list \<Rightarrow> BucketStore \<Rightarrow> BucketStore" where
  "evict_any [] st = st\<lparr>bs_hand := []\<rparr>"
| "evict_any (candidate # rest) st =
     (if bs_map st candidate \<noteq> None
      then st\<lparr>bs_map := (bs_map st)(candidate := None), bs_hand := rest\<rparr>
      else evict_any rest st)"

definition evict_one :: "nat \<Rightarrow> BucketStore \<Rightarrow> BucketStore" where
  "evict_one now st =
     (case evict_scan (length (bs_hand st) * 2) now st of
        (st', True) \<Rightarrow> st'
      | (st', False) \<Rightarrow> evict_any (bs_hand st') st')"

record RateLimiter =
  lm_buckets :: BucketStore
  lm_rps :: f64
  lm_burst :: f64

definition RateLimiter_new :: "LaneLimit \<Rightarrow> nat \<Rightarrow> nat \<Rightarrow> RateLimiter" where
  "RateLimiter_new cfg bucket_capacity bucket_idle_ttl =
     \<lparr>lm_buckets = BucketStore_new bucket_capacity bucket_idle_ttl,
      lm_rps = ll_requests_per_second cfg, lm_burst = Finite (of_nat (ll_burst cfg))\<rparr>"

definition RateLimiter_check_at ::
    "rounding \<Rightarrow> (string \<Rightarrow> 64 word) \<Rightarrow> string \<Rightarrow> nat \<Rightarrow> RateLimiter \<Rightarrow> bool \<times> RateLimiter" where
  "RateLimiter_check_at rnd hash_of key now lm =
     (let st = lm_buckets lm; hashed = hash_of key in
      case bs_map st hashed of
        Some bucket \<Rightarrow>
          let (allowed, tokens) =
                spend_token rnd (bk_tokens bucket) (as_secs_f64 rnd (now - bk_last_refill bucket)) (lm_rps lm) (lm_burst lm)
          in (allowed,
              lm\<lparr>lm_buckets := st\<lparr>bs_map := (bs_map st)(hashed \<mapsto>
                   \<lparr>bk_tokens = tokens, bk_last_refill = now, bk_referenced = True\<rparr>)\<rparr>\<rparr>)
      | None \<Rightarrow>
          let st' = (if card (dom (bs_map st)) \<ge> bs_capacity st then evict_one now st else st);
              (allowed, tokens) = spend_token rnd (lm_burst lm) (Finite 0) (lm_rps lm) (lm_burst lm)
          in (allowed,
              lm\<lparr>lm_buckets := st'\<lparr>bs_map := (bs_map st')(hashed \<mapsto>
                   \<lparr>bk_tokens = tokens, bk_last_refill = now, bk_referenced = False\<rparr>),
                   bs_hand := bs_hand st' @ [hashed]\<rparr>\<rparr>))"

section \<open>Keys and lanes\<close>

datatype Lane = Read | Write

definition lane_for :: "string \<Rightarrow> Lane" where
  "lane_for m = (if m \<in> {''GET'', ''HEAD''} then Read else Write)"

definition principal_rate_limit_key :: "Principal \<Rightarrow> string" where
  "principal_rate_limit_key p =
     (let iss = (case issuer p of Some i \<Rightarrow> i | None \<Rightarrow> []) in
      ''principal:'' @ dec_of_nat (length iss) @ '':'' @ iss @ '':''
      @ auth_method_policy_value (auth_method p) @ '':'' @ user_id p)"

section \<open>The request's stages\<close>

text \<open>
  What the shared authority answers, if there is one: it is a database, so its answer is an argument.
\<close>

datatype SharedDecision = SD_Allowed | SD_Denied | SD_Unavailable

datatype RateAnswer = TooManyRequests | LimiterUnavailable | NextStage

definition AUTHORITY_INDEPENDENT_PATHS :: "string list" where
  "AUTHORITY_INDEPENDENT_PATHS = [''/health'', ''/livez'', ''/readyz'', ''/startupz'', ''/metrics'']"

definition check_rate_limit ::
    "rounding \<Rightarrow> (string \<Rightarrow> 64 word) \<Rightarrow> string \<Rightarrow> nat \<Rightarrow> SharedDecision option \<Rightarrow> RateLimiter
       \<Rightarrow> RateAnswer \<times> RateLimiter" where
  "check_rate_limit rnd hash_of key now shared lm =
     (let (allowed, lm') = RateLimiter_check_at rnd hash_of key now lm in
      (if \<not> allowed then TooManyRequests
       else (case shared of
               None \<Rightarrow> NextStage
             | Some SD_Allowed \<Rightarrow> NextStage
             | Some SD_Denied \<Rightarrow> TooManyRequests
             | Some SD_Unavailable \<Rightarrow> LimiterUnavailable),
       lm'))"

text \<open>The global stage: \<open>authority\<close> is the shared answer for a lane and key in cluster mode, \<open>None\<close> standalone.\<close>

definition rate_limit_request ::
    "rounding \<Rightarrow> (Lane \<Rightarrow> string \<Rightarrow> 64 word) \<Rightarrow> (Lane \<Rightarrow> string \<Rightarrow> SharedDecision) option \<Rightarrow> string \<Rightarrow> string \<Rightarrow> string \<Rightarrow> nat
       \<Rightarrow> RateLimiter \<times> RateLimiter \<Rightarrow> RateAnswer \<times> RateLimiter \<times> RateLimiter" where
  "rate_limit_request rnd hash_of authority m path client_ip now lanes =
     (let lane = lane_for m;
          key = ''ip:'' @ client_ip;
          shared = (if path \<in> set AUTHORITY_INDEPENDENT_PATHS then None
                    else map_option (\<lambda>decide. decide lane key) authority)
      in case lane of
           Read \<Rightarrow> (let (answer, lm) = check_rate_limit rnd (hash_of lane) key now shared (fst lanes)
                    in (answer, lm, snd lanes))
         | Write \<Rightarrow> (let (answer, lm) = check_rate_limit rnd (hash_of lane) key now shared (snd lanes)
                     in (answer, fst lanes, lm)))"

section \<open>The policy stage\<close>

text \<open>\<open>fingerprint\<close> is the hexadecimal SHA-256 of a rule's JSON, of which the two crates are an argument.\<close>

record RateLimitOverride =
  ov_rule :: RateLimitRule
  ov_limiter :: RateLimiter
  ov_fingerprint :: string

definition RateLimitOverride_new :: "(RateLimitRule \<Rightarrow> string) \<Rightarrow> nat \<Rightarrow> nat \<Rightarrow> RateLimitRule \<Rightarrow> RateLimitOverride" where
  "RateLimitOverride_new fingerprint bucket_capacity bucket_idle_ttl rule =
     \<lparr>ov_rule = rule,
      ov_limiter = RateLimiter_new
        \<lparr>ll_requests_per_second = rl_requests_per_second rule, ll_burst = rl_burst rule\<rparr> bucket_capacity bucket_idle_ttl,
      ov_fingerprint = fingerprint rule\<rparr>"

text \<open>The selector is the installed compiled policy, absent until the stage is attached.\<close>

record 'net RateLimitPolicyState =
  ps_selector :: "'net CompiledPolicy option"
  ps_overrides :: "RateLimitOverride list"

definition RateLimitPolicyState_unattached :: "'net RateLimitPolicyState" where
  "RateLimitPolicyState_unattached = \<lparr>ps_selector = None, ps_overrides = []\<rparr>"

definition RateLimitPolicyState_for_snapshot ::
    "(RateLimitRule \<Rightarrow> string) \<Rightarrow> nat \<Rightarrow> nat \<Rightarrow> 'net CompiledPolicy \<Rightarrow> 'net RateLimitPolicyState" where
  "RateLimitPolicyState_for_snapshot fingerprint bucket_capacity bucket_idle_ttl cp =
     \<lparr>ps_selector = Some cp,
      ps_overrides = map (RateLimitOverride_new fingerprint bucket_capacity bucket_idle_ttl) (pol_rate_limits (cp_policy cp))\<rparr>"

datatype RateLaneRefusal = UnsafePath | Incomplete Limitation | RefusedError EvaluationError

definition RateLaneRefusal_reason :: "RateLaneRefusal \<Rightarrow> string" where
  "RateLaneRefusal_reason refusal =
     (case refusal of
        UnsafePath \<Rightarrow> ''unsafe_path''
      | Incomplete _ \<Rightarrow> ''policy_evaluation_incomplete''
      | RefusedError _ \<Rightarrow> ''policy_evaluation_error'')"

text \<open>
  The limiter of a match is shared with the state it was selected from, so a match names its index there.
  \<open>pinned\<close> is the snapshot pinned for the running task, if there is one.
\<close>

record PolicyMatch =
  pm_index :: nat
  pm_fingerprint :: string
  pm_limit :: LaneLimit

definition rate_lane_context ::
    "'net CompiledPolicy \<Rightarrow> ResourceSnapshot option \<Rightarrow> string \<Rightarrow> string \<Rightarrow> Principal \<Rightarrow> PolicyEvaluationContext" where
  "rate_lane_context cp pinned m path p =
     \<lparr>pc_version = CONTEXT_VERSION,
      pc_snapshot = (case pinned of None \<Rightarrow> cp_snapshot cp | Some snapshot \<Rightarrow> snapshot),
      pc_method = Some m, pc_path = Some path,
      pc_principal = PF_Authenticated (PrincipalIdentity_from_principal p),
      pc_target = HT_Missing, pc_request_host = HF_Missing, pc_dispatch = None\<rparr>"

definition RateLimitPolicyState_select ::
    "digest_env \<Rightarrow> ResourceSnapshot option \<Rightarrow> string \<Rightarrow> string \<Rightarrow> Principal \<Rightarrow> 'net RateLimitPolicyState
       \<Rightarrow> (RateLaneRefusal, PolicyMatch option) result" where
  "RateLimitPolicyState_select de pinned m path p ps =
     (case ps_selector ps of
        None \<Rightarrow> Inr None
      | Some cp \<Rightarrow>
          if is_unsafe_request_path path then Inl UnsafePath
          else (case fst (select_rate_lane_with_facts de cp (rate_lane_context cp pinned m path p)
                            (serving_facts (cp_fact_needs cp) (Some p)) NoStages_record ()) of
                  Inl e \<Rightarrow> Inl (RefusedError e)
                | Inr selection \<Rightarrow>
                    (case rls_outcome selection of
                       NoOverride \<Rightarrow> Inr None
                     | Override index limit \<Rightarrow>
                         if index < length (ps_overrides ps)
                         then let selected = ps_overrides ps ! index; rule = ov_rule selected in
                              if f64_eq (rl_requests_per_second rule) (lim_requests_per_second limit)
                                 \<and> rl_burst rule = lim_burst limit
                              then Inr (Some \<lparr>pm_index = index, pm_fingerprint = ov_fingerprint selected,
                                              pm_limit = \<lparr>ll_requests_per_second = rl_requests_per_second rule,
                                                          ll_burst = rl_burst rule\<rparr>\<rparr>)
                              else Inl (RefusedError InternalInvariant)
                         else Inl (RefusedError InternalInvariant)
                     | RL_Indeterminate limitation \<Rightarrow> Inl (Incomplete limitation))))"

datatype PolicyStageAnswer = Answered RateAnswer | RefusedUnevaluated string

text \<open>\<open>authority\<close> is the shared answer for a rule's key and limit in cluster mode.\<close>

definition policy_rate_limit_request ::
    "rounding \<Rightarrow> (nat \<Rightarrow> string \<Rightarrow> 64 word) \<Rightarrow> digest_env \<Rightarrow> (string \<Rightarrow> LaneLimit \<Rightarrow> SharedDecision) option
       \<Rightarrow> ResourceSnapshot option \<Rightarrow> string \<Rightarrow> string \<Rightarrow> Principal option \<Rightarrow> nat \<Rightarrow> 'net RateLimitPolicyState
       \<Rightarrow> PolicyStageAnswer \<times> 'net RateLimitPolicyState" where
  "policy_rate_limit_request rnd hash_of de authority pinned m path caller now ps =
     (case caller of
        None \<Rightarrow> (Answered NextStage, ps)
      | Some p \<Rightarrow>
          (case RateLimitPolicyState_select de pinned m path p ps of
             Inr None \<Rightarrow> (Answered NextStage, ps)
           | Inl refusal \<Rightarrow> (RefusedUnevaluated (RateLaneRefusal_reason refusal), ps)
           | Inr (Some matched) \<Rightarrow>
               let key = principal_rate_limit_key p;
                   index = pm_index matched;
                   selected = ps_overrides ps ! index;
                   shared = map_option (\<lambda>decide. decide (''rule:'' @ pm_fingerprint matched @ '':'' @ key) (pm_limit matched))
                              authority;
                   (answer, lm) = check_rate_limit rnd (hash_of index) key now shared (ov_limiter selected)
               in (Answered answer, ps\<lparr>ps_overrides := (ps_overrides ps)[index := selected\<lparr>ov_limiter := lm\<rparr>]\<rparr>)))"

section \<open>The store's invariant\<close>

text \<open>The hand holds each tracked key once.\<close>

definition store_ok :: "BucketStore \<Rightarrow> bool" where
  "store_ok st = (distinct (bs_hand st) \<and> set (bs_hand st) = dom (bs_map st))"

definition evictable :: "nat \<Rightarrow> BucketStore \<Rightarrow> 64 word \<Rightarrow> bool" where
  "evictable now st k =
     (case bs_map st k of
        None \<Rightarrow> False
      | Some bucket \<Rightarrow> now - bk_last_refill bucket \<ge> bs_idle_ttl st \<or> \<not> bk_referenced bucket)"

lemma evictable_iff:
  "evictable now st k =
     (\<exists>bucket. bs_map st k = Some bucket \<and> (now - bk_last_refill bucket \<ge> bs_idle_ttl st \<or> \<not> bk_referenced bucket))"
  by (auto simp: evictable_def split: option.splits)

text \<open>Reprieved buckets lose their mark and go to the back.\<close>

definition reprieve :: "64 word list \<Rightarrow> (64 word \<rightharpoonup> TokenBucket) \<Rightarrow> (64 word \<rightharpoonup> TokenBucket)" where
  "reprieve ks m = (\<lambda>k. if k \<in> set ks then map_option (\<lambda>b. b\<lparr>bk_referenced := False\<rparr>) (m k) else m k)"

lemma reprieve_Nil [simp]: "reprieve [] m = m"
  by (simp add: reprieve_def)

lemma evict_scan_victim:
  "length before < scans \<Longrightarrow> bs_hand st = before @ victim # rest \<Longrightarrow> store_ok st
   \<Longrightarrow> \<forall>k\<in>set before. \<not> evictable now st k \<Longrightarrow> evictable now st victim
   \<Longrightarrow> evict_scan scans now st =
       (st\<lparr>bs_map := (reprieve before (bs_map st))(victim := None), bs_hand := rest @ before\<rparr>, True)"
proof (induction before arbitrary: scans st rest)
  case Nil
  then obtain scans' where "scans = Suc scans'" by (cases scans) simp_all
  with Nil show ?case by (auto simp: evictable_iff fun_upd_def)
next
  case (Cons k before)
  then obtain scans' where scans: "scans = Suc scans'" "length before < scans'" by (cases scans) simp_all
  have "k \<in> dom (bs_map st)" using store_ok_def [THEN iffD1, OF Cons.prems(3)] Cons.prems(2) by auto
  then obtain bucket where b: "bs_map st k = Some bucket" by auto
  have hot: "now - bk_last_refill bucket < bs_idle_ttl st" "bk_referenced bucket"
    using Cons.prems(4) b by (auto simp: evictable_iff)
  let ?st = "st\<lparr>bs_map := (bs_map st)(k \<mapsto> bucket\<lparr>bk_referenced := False\<rparr>), bs_hand := (before @ victim # rest) @ [k]\<rparr>"
  have d: "k \<notin> set (before @ victim # rest)" "distinct (before @ victim # rest)"
    using Cons.prems(2,3) by (auto simp: store_ok_def)
  have "store_ok ?st" using Cons.prems(2,3) b by (auto simp: store_ok_def)
  moreover have "\<forall>j\<in>set before. \<not> evictable now ?st j" "evictable now ?st victim"
    using Cons.prems(4,5) d by (auto simp: evictable_iff)
  ultimately have "evict_scan scans' now ?st =
      (?st\<lparr>bs_map := (reprieve before (bs_map ?st))(victim := None), bs_hand := (rest @ [k]) @ before\<rparr>, True)"
    using scans(2) by (intro Cons.IH) simp_all
  moreover have "(reprieve before (bs_map ?st))(victim := None) = (reprieve (k # before) (bs_map st))(victim := None)"
    using b d by (auto simp: reprieve_def fun_eq_iff)
  ultimately show ?case using scans(1) b hot Cons.prems(2) by (simp add: fun_upd_def)
qed

lemma evict_scan_rotate:
  "length before \<le> scans \<Longrightarrow> bs_hand st = before @ rest \<Longrightarrow> store_ok st
   \<Longrightarrow> \<forall>k\<in>set before. \<not> evictable now st k
   \<Longrightarrow> evict_scan scans now st =
       evict_scan (scans - length before) now (st\<lparr>bs_map := reprieve before (bs_map st), bs_hand := rest @ before\<rparr>)"
proof (induction before arbitrary: scans st rest)
  case (Cons k before)
  then obtain scans' where scans: "scans = Suc scans'" "length before \<le> scans'" by (cases scans) simp_all
  have "k \<in> dom (bs_map st)" using store_ok_def [THEN iffD1, OF Cons.prems(3)] Cons.prems(2) by auto
  then obtain bucket where b: "bs_map st k = Some bucket" by auto
  have hot: "now - bk_last_refill bucket < bs_idle_ttl st" "bk_referenced bucket"
    using Cons.prems(4) b by (auto simp: evictable_iff)
  let ?st = "st\<lparr>bs_map := (bs_map st)(k \<mapsto> bucket\<lparr>bk_referenced := False\<rparr>), bs_hand := (before @ rest) @ [k]\<rparr>"
  have d: "k \<notin> set (before @ rest)" "distinct (before @ rest)" using Cons.prems(2,3) by (auto simp: store_ok_def)
  have "store_ok ?st" using Cons.prems(2,3) b by (auto simp: store_ok_def)
  moreover have "\<forall>j\<in>set before. \<not> evictable now ?st j" using Cons.prems(4) d by (auto simp: evictable_iff)
  ultimately have "evict_scan scans' now ?st =
      evict_scan (scans' - length before) now (?st\<lparr>bs_map := reprieve before (bs_map ?st), bs_hand := (rest @ [k]) @ before\<rparr>)"
    using scans(2) by (intro Cons.IH) simp_all
  moreover have "reprieve before (bs_map ?st) = reprieve (k # before) (bs_map st)"
    using b d by (auto simp: reprieve_def fun_eq_iff)
  ultimately show ?case using scans(1) b hot Cons.prems(2) by simp
qed simp

text \<open>
  The reference: the first evictable bucket in scan order goes, and the ones before it lose their mark and move
  behind the rest; with none evictable, every mark is cleared and the first bucket goes.
\<close>

definition second_chance :: "nat \<Rightarrow> BucketStore \<Rightarrow> BucketStore" where
  "second_chance now st =
     (let before = takeWhile (\<lambda>k. \<not> evictable now st k) (bs_hand st);
          remaining = dropWhile (\<lambda>k. \<not> evictable now st k) (bs_hand st)
      in if remaining = []
         then st\<lparr>bs_map := (reprieve before (bs_map st))(hd before := None), bs_hand := tl before\<rparr>
         else st\<lparr>bs_map := (reprieve before (bs_map st))(hd remaining := None), bs_hand := tl remaining @ before\<rparr>)"

lemma evict_one_found:
  assumes "store_ok st" "bs_hand st = before @ victim # rest"
    and "\<forall>k\<in>set before. \<not> evictable now st k" "evictable now st victim"
  shows "evict_one now st = st\<lparr>bs_map := (reprieve before (bs_map st))(victim := None), bs_hand := rest @ before\<rparr>"
  using evict_scan_victim [of before "length (bs_hand st) * 2" st victim rest now] assms by (simp add: evict_one_def)

lemma evict_one_all_used:
  assumes "store_ok st" "bs_hand st = k # rest" "\<forall>j\<in>set (k # rest). \<not> evictable now st j"
  shows "evict_one now st = st\<lparr>bs_map := (reprieve (k # rest) (bs_map st))(k := None), bs_hand := rest\<rparr>"
proof -
  let ?st = "st\<lparr>bs_map := reprieve (k # rest) (bs_map st), bs_hand := [] @ k # rest\<rparr>"
  have "evict_scan (length (k # rest) * 2) now st = evict_scan (length (k # rest)) now ?st"
    using evict_scan_rotate [of "k # rest" "length (k # rest) * 2" st "[]"] assms by simp
  also have "\<dots> = (?st\<lparr>bs_map := (reprieve [] (bs_map ?st))(k := None), bs_hand := rest @ []\<rparr>, True)"
  proof (rule evict_scan_victim)
    have "k \<in> dom (bs_map st)" using assms(1,2) by (auto simp: store_ok_def)
    then show "evictable now ?st k" by (auto simp: evictable_iff reprieve_def)
    show "store_ok ?st" using assms(1,2) by (auto simp: store_ok_def reprieve_def dom_def)
  qed simp_all
  finally show ?thesis using assms(2) by (simp add: evict_one_def)
qed

lemma evict_one_is_second_chance:
  assumes "store_ok st" "bs_hand st \<noteq> []"
  shows "evict_one now st = second_chance now st"
proof (cases "dropWhile (\<lambda>k. \<not> evictable now st k) (bs_hand st)")
  case Nil
  obtain k rest where h: "bs_hand st = k # rest" using assms(2) by (cases "bs_hand st") auto
  have none: "\<forall>j\<in>set (k # rest). \<not> evictable now st j" using Nil unfolding h dropWhile_eq_Nil_conv by blast
  then have "takeWhile (\<lambda>j. \<not> evictable now st j) (bs_hand st) = k # rest"
    unfolding h by (intro takeWhile_eq_all_conv [THEN iffD2]) simp
  then show ?thesis
    using evict_one_all_used [OF assms(1) h none] Nil unfolding second_chance_def by simp
next
  case (Cons victim rest)
  have "evictable now st victim" using Cons by (metis dropWhile_eq_Cons_conv)
  moreover have "\<forall>k\<in>set (takeWhile (\<lambda>k. \<not> evictable now st k) (bs_hand st)). \<not> evictable now st k"
    by (metis set_takeWhileD)
  moreover have "bs_hand st = takeWhile (\<lambda>k. \<not> evictable now st k) (bs_hand st) @ victim # rest"
    using Cons by (metis takeWhile_dropWhile_id)
  ultimately show ?thesis using evict_one_found [OF assms(1)] Cons by (simp add: second_chance_def Let_def)
qed

end
