(* ===== verification/Number_Text.thy ===== *)
theory Number_Text
  imports Net_Parse Policy_Kernel "HOL-Library.Log_Nat"
begin

text \<open>
  Numbers in canonical JSON (\<open>gateway-config/src/canonical_json.rs\<close>, \<open>write_number\<close> and \<open>ecmascript_number\<close>), with what
  the standard library gives them: IEEE 754 rounding of a decimal to the nearest double, the shortest digits that read
  back to a double, and the digits nearest to it at a given precision. A double is the rational it denotes; both zeros
  are \<open>0\<close>, which the encoder writes alike.
\<close>

section \<open>Doubles\<close>

text \<open>The exponent \<open>e\<close> of the leading digit of a positive number: \<open>b ^ e \<le> x < b ^ (e + 1)\<close>.\<close>

definition exponent_in :: "nat \<Rightarrow> rat \<Rightarrow> int" where
  "exponent_in b x =
     (let (n, d) = quotient_of x;
          e = int (floorlog b (nat n)) - int (floorlog b (nat d))
      in if of_nat b powi e \<le> x then e else e - 1)"

definition round_half_even :: "rat \<Rightarrow> int" where
  "round_half_even q =
     (let f = \<lfloor>q\<rfloor>; r = q - of_int f in if r < 1 / 2 \<or> r = 1 / 2 \<and> even f then f else f + 1)"

text \<open>The spacing of doubles around a positive number, 53 significant bits down to the subnormal bound.\<close>

definition f64_unit :: "rat \<Rightarrow> int" where
  "f64_unit m = max (exponent_in 2 m - 52) (- 1074)"

definition f64_round :: "rat \<Rightarrow> rat" where
  "f64_round x =
     (if x = 0 then 0
      else let u = 2 powi f64_unit \<bar>x\<bar> in sgn x * (of_int (round_half_even (\<bar>x\<bar> / u)) * u))"

section \<open>Decimal digits of a double\<close>

text \<open>A decimal \<open>c * 10 ^ q\<close> as the pair of \<open>c\<close> and \<open>q\<close>.\<close>

definition decimal :: "nat \<times> int \<Rightarrow> rat" where
  "decimal d = of_nat (fst d) * 10 powi snd d"

text \<open>\<open>{:.p$e}\<close>: the closest decimal of \<open>p + 1\<close> digits, of two the even one.\<close>

definition nearest_digits :: "nat \<Rightarrow> rat \<Rightarrow> nat \<times> int" where
  "nearest_digits k m =
     (let q = exponent_in 10 m - int k + 1 in (nat (round_half_even (m / 10 powi q)), q))"

text \<open>\<open>{:e}\<close>: the fewest digits that read back to the double, of those the closest, and of two the upper one.\<close>

definition shortest_at :: "nat \<Rightarrow> rat \<Rightarrow> (nat \<times> int) option" where
  "shortest_at k m =
     (let q = exponent_in 10 m - int k + 1;
          lower = nat \<lfloor>m / 10 powi q\<rfloor>;
          below_ok = (f64_round (decimal (lower, q)) = m);
          above_ok = (f64_round (decimal (Suc lower, q)) = m)
      in if below_ok \<and> (\<not> above_ok \<or> m / 10 powi q - of_nat lower < 1 / 2) then Some (lower, q)
         else if above_ok then Some (Suc lower, q)
         else None)"

fun shortest_from :: "nat \<Rightarrow> nat \<Rightarrow> rat \<Rightarrow> nat \<times> int" where
  "shortest_from 0 k m = nearest_digits 17 m"
| "shortest_from (Suc left) k m = (case shortest_at k m of Some d \<Rightarrow> d | None \<Rightarrow> shortest_from left (Suc k) m)"

definition shortest_digits :: "rat \<Rightarrow> nat \<times> int" where
  "shortest_digits m = shortest_from 17 1 m"

section \<open>The text of a number\<close>

definition trim_zeros :: "string \<Rightarrow> string" where
  "trim_zeros s = rev (dropWhile (\<lambda>c. c = CHR ''0'') (rev s))"

datatype CanonicalJsonError = UnsupportedNumber

definition ecmascript_digits :: "rat \<Rightarrow> nat \<times> int" where
  "ecmascript_digits m =
     (let shortest = shortest_digits m;
          nearest = nearest_digits (length (trim_zeros (dec_of_nat (fst shortest)))) m
      in if f64_round (decimal nearest) = m then nearest else shortest)"

definition number_layout :: "string \<Rightarrow> int \<Rightarrow> string" where
  "number_layout digits n =
     (let k = int (length digits) in
      if k \<le> n \<and> n \<le> 21 then digits @ replicate (nat (n - k)) (CHR ''0'')
      else if 0 < n \<and> n \<le> 21 then take (nat n) digits @ CHR ''.'' # drop (nat n) digits
      else if - 6 < n \<and> n \<le> 0 then ''0.'' @ replicate (nat (- n)) (CHR ''0'') @ digits
      else take 1 digits @ (if drop 1 digits \<noteq> [] then CHR ''.'' # drop 1 digits else [])
           @ [CHR ''e'', if n > 0 then CHR ''+'' else CHR ''-''] @ dec_of_nat (nat \<bar>n - 1\<bar>))"

definition ecmascript_number :: "rat \<Rightarrow> (CanonicalJsonError, string) result" where
  "ecmascript_number x =
     (if x = 0 then Inr ''0''
      else let (c, q) = ecmascript_digits \<bar>x\<bar>;
               scientific = dec_of_nat c;
               digits = trim_zeros scientific
           in if digits = [] then Inl UnsupportedNumber
              else Inr ((if x < 0 then ''-'' else []) @ number_layout digits (q + int (length scientific))))"

definition MAX_SAFE_INTEGER :: nat where "MAX_SAFE_INTEGER = 2 ^ 53 - 1"

text \<open>\<open>str::parse\<close> for an unsigned integer: an optional plus sign and at least one digit, in range.\<close>

definition parse_unsigned :: "nat \<Rightarrow> string \<Rightarrow> nat option" where
  "parse_unsigned bound s =
     (let digits = (if s \<noteq> [] \<and> hd s = CHR ''+'' then tl s else s) in
      if digits \<noteq> [] \<and> list_all is_ascii_digit digits \<and> digits_value 10 digits < bound
      then Some (digits_value 10 digits) else None)"

text \<open>The magnitude of a negative \<open>i64\<close> token; a token without a minus sign is already read as \<open>u64\<close>.\<close>

definition parse_negative :: "string \<Rightarrow> nat option" where
  "parse_negative s =
     (if s \<noteq> [] \<and> hd s = CHR ''-'' \<and> tl s \<noteq> [] \<and> list_all is_ascii_digit (tl s) \<and> digits_value 10 (tl s) \<le> 2 ^ 63
      then Some (digits_value 10 (tl s)) else None)"

definition integer_text :: "bool \<Rightarrow> nat \<Rightarrow> (CanonicalJsonError, string) result" where
  "integer_text negative n =
     (if n > MAX_SAFE_INTEGER then Inl UnsupportedNumber
      else Inr ((if negative \<and> n \<noteq> 0 then ''-'' else []) @ dec_of_nat n))"

definition write_number :: "(string \<Rightarrow> rat option) \<Rightarrow> string \<Rightarrow> (CanonicalJsonError, string) result" where
  "write_number as_f64 number =
     (case parse_unsigned (2 ^ 64) number of
        Some n \<Rightarrow> integer_text False n
      | None \<Rightarrow>
          (case parse_negative number of
             Some n \<Rightarrow> integer_text True n
           | None \<Rightarrow>
               (case as_f64 number of
                  None \<Rightarrow> Inl UnsupportedNumber
                | Some x \<Rightarrow> if \<bar>x\<bar> > of_nat MAX_SAFE_INTEGER then Inl UnsupportedNumber else ecmascript_number x)))"

text \<open>The value a number token denotes.\<close>

definition number_value :: "(string \<Rightarrow> rat option) \<Rightarrow> string \<Rightarrow> rat option" where
  "number_value as_f64 number =
     (case parse_unsigned (2 ^ 64) number of
        Some n \<Rightarrow> Some (of_nat n)
      | None \<Rightarrow>
          (case parse_negative number of
             Some n \<Rightarrow> Some (- of_nat n)
           | None \<Rightarrow> as_f64 number))"

section \<open>Decimal numerals\<close>

lemma digits_value_snoc [simp]: "digits_value r (s @ [c]) = digits_value r s * r + digit_value c"
  by (simp add: digits_value_def)

lemma digits_value_Nil [simp]: "digits_value r [] = 0"
  by (simp add: digits_value_def)

lemma is_digit_char [simp]: "(d :: nat) < 10 \<Longrightarrow> is_ascii_digit (char_of (48 + d))"
  by (simp add: is_ascii_digit_def)

lemma digit_value_digit [simp]: "(d :: nat) < 10 \<Longrightarrow> digit_value (char_of (48 + d)) = d"
  by (simp add: digit_value_def)

lemma digit_value_0 [simp]: "digit_value (CHR ''0'') = 0"
  by code_simp

lemma digits_value_append: "digits_value r (s @ t) = digits_value r s * r ^ length t + digits_value r t"
proof (induction t rule: rev_induct)
  case (snoc c t)
  then show ?case using digits_value_snoc [of r "s @ t" c] by (simp add: algebra_simps)
qed simp

lemma digits_value_zeros [simp]: "digits_value r (replicate n (CHR ''0'')) = 0"
proof (induction n)
  case (Suc n)
  then show ?case using digits_value_snoc [of r "replicate n (CHR ''0'')" "CHR ''0''"] by (simp add: replicate_append_same)
qed simp

lemma dec_of_nat_not_Nil [simp]: "dec_of_nat n \<noteq> []"
  by (subst dec_of_nat.simps) simp

lemma dec_of_nat_digits: "list_all is_ascii_digit (dec_of_nat n)"
proof (induction n rule: less_induct)
  case (less n)
  then have "list_all is_ascii_digit (dec_of_nat (n div 10))" if "10 \<le> n" using that by simp
  then show ?case by (subst dec_of_nat.simps) simp
qed

lemma digits_value_dec_of_nat [simp]: "digits_value 10 (dec_of_nat n) = n"
proof (induction n rule: less_induct)
  case (less n)
  show ?case
  proof (cases "n < 10")
    case True
    then show ?thesis using digits_value_snoc [of 10 "[]" "char_of (48 + n)"] by (subst dec_of_nat.simps) simp
  next
    case False
    then have "digits_value 10 (dec_of_nat (n div 10)) = n div 10" by (intro less.IH) simp
    then show ?thesis using False by (subst dec_of_nat.simps) simp
  qed
qed

lemma dec_of_nat_hd: "0 < n \<Longrightarrow> hd (dec_of_nat n) \<noteq> CHR ''0''"
proof (induction n rule: less_induct)
  case (less n)
  have "(char_of (48 + n) :: char) \<noteq> CHR ''0''" if "n < 10"
    using that less.prems digit_value_digit [of n] by (metis digit_value_0 less_irrefl)
  moreover have "hd (dec_of_nat (n div 10)) \<noteq> CHR ''0''" if "10 \<le> n" using that by (intro less.IH) simp_all
  ultimately show ?case by (subst dec_of_nat.simps) (auto simp: hd_append)
qed

lemma dec_of_nat_inject [simp]: "dec_of_nat m = dec_of_nat n \<longleftrightarrow> m = n"
  by (metis digits_value_dec_of_nat)

text \<open>Leading digits fix the length: a positive number with \<open>k\<close> decimal digits is between powers of ten.\<close>

lemma dec_of_nat_length: "0 < n \<Longrightarrow> 10 ^ (length (dec_of_nat n) - 1) \<le> n \<and> n < 10 ^ length (dec_of_nat n)"
proof (induction n rule: less_induct)
  case (less n)
  show ?case
  proof (cases "n < 10")
    case True
    then have "length (dec_of_nat n) = 1" by (subst dec_of_nat.simps) simp
    with True less.prems show ?thesis by simp
  next
    case False
    then have ih: "10 ^ (length (dec_of_nat (n div 10)) - 1) \<le> n div 10 \<and> n div 10 < 10 ^ length (dec_of_nat (n div 10))"
      by (intro less.IH) simp_all
    have len: "length (dec_of_nat n) = Suc (length (dec_of_nat (n div 10)))" using False by (subst dec_of_nat.simps) simp
    have "0 < length (dec_of_nat (n div 10))" by simp
    then obtain l where l: "length (dec_of_nat (n div 10)) = Suc l" by (metis gr0_implies_Suc)
    have "10 ^ l \<le> n div 10" "n div 10 < 10 ^ Suc l" using ih unfolding l by simp_all
    then have "10 ^ l * 10 \<le> n" "n < 10 ^ Suc l * 10" by (simp_all add: less_eq_div_iff_mult_less_eq div_less_iff_less_mult)
    then show ?thesis unfolding len l by simp
  qed
qed

section \<open>Trailing zeros\<close>

lemma trim_zeros_append: "\<exists>k. s = trim_zeros s @ replicate k (CHR ''0'')"
proof -
  have "rev s = takeWhile (\<lambda>c. c = CHR ''0'') (rev s) @ rev (trim_zeros s)" by (simp add: trim_zeros_def)
  moreover have "takeWhile (\<lambda>c. c = CHR ''0'') (rev s) = replicate (length (takeWhile (\<lambda>c. c = CHR ''0'') (rev s))) (CHR ''0'')"
    by (rule replicate_length_same [symmetric]) (auto dest: set_takeWhileD)
  ultimately have "s = trim_zeros s @ rev (replicate (length (takeWhile (\<lambda>c. c = CHR ''0'') (rev s))) (CHR ''0''))"
    by (metis rev_append rev_rev_ident)
  then show ?thesis unfolding rev_replicate by blast
qed

lemma trim_zeros_last: "trim_zeros s \<noteq> [] \<Longrightarrow> last (trim_zeros s) \<noteq> CHR ''0''"
  using hd_dropWhile [of "\<lambda>c. c = CHR ''0''" "rev s"] by (simp add: trim_zeros_def last_rev)

lemma trim_zeros_snoc_zeros: "s = [] \<or> last s \<noteq> CHR ''0'' \<Longrightarrow> trim_zeros (s @ replicate k (CHR ''0'')) = s"
proof -
  assume "s = [] \<or> last s \<noteq> CHR ''0''"
  then have "dropWhile (\<lambda>c. c = CHR ''0'') (rev s) = rev s" by (cases s rule: rev_cases) auto
  then show ?thesis by (simp add: trim_zeros_def dropWhile_append)
qed

section \<open>Rounding to doubles\<close>

lemma exponent_in_bounds:
  assumes "0 < x" "1 < b"
  shows "of_nat b powi exponent_in b x \<le> x" "x < of_nat b powi (exponent_in b x + 1)"
proof -
  obtain n d where q: "quotient_of x = (n, d)" by fastforce
  have d: "0 < d" and x: "x = of_int n / of_int d" using q by (auto simp: quotient_of_denom_pos quotient_of_div)
  have n: "0 < n" using assms(1) d by (auto simp: x zero_less_divide_iff)
  define fn fd where "fn = floorlog b (nat n)" and "fd = floorlog b (nat d)"
  have bn: "b ^ (fn - 1) \<le> nat n" "nat n < b ^ fn" and bd: "b ^ (fd - 1) \<le> nat d" "nat d < b ^ fd"
    using floorlog_bounds [of "nat n" b] floorlog_bounds [of "nat d" b] n d assms(2) by (auto simp: fn_def fd_def)
  have pos: "0 < fn" "0 < fd" using n d assms(2) by (auto simp: fn_def fd_def floorlog_def)
  have b: "(0 :: rat) < of_nat b" "(1 :: rat) < of_nat b" using assms(2) by simp_all
  have of_pow: "b ^ k \<le> m \<Longrightarrow> (of_nat b :: rat) ^ k \<le> of_nat m" "m < b ^ k \<Longrightarrow> of_nat m < (of_nat b :: rat) ^ k" for k m
    unfolding of_nat_power [symmetric] of_nat_le_iff of_nat_less_iff by assumption+
  have rn: "of_nat b ^ (fn - 1) \<le> (of_int n :: rat)" "(of_int n :: rat) < of_nat b ^ fn"
    using of_pow(1) [OF bn(1)] of_pow(2) [OF bn(2)] n by simp_all
  have rd: "of_nat b ^ (fd - 1) \<le> (of_int d :: rat)" "(of_int d :: rat) < of_nat b ^ fd"
    using of_pow(1) [OF bd(1)] of_pow(2) [OF bd(2)] d by simp_all
  have powi: "of_nat b powi (int k - int l) = (of_nat b :: rat) ^ k / of_nat b ^ l" for k l
    using b(1) by (subst power_int_diff) simp_all
  have "x < of_nat b ^ fn / of_nat b ^ (fd - 1)"
    unfolding x using rn rd b(1) d n by (intro frac_less) simp_all
  also have "\<dots> = of_nat b powi (int fn - int fd + 1)"
    using powi [of fn "fd - 1"] pos by (simp add: of_nat_diff algebra_simps)
  finally have "x < of_nat b powi (int fn - int fd + 1)" .
  moreover have "of_nat b ^ (fn - 1) / of_nat b ^ fd \<le> x"
    unfolding x using rn rd b(1) d n by (intro frac_le) simp_all
  then have "of_nat b powi (int fn - int fd - 1) \<le> x"
    using powi [of "fn - 1" fd] pos by (simp add: of_nat_diff algebra_simps)
  ultimately show "of_nat b powi exponent_in b x \<le> x" "x < of_nat b powi (exponent_in b x + 1)"
    by (auto simp: exponent_in_def q fn_def fd_def Let_def)
qed

lemma exponent_in_unique:
  assumes "0 < x" "1 < b" "of_nat b powi e \<le> x" "x < of_nat b powi (e + 1)"
  shows "exponent_in b x = e"
proof -
  have "of_nat b powi e < (of_nat b :: rat) powi (exponent_in b x + 1)" "of_nat b powi exponent_in b x < (of_nat b :: rat) powi (e + 1)"
    using exponent_in_bounds [OF assms(1,2)] assms(3,4) by simp_all
  then have "e < exponent_in b x + 1" "exponent_in b x < e + 1"
    using assms(2) power_int_increasing [of "exponent_in b x + 1" e "of_nat b :: rat"]
      power_int_increasing [of "e + 1" "exponent_in b x" "of_nat b :: rat"] by linarith+
  then show ?thesis by simp
qed

lemma round_half_even_near:
  assumes "\<bar>q - of_int m\<bar> < 1 / 2"
  shows "round_half_even q = m"
proof (cases "of_int m \<le> q")
  case True
  with assms have "\<lfloor>q\<rfloor> = m" by (simp add: floor_eq_iff)
  with True assms show ?thesis by (simp add: round_half_even_def)
next
  case False
  with assms have "\<lfloor>q\<rfloor> = m - 1" by (simp add: floor_eq_iff)
  with False assms show ?thesis by (simp add: round_half_even_def Let_def)
qed

lemma round_half_even_int [simp]: "round_half_even (of_int m) = m"
  by (rule round_half_even_near) simp

lemma round_half_even_dist: "\<bar>of_int (round_half_even q) - q\<bar> \<le> 1 / 2"
proof -
  have "of_int \<lfloor>q\<rfloor> \<le> q" "q < of_int \<lfloor>q\<rfloor> + 1" by linarith+
  then show ?thesis unfolding round_half_even_def Let_def by (cases "q - of_int \<lfloor>q\<rfloor> < 1 / 2"; simp add: abs_if; linarith?)
qed

text \<open>Integers below \<open>2 ^ 53\<close> are doubles.\<close>

lemma f64_round_integral:
  assumes "0 < x" "x / 2 powi f64_unit x = of_int m"
  shows "f64_round x = x"
proof -
  have "of_int m * 2 powi f64_unit x = x" using assms(2) by (simp add: divide_eq_eq)
  with assms show ?thesis by (simp add: f64_round_def Let_def)
qed

lemma f64_round_nat:
  assumes "n < 2 ^ 53"
  shows "f64_round (of_nat n) = of_nat n"
proof (cases "n = 0")
  case False
  define e where "e = exponent_in 2 (of_nat n)"
  have b: "2 powi e \<le> (of_nat n :: rat)" "(of_nat n :: rat) < 2 powi (e + 1)"
    using exponent_in_bounds [of "of_nat n" 2] False by (simp_all add: e_def)
  have "(of_nat n :: rat) < 2 ^ 53" using assms by (metis of_nat_less_iff of_nat_numeral of_nat_power)
  with b(1) have "(2 :: rat) powi e < 2 powi 53" by simp
  then have e: "e \<le> 52" using power_int_increasing [of 53 e "2 :: rat"] by linarith
  have "(1 :: rat) \<le> of_nat n" using False by simp
  with b(2) have "(2 :: rat) powi 0 < 2 powi (e + 1)" by simp
  then have e0: "0 \<le> e" using power_int_increasing [of "e + 1" 0 "2 :: rat"] by linarith
  have u: "f64_unit (of_nat n) = - int (nat (52 - e))" using e e0 by (simp add: f64_unit_def e_def)
  have "(of_nat n :: rat) / 2 powi f64_unit (of_nat n) = of_int (int n * 2 ^ nat (52 - e))"
    unfolding u power_int_minus power_int_of_nat by (simp add: divide_inverse)
  then show ?thesis by (rule f64_round_integral [rotated]) (use False in simp)
qed (simp add: f64_round_def)

lemma f64_round_minus: "f64_round (- x) = - f64_round x"
  by (simp add: f64_round_def Let_def sgn_minus)

lemma powi_multiple: "l \<le> k \<Longrightarrow> (2 :: rat) powi k = of_int (2 ^ nat (k - l)) * 2 powi l"
  by (metis add_diff_cancel_left' diff_add_cancel diff_ge_0_iff_ge nat_0_le of_int_numeral of_int_power power_int_add power_int_of_nat zero_neq_numeral)

lemma f64_round_within:
  assumes "0 < y" "\<bar>y - of_int m * 2 powi f64_unit y\<bar> < 2 powi f64_unit y / 2"
  shows "f64_round y = of_int m * 2 powi f64_unit y"
proof -
  define u :: rat where "u = 2 powi f64_unit y"
  have "0 < u" by (simp add: u_def)
  with assms(2) have "\<bar>y / u - of_int m\<bar> < 1 / 2" by (simp add: u_def [symmetric] field_simps abs_if split: if_splits)
  then have "round_half_even (y / u) = m" by (rule round_half_even_near)
  with assms(1) show ?thesis by (simp add: f64_round_def Let_def u_def)
qed

lemma scaled_step:
  fixes u :: rat
  assumes "0 < u" "of_int a * u < of_int b * u"
  shows "of_int a * u + u \<le> of_int b * u"
proof -
  have "a + 1 \<le> b" using assms by (simp add: mult_less_cancel_right)
  then have "of_int (a + 1) * u \<le> of_int b * u" using assms(1) by (simp add: mult_le_cancel_right del: of_int_add)
  then show ?thesis by (simp add: distrib_right)
qed

lemma f64_parts:
  assumes "0 < m" "f64_round m = m"
  obtains M where "m = of_int M * 2 powi f64_unit m" "f64_unit m \<le> exponent_in 2 m"
proof -
  define u M where "u = (2 :: rat) powi f64_unit m" and "M = round_half_even (m / u)"
  have u: "0 < u" by (simp add: u_def)
  have m: "m = of_int M * u" using assms by (simp add: f64_round_def Let_def u_def M_def)
  have "0 * u < of_int M * u" using assms(1) by (simp flip: m)
  from scaled_step [OF u, of 0 M] this have "u \<le> m" by (simp flip: m)
  also have "m < 2 powi (exponent_in 2 m + 1)" using exponent_in_bounds(2) [OF assms(1), of 2] by simp
  finally have "(2 :: rat) powi f64_unit m < 2 powi (exponent_in 2 m + 1)" by (simp add: u_def)
  then have "f64_unit m \<le> exponent_in 2 m"
    using power_int_increasing [of "exponent_in 2 m + 1" "f64_unit m" "2 :: rat"] by linarith
  from that [OF m [unfolded u_def] this] show thesis .
qed

lemma relative_bound:
  fixes m :: rat
  assumes "m \<le> 2 powi (v + 53)"
  shows "m / (2 * 10 ^ 16) < 2 powi v / 2"
proof -
  define w where "w = (2 :: rat) powi v"
  have "0 < w" by (simp add: w_def)
  moreover have "m \<le> 2 ^ 53 * w" using assms by (simp add: power_int_add w_def)
  ultimately have "m < 10 ^ 16 * w" by simp
  then show ?thesis by (simp add: w_def [symmetric])
qed

lemma f64_unit_bound:
  assumes "0 < m"
  shows "m / (2 * 10 ^ 16) < 2 powi f64_unit m / 2"
proof (rule relative_bound)
  have "m < 2 powi (exponent_in 2 m + 1)" using exponent_in_bounds(2) [OF assms, of 2] by simp
  also have "(2 :: rat) powi (exponent_in 2 m + 1) \<le> 2 powi (f64_unit m + 53)"
    by (rule power_int_increasing) (simp_all add: f64_unit_def)
  finally show "m \<le> 2 powi (f64_unit m + 53)" by simp
qed

lemma f64_round_close_above:
  assumes m: "0 < m" "f64_round m = m" and y: "\<bar>y - m\<bar> \<le> m / (2 * 10 ^ 16)" "2 powi exponent_in 2 m \<le> y"
  shows "f64_round y = m"
proof -
  define e u where "e = exponent_in 2 m" and "u = (2 :: rat) powi f64_unit m"
  obtain M where M: "m = of_int M * u" and le: "f64_unit m \<le> e" unfolding e_def u_def by (rule f64_parts [OF m])
  have u: "0 < u" by (simp add: u_def)
  have top: "2 powi (e + 1) = of_int (2 ^ nat (e + 1 - f64_unit m)) * u"
    unfolding u_def using le by (intro powi_multiple) simp
  have "m < 2 powi (e + 1)" using exponent_in_bounds(2) [OF m(1), of 2] by (simp add: e_def)
  then have "m + u \<le> 2 powi (e + 1)" unfolding top using scaled_step [OF u, of M] M by metis
  moreover have close: "\<bar>y - m\<bar> < u / 2" using y(1) f64_unit_bound [OF m(1)] by (simp add: u_def)
  ultimately have "y < 2 powi (e + 1)" using u by linarith
  moreover have pos: "0 < y" using y(2) zero_less_power_int [of "2 :: rat" "exponent_in 2 m"] by linarith
  ultimately have "exponent_in 2 y = e" using y(2) by (intro exponent_in_unique) (simp_all add: e_def)
  then have "f64_unit y = f64_unit m" by (simp add: f64_unit_def e_def)
  then show ?thesis using f64_round_within [OF pos, of M] close unfolding u_def [symmetric] by (metis M u_def)
qed

lemma f64_round_close_below:
  assumes m: "0 < m" "f64_round m = m" and y: "\<bar>y - m\<bar> \<le> m / (2 * 10 ^ 16)" "y < 2 powi exponent_in 2 m"
  shows "f64_round y = m"
proof -
  define e u where "e = exponent_in 2 m" and "u = (2 :: rat) powi f64_unit m"
  obtain M where M: "m = of_int M * u" and le: "f64_unit m \<le> e" unfolding e_def u_def by (rule f64_parts [OF m])
  have u: "0 < u" by (simp add: u_def)
  have bottom: "2 powi e = of_int (2 ^ nat (e - f64_unit m)) * u" unfolding u_def using le by (rule powi_multiple)
  have close: "\<bar>y - m\<bar> < u / 2" using y(1) f64_unit_bound [OF m(1)] by (simp add: u_def)
  have "2 powi e \<le> m" using exponent_in_bounds(1) [OF m(1), of 2] by (simp add: e_def)
  moreover have "\<not> 2 powi e < m"
  proof
    assume "2 powi e < m"
    then have "2 powi e + u \<le> m" unfolding bottom using scaled_step [OF u, of _ M] M by metis
    with close y(2) u show False by (simp add: e_def)
  qed
  ultimately have me: "m = 2 powi e" by simp
  have half: "2 powi (e - 1) = m / 2" by (simp add: me power_int_diff)
  have "m / (2 * 10 ^ 16) \<le> m / 2" using m(1) by (simp add: field_simps)
  with y(1) have "m / 2 \<le> y" by linarith
  then have "exponent_in 2 y = e - 1" and pos: "0 < y"
    using y(2) m(1) half by (auto intro!: exponent_in_unique simp: e_def)
  then have v: "f64_unit y = max (e - 53) (- 1074)" by (simp add: f64_unit_def)
  then have "f64_unit y \<le> e" using le by (simp add: f64_unit_def)
  then have mult: "m = of_int (2 ^ nat (e - f64_unit y)) * 2 powi f64_unit y" unfolding me by (rule powi_multiple)
  have "m / (2 * 10 ^ 16) < 2 powi f64_unit y / 2" by (rule relative_bound) (simp add: me v power_int_increasing)
  then show ?thesis using f64_round_within [OF pos, of "2 ^ nat (e - f64_unit y)"] y(1) by (simp only: mult [symmetric])
qed

text \<open>Seventeen digits identify a double: a decimal that close to it reads back to it.\<close>

lemma f64_round_close:
  assumes "0 < m" "f64_round m = m" "\<bar>y - m\<bar> \<le> m / (2 * 10 ^ 16)"
  shows "f64_round y = m"
  using f64_round_close_above [OF assms] f64_round_close_below [OF assms] by fastforce

section \<open>Digits that read back\<close>

lemma nearest_17_reads:
  assumes "0 < m" "f64_round m = m"
  shows "f64_round (decimal (nearest_digits 17 m)) = m"
proof -
  define e where "e = exponent_in 10 m"
  define w where "w = (10 :: rat) powi (e - 16)"
  have w: "0 < w" by (simp add: w_def)
  have "0 \<le> round_half_even (m / w)" using assms(1) w by (simp add: round_half_even_def Let_def)
  then have c: "decimal (nearest_digits 17 m) = of_int (round_half_even (m / w)) * w"
    by (simp add: nearest_digits_def decimal_def Let_def e_def [symmetric] w_def)
  have "\<bar>of_int (round_half_even (m / w)) - m / w\<bar> * w \<le> 1 / 2 * w"
    using round_half_even_dist w by (intro mult_right_mono) simp_all
  moreover have "\<bar>of_int (round_half_even (m / w)) - m / w\<bar> * w = \<bar>of_int (round_half_even (m / w)) * w - m\<bar>"
    using abs_mult_pos [of w "of_int (round_half_even (m / w)) - m / w"] w by (simp add: left_diff_distrib)
  moreover have "w * 10 ^ 16 \<le> m"
    using exponent_in_bounds(1) [OF assms(1), of 10] by (simp add: w_def e_def power_int_diff)
  ultimately have "\<bar>decimal (nearest_digits 17 m) - m\<bar> \<le> m / (2 * 10 ^ 16)" unfolding c by simp
  then show ?thesis by (rule f64_round_close [OF assms])
qed

lemma shortest_at_reads: "shortest_at k m = Some d \<Longrightarrow> f64_round (decimal d) = m"
  by (auto simp: shortest_at_def Let_def split: if_splits)

lemma shortest_reads:
  assumes "0 < m" "f64_round m = m"
  shows "f64_round (decimal (shortest_digits m)) = m"
proof -
  have "f64_round (decimal (shortest_from left k m)) = m" for left k
    by (induction left arbitrary: k)
      (auto simp: nearest_17_reads [OF assms] dest: shortest_at_reads split: option.splits)
  then show ?thesis by (simp add: shortest_digits_def)
qed

lemma ecmascript_reads:
  assumes "0 < m" "f64_round m = m"
  shows "f64_round (decimal (ecmascript_digits m)) = m"
  using shortest_reads [OF assms] by (simp add: ecmascript_digits_def Let_def)

section \<open>Reading a number's text\<close>

definition read_layout :: "string \<Rightarrow> string \<times> int" where
  "read_layout t =
     (if CHR ''e'' \<in> set t
      then let mantissa = takeWhile (\<lambda>c. c \<noteq> CHR ''e'') t;
               rest = tl (dropWhile (\<lambda>c. c \<noteq> CHR ''e'') t);
               n = int (digits_value 10 (tl rest))
           in (filter (\<lambda>c. c \<noteq> CHR ''.'') mantissa, (if hd rest = CHR ''-'' then - n else n) + 1)
      else if CHR ''.'' \<in> set t
      then let whole = takeWhile (\<lambda>c. c \<noteq> CHR ''.'') t;
               fraction = tl (dropWhile (\<lambda>c. c \<noteq> CHR ''.'') t)
           in if whole = ''0''
              then (dropWhile (\<lambda>c. c = CHR ''0'') fraction, - int (length (takeWhile (\<lambda>c. c = CHR ''0'') fraction)))
              else (whole @ fraction, int (length whole))
      else (trim_zeros t, int (length t)))"

definition layout_value :: "string \<Rightarrow> rat" where
  "layout_value t =
     (let (d, n) = read_layout t in of_nat (digits_value 10 d) * 10 powi (n - int (length d)))"

definition text_value :: "string \<Rightarrow> rat" where
  "text_value t = (if t \<noteq> [] \<and> hd t = CHR ''-'' then - layout_value (tl t) else layout_value t)"

definition plain_digits :: "string \<Rightarrow> bool" where
  "plain_digits d = (d \<noteq> [] \<and> list_all is_ascii_digit d \<and> hd d \<noteq> CHR ''0'' \<and> last d \<noteq> CHR ''0'')"

lemma digits_avoid: "list_all is_ascii_digit d \<Longrightarrow> CHR ''e'' \<notin> set d \<and> CHR ''.'' \<notin> set d \<and> CHR ''-'' \<notin> set d"
proof -
  assume "list_all is_ascii_digit d"
  moreover have "\<not> is_ascii_digit (CHR ''e'')" "\<not> is_ascii_digit (CHR ''.'')" "\<not> is_ascii_digit (CHR ''-'')" by code_simp+
  ultimately show ?thesis by (auto simp: list_all_iff)
qed

lemma first_occurrence:
  "x \<notin> set a \<Longrightarrow> takeWhile (\<lambda>c. c \<noteq> x) (a @ x # b) = a"
  "x \<notin> set a \<Longrightarrow> dropWhile (\<lambda>c. c \<noteq> x) (a @ x # b) = x # b"
  by (induction a) auto

lemma is_digit_0 [simp]: "is_ascii_digit (CHR ''0'')"
  by code_simp

lemma read_layout_whole:
  assumes "plain_digits d" "int (length d) \<le> n"
  shows "read_layout (d @ replicate (nat (n - int (length d))) (CHR ''0'')) = (d, n)"
  using assms digits_avoid [of d] by (auto simp: read_layout_def plain_digits_def trim_zeros_snoc_zeros)

lemma read_layout_point:
  assumes "plain_digits d" "0 < n" "n < int (length d)"
  shows "read_layout (take (nat n) d @ CHR ''.'' # drop (nat n) d) = (d, n)"
proof -
  define a b where "a = take (nat n) d" and "b = drop (nat n) d"
  have d: "d = a @ b" "int (length a) = n" using assms by (simp_all add: a_def b_def)
  have avoid: "CHR ''e'' \<notin> set a" "CHR ''e'' \<notin> set b" "CHR ''.'' \<notin> set a"
    using assms(1) digits_avoid [of d] by (auto simp: plain_digits_def d)
  have "a \<noteq> ''0''" using assms by (auto simp: plain_digits_def d)
  with avoid d show ?thesis
    unfolding a_def [symmetric] b_def [symmetric] by (simp add: read_layout_def Let_def first_occurrence)
qed

lemma read_layout_small:
  assumes "plain_digits d" "n \<le> 0"
  shows "read_layout (''0.'' @ replicate (nat (- n)) (CHR ''0'') @ d) = (d, n)"
proof -
  have avoid: "CHR ''e'' \<notin> set d" using assms digits_avoid [of d] by (auto simp: plain_digits_def)
  have "takeWhile (\<lambda>c. c = CHR ''0'') (replicate k (CHR ''0'') @ d) = replicate k (CHR ''0'')"
    "dropWhile (\<lambda>c. c = CHR ''0'') (replicate k (CHR ''0'') @ d) = d" for k
    using assms(1) by (induction k; cases d; simp add: plain_digits_def)+
  with avoid assms(2) show ?thesis by (auto simp: read_layout_def Let_def)
qed

lemma read_layout_exponent:
  assumes "plain_digits d" "n > 21 \<or> n \<le> - 6"
  shows "read_layout (take 1 d @ (if drop 1 d \<noteq> [] then CHR ''.'' # drop 1 d else [])
           @ [CHR ''e'', if n > 0 then CHR ''+'' else CHR ''-''] @ dec_of_nat (nat \<bar>n - 1\<bar>)) = (d, n)"
proof -
  obtain c r where d: "d = c # r" using assms(1) by (cases d) (auto simp: plain_digits_def)
  define a where "a = take 1 d @ (if drop 1 d \<noteq> [] then CHR ''.'' # drop 1 d else [])"
  have avoid: "CHR ''e'' \<notin> set d" "CHR ''.'' \<notin> set d" using assms digits_avoid [of d] by (auto simp: plain_digits_def)
  have "filter (\<lambda>x. x \<noteq> CHR ''.'') r = r" using avoid by (intro filter_True) (auto simp: d)
  with avoid have "filter (\<lambda>x. x \<noteq> CHR ''.'') a = d" "CHR ''e'' \<notin> set a" by (auto simp: a_def d)
  then have "read_layout (a @ CHR ''e'' # s # dec_of_nat k)
      = (d, (if s = CHR ''-'' then - int k else int k) + 1)" for s k
    by (simp add: read_layout_def Let_def first_occurrence)
  from this [of "if n > 0 then CHR ''+'' else CHR ''-''" "nat \<bar>n - 1\<bar>"] assms(2) show ?thesis
    by (auto simp: a_def)
qed

lemma read_number_layout: "plain_digits d \<Longrightarrow> read_layout (number_layout d n) = (d, n)"
  using read_layout_whole [of d n] read_layout_point [of d n] read_layout_small [of d n] read_layout_exponent [of d n]
  unfolding number_layout_def Let_def by (cases "n \<le> 0"; cases "int (length d) \<le> n"; cases "n \<le> 21"; cases "- 6 < n"; simp)

section \<open>A number's text denotes its value\<close>

lemma trimmed_value:
  "of_nat (digits_value 10 (trim_zeros s)) * 10 powi (n - int (length (trim_zeros s)))
     = (of_nat (digits_value 10 s) * 10 powi (n - int (length s)) :: rat)"
proof -
  obtain k where k: "s = trim_zeros s @ replicate k (CHR ''0'')" using trim_zeros_append by blast
  define t where "t = trim_zeros s"
  have "digits_value 10 s = digits_value 10 t * 10 ^ k" "length s = length t + k"
    by (subst k, simp add: digits_value_append t_def)+
  then show ?thesis unfolding t_def [symmetric] by (simp add: power_int_diff power_int_add field_simps)
qed

lemma plain_trim:
  assumes "0 < c"
  shows "plain_digits (trim_zeros (dec_of_nat c))"
proof -
  obtain k where k: "dec_of_nat c = trim_zeros (dec_of_nat c) @ replicate k (CHR ''0'')" using trim_zeros_append by blast
  have "trim_zeros (dec_of_nat c) \<noteq> []"
  proof
    assume "trim_zeros (dec_of_nat c) = []"
    then have "digits_value 10 (dec_of_nat c) = 0" using k by (metis append_Nil digits_value_zeros)
    with assms show False by simp
  qed
  moreover have "list_all is_ascii_digit (trim_zeros (dec_of_nat c))"
    using dec_of_nat_digits [of c] k by (metis list_all_append)
  moreover have "hd (trim_zeros (dec_of_nat c)) \<noteq> CHR ''0''"
    using dec_of_nat_hd [OF assms] k calculation(1) by (metis hd_append2)
  ultimately show ?thesis by (simp add: plain_digits_def trim_zeros_last)
qed

lemma layout_value_number:
  assumes "0 < c"
  shows "layout_value (number_layout (trim_zeros (dec_of_nat c)) (q + int (length (dec_of_nat c)))) = decimal (c, q)"
  using trimmed_value [of "dec_of_nat c" "q + int (length (dec_of_nat c))"]
  by (simp add: layout_value_def read_number_layout [OF plain_trim [OF assms]] decimal_def)

lemma layout_value_dec: "layout_value (dec_of_nat n) = of_nat n"
  using trimmed_value [of "dec_of_nat n" "int (length (dec_of_nat n))"] digits_avoid [OF dec_of_nat_digits [of n]]
  by (simp add: layout_value_def read_layout_def)

definition number_char :: "char \<Rightarrow> bool" where
  "number_char c = (is_ascii_digit c \<or> c \<in> {CHR ''-'', CHR ''+'', CHR ''.'', CHR ''e''})"

lemma digits_number_chars: "list_all is_ascii_digit d \<Longrightarrow> list_all number_char d"
  by (auto simp: list_all_iff number_char_def)

lemma number_layout_chars:
  assumes "plain_digits d"
  shows "number_layout d n \<noteq> [] \<and> is_ascii_digit (hd (number_layout d n)) \<and> list_all number_char (number_layout d n)"
proof -
  obtain c r where d: "d = c # r" using assms by (cases d) (auto simp: plain_digits_def)
  have digits: "list_all is_ascii_digit d" "is_ascii_digit c" using assms by (auto simp: plain_digits_def d)
  have "list_all number_char (take k r)" "list_all number_char (drop k r)" for k
    using digits_number_chars [OF digits(1)] by (auto simp: d list_all_iff dest: in_set_takeD in_set_dropD)
  moreover have "list_all number_char (replicate k (CHR ''0''))" "list_all number_char (dec_of_nat k)" for k
    using digits_number_chars [OF dec_of_nat_digits] by (auto simp: list_all_iff number_char_def)
  moreover have "number_char (CHR ''0'')" "number_char (CHR ''.'')" "number_char (CHR ''e'')" "number_char (CHR ''+'')"
    "number_char (CHR ''-'')" by (simp_all add: number_char_def)
  ultimately show ?thesis using digits digits_number_chars [OF digits(1)]
    unfolding number_layout_def Let_def by (cases "nat n") (auto simp: d hd_append)
qed

lemma ecmascript_number_text:
  assumes "x \<noteq> 0" "f64_round x = x"
  obtains c q where "0 < c" "f64_round (decimal (c, q)) = \<bar>x\<bar>" "ecmascript_digits \<bar>x\<bar> = (c, q)"
    "ecmascript_number x = Inr ((if x < 0 then ''-'' else [])
       @ number_layout (trim_zeros (dec_of_nat c)) (q + int (length (dec_of_nat c))))"
proof -
  obtain c q where cq: "ecmascript_digits \<bar>x\<bar> = (c, q)" by fastforce
  have "f64_round \<bar>x\<bar> = \<bar>x\<bar>" using assms(2) by (simp add: abs_if f64_round_minus)
  with ecmascript_reads [of "\<bar>x\<bar>"] assms(1) cq have reads: "f64_round (decimal (c, q)) = \<bar>x\<bar>" by simp
  have c: "0 < c" using reads assms(1) by (cases c) (auto simp: decimal_def f64_round_def)
  have "trim_zeros (dec_of_nat c) \<noteq> []" using plain_trim [OF c] by (simp add: plain_digits_def)
  with that [OF c reads cq] show thesis using assms(1) by (simp add: ecmascript_number_def cq Let_def)
qed

lemma not_minus_digit: "is_ascii_digit c \<Longrightarrow> c \<noteq> CHR ''-''"
  using digits_avoid [of "[c]"] by auto

lemma ecmascript_number_value:
  assumes "ecmascript_number x = Inr s" "f64_round x = x"
  shows "f64_round (text_value s) = x"
proof (cases "x = 0")
  case True
  have "layout_value (dec_of_nat 0) = 0" by (simp add: layout_value_dec)
  moreover have "dec_of_nat 0 = ''0''" by code_simp
  ultimately have "text_value ''0'' = 0" by (simp add: text_value_def)
  then show ?thesis using assms(1) True by (auto simp: ecmascript_number_def f64_round_def)
next
  case False
  from ecmascript_number_text [OF False assms(2)] obtain c q where c: "0 < c" "f64_round (decimal (c, q)) = \<bar>x\<bar>"
    "s = (if x < 0 then ''-'' else []) @ number_layout (trim_zeros (dec_of_nat c)) (q + int (length (dec_of_nat c)))"
    using assms(1) by (metis sum.inject(2))
  have "text_value s = (if x < 0 then - decimal (c, q) else decimal (c, q))"
    using number_layout_chars [OF plain_trim [OF c(1)]] layout_value_number [OF c(1)]
    by (auto simp: text_value_def c(3) dest: not_minus_digit)
  with c(2) show ?thesis by (simp add: f64_round_minus)
qed

section \<open>An integral double is written as its integer\<close>

lemma exponent_in_dec:
  assumes "0 < n"
  shows "exponent_in 10 (of_nat n) = int (length (dec_of_nat n)) - 1"
proof (rule exponent_in_unique)
  obtain l where l: "length (dec_of_nat n) = Suc l" using dec_of_nat_not_Nil by (metis length_greater_0_conv gr0_implies_Suc)
  have "10 ^ l \<le> n" "n < 10 ^ Suc l" using dec_of_nat_length [OF assms] by (simp_all add: l)
  then have "of_nat (10 ^ l) \<le> (of_nat n :: rat)" "(of_nat n :: rat) < of_nat (10 ^ Suc l)"
    by (simp_all only: of_nat_le_iff of_nat_less_iff)
  then show "of_nat 10 powi (int (length (dec_of_nat n)) - 1) \<le> (of_nat n :: rat)"
    "(of_nat n :: rat) < of_nat 10 powi (int (length (dec_of_nat n)) - 1 + 1)"
    by (simp_all add: l power_int_add)
qed (use assms in simp_all)

lemma dec_of_nat_shift: "0 < c \<Longrightarrow> dec_of_nat (c * 10 ^ k) = dec_of_nat c @ replicate k (CHR ''0'')"
proof (induction k)
  case (Suc k)
  have zero: "char_of (48 :: nat) = CHR ''0''" by code_simp
  have "\<not> c * 10 ^ Suc k < 10" using Suc.prems by simp
  then have "dec_of_nat (c * 10 ^ Suc k) = dec_of_nat (c * 10 ^ k) @ [CHR ''0'']"
    by (subst dec_of_nat.simps) (simp add: zero)
  then show ?case using Suc by (simp add: replicate_append_same)
qed simp

lemma f64_round_ge:
  assumes "2 ^ 53 \<le> y"
  shows "2 ^ 53 \<le> f64_round y"
proof -
  define e where "e = exponent_in 2 y"
  have "(2 :: rat) ^ 53 > 0" by simp
  with assms have pos: "0 < y" by linarith
  have b: "2 powi e \<le> y" "y < 2 powi (e + 1)" using exponent_in_bounds [OF pos, of 2] by (simp_all add: e_def)
  have "(2 :: rat) powi 53 < 2 powi (e + 1)" using assms b(2) by simp
  then have e: "53 \<le> e" using power_int_increasing [of "e + 1" 53 "2 :: rat"] by linarith
  then have u: "f64_unit y = e - 52" by (simp add: f64_unit_def e_def)
  have "of_int (2 ^ 52) \<le> y / 2 powi (e - 52)" using b(1) by (simp add: power_int_diff field_simps)
  then have "2 ^ 52 \<le> \<lfloor>y / 2 powi (e - 52)\<rfloor>" by (simp only: le_floor_iff)
  then have "2 ^ 52 \<le> round_half_even (y / 2 powi (e - 52))" by (simp add: round_half_even_def Let_def)
  then have "of_int (2 ^ 52) \<le> (of_int (round_half_even (y / 2 powi (e - 52))) :: rat)" by (simp only: of_int_le_iff)
  then have "of_int (2 ^ 52) * 2 powi (e - 52) \<le> of_int (round_half_even (y / 2 powi (e - 52))) * (2 :: rat) powi (e - 52)"
    by (rule mult_right_mono) simp
  moreover have "of_int (2 ^ 52) * (2 :: rat) powi (e - 52) = 2 powi e" by (simp add: power_int_diff)
  moreover have "(2 :: rat) powi 53 \<le> 2 powi e" using e by (rule power_int_increasing) simp
  ultimately have "(2 :: rat) powi 53 \<le> of_int (round_half_even (y / 2 powi (e - 52))) * 2 powi (e - 52)" by linarith
  then show ?thesis using pos by (simp add: f64_round_def Let_def u)
qed

lemma integral_reads:
  assumes "f64_round (decimal (c, q)) = of_nat n" "0 \<le> q" "n < 2 ^ 53"
  shows "c * 10 ^ nat q = n"
proof -
  define y where "y = c * 10 ^ nat q"
  have "10 powi q = (10 :: rat) ^ nat q" using assms(2) by (metis nat_0_le power_int_of_nat)
  then have y: "decimal (c, q) = of_nat y" by (simp add: decimal_def y_def)
  have "y < 2 ^ 53"
  proof (rule ccontr)
    assume "\<not> y < 2 ^ 53"
    then have "of_nat (2 ^ 53) \<le> (of_nat y :: rat)" by (simp only: of_nat_le_iff not_less)
    then have "of_nat (2 ^ 53) \<le> (of_nat n :: rat)" using f64_round_ge [of "of_nat y"] assms(1) y by simp
    then show False using assms(3) by (simp only: of_nat_le_iff)
  qed
  then have "(of_nat y :: rat) = of_nat n" using assms(1) y f64_round_nat [of y] by simp
  then show ?thesis by (simp only: of_nat_eq_iff y_def)
qed

lemma shortest_at_exponent: "shortest_at k m = Some (c, q) \<Longrightarrow> q = exponent_in 10 m - int k + 1"
  by (auto simp: shortest_at_def Let_def split: if_splits)

lemma shortest_from_hit:
  assumes "shortest_at k0 m \<noteq> None" "k \<le> k0" "k0 < k + left"
  shows "\<exists>k' \<le> k0. shortest_at k' m = Some (shortest_from left k m)"
  using assms(2,3)
proof (induction left arbitrary: k)
  case (Suc left)
  show ?case
  proof (cases "shortest_at k m")
    case None
    then have "k \<noteq> k0" using assms(1) by auto
    with None Suc show ?thesis by simp
  qed (use Suc.prems in auto)
qed simp

lemma shortest_at_exact:
  assumes "0 < n" "n < 2 ^ 53"
  shows "shortest_at (length (dec_of_nat n)) (of_nat n) \<noteq> None"
  using assms f64_round_nat [of n] by (simp add: shortest_at_def exponent_in_dec Let_def decimal_def)

lemma dec_of_nat_short: "0 < n \<Longrightarrow> n < 2 ^ 53 \<Longrightarrow> length (dec_of_nat n) \<le> 16"
proof -
  assume n: "0 < n" "n < 2 ^ 53"
  then have "10 ^ (length (dec_of_nat n) - 1) < (10 :: nat) ^ 16" using dec_of_nat_length [of n] by simp
  then have "length (dec_of_nat n) - 1 < 16" by (rule power_less_imp_less_exp [rotated]) simp
  then show ?thesis by simp
qed

lemma ecmascript_digits_nat:
  assumes n: "0 < n" "n < 2 ^ 53"
  obtains c q where "ecmascript_digits (of_nat n) = (c, int q)" "c * 10 ^ q = n"
proof -
  define m L where "m = (of_nat n :: rat)" and "L = length (dec_of_nat n)"
  have e: "exponent_in 10 m = int L - 1" using exponent_in_dec [OF n(1)] by (simp add: m_def L_def)
  have m: "0 < m" "f64_round m = m" using n f64_round_nat [OF n(2)] by (simp_all add: m_def)
  have whole: "c * 10 ^ nat q = n" if "f64_round (decimal (c, q)) = m" "0 \<le> q" for c q
    using integral_reads [of c q n] that n(2) by (simp add: m_def)
  obtain c q where s: "shortest_digits m = (c, q)" by fastforce
  have "\<exists>k' \<le> L. shortest_at k' m = Some (shortest_digits m)"
    unfolding shortest_digits_def using shortest_at_exact [OF n] dec_of_nat_short [OF n]
    by (intro shortest_from_hit) (simp_all add: m_def L_def Suc_le_eq)
  then obtain k' where "k' \<le> L" "shortest_at k' m = Some (c, q)" by (auto simp: s)
  then have q: "0 \<le> q" using shortest_at_exponent e by fastforce
  then have c: "c * 10 ^ nat q = n" using whole shortest_reads [OF m] s by simp
  then have "0 < c" using n(1) by (cases c) auto
  then have "dec_of_nat n = dec_of_nat c @ replicate (nat q) (CHR ''0'')" using dec_of_nat_shift [of c "nat q"] c by simp
  then have "length (trim_zeros (dec_of_nat c)) \<le> L"
    using trim_zeros_append [of "dec_of_nat c"] by (metis L_def length_append le_add1 le_trans)
  then have "0 \<le> snd (nearest_digits (length (trim_zeros (dec_of_nat c))) m)" by (simp add: nearest_digits_def Let_def e)
  with q have q': "0 \<le> snd (ecmascript_digits m)" by (simp add: ecmascript_digits_def Let_def s)
  obtain c' q' where cq: "ecmascript_digits m = (c', q')" by fastforce
  have "c' * 10 ^ nat q' = n" using whole ecmascript_reads [OF m] cq q' by simp
  with that [of c' "nat q'"] show thesis using cq q' by (simp add: m_def)
qed

lemma ecmascript_number_nat:
  assumes "0 < n" "n < 2 ^ 53"
  shows "ecmascript_number (of_nat n) = Inr (dec_of_nat n)" "ecmascript_number (- of_nat n) = Inr (CHR ''-'' # dec_of_nat n)"
proof -
  obtain c q where cq: "ecmascript_digits (of_nat n) = (c, int q)" "c * 10 ^ q = n" by (rule ecmascript_digits_nat [OF assms])
  have c: "0 < c" using cq(2) assms(1) by (cases c) auto
  define d where "d = trim_zeros (dec_of_nat c)"
  have plain: "plain_digits d" unfolding d_def by (rule plain_trim [OF c])
  obtain k where k: "dec_of_nat c = d @ replicate k (CHR ''0'')" using trim_zeros_append unfolding d_def by blast
  have dec: "dec_of_nat n = dec_of_nat c @ replicate q (CHR ''0'')" using dec_of_nat_shift [OF c, of q] cq(2) by simp
  have "number_layout d (int q + int (length (dec_of_nat c))) = d @ replicate (k + q) (CHR ''0'')"
    using dec_of_nat_short [OF assms] unfolding dec k by (simp add: number_layout_def Let_def nat_int_add add.commute)
  also have "\<dots> = dec_of_nat n" unfolding dec k by (simp add: replicate_add)
  finally show "ecmascript_number (of_nat n) = Inr (dec_of_nat n)"
    "ecmascript_number (- of_nat n) = Inr (CHR ''-'' # dec_of_nat n)"
    using assms(1) plain cq(1) by (simp_all add: ecmascript_number_def d_def plain_digits_def)
qed

section \<open>Written numbers\<close>

text \<open>The reader gives doubles, as \<open>f64\<close> values are.\<close>

definition reads_doubles :: "(string \<Rightarrow> rat option) \<Rightarrow> bool" where
  "reads_doubles as_f64 = (\<forall>number x. as_f64 number = Some x \<longrightarrow> f64_round x = x)"

lemma integer_text_ecmascript:
  assumes "integer_text negative n = Inr s"
  shows "ecmascript_number (if negative then - of_nat n else of_nat n) = Inr s \<and> n < 2 ^ 53"
proof -
  have n: "n < 2 ^ 53" using assms by (auto simp: integer_text_def MAX_SAFE_INTEGER_def split: if_splits)
  moreover have "dec_of_nat 0 = ''0''" by code_simp
  ultimately show ?thesis using assms ecmascript_number_nat [OF _ n]
    by (cases "n = 0") (auto simp: integer_text_def ecmascript_number_def split: if_splits)
qed

text \<open>A token is written as its value is; so tokens have one text exactly if they have one value.\<close>

lemma write_number_value:
  assumes "write_number as_f64 number = Inr s" "reads_doubles as_f64"
  obtains x where "number_value as_f64 number = Some x" "ecmascript_number x = Inr s" "f64_round x = x"
proof -
  have int: "f64_round (if negative then - of_nat n else of_nat n) = (if negative then - of_nat n else of_nat n)"
    if "n < 2 ^ 53" for negative n using f64_round_nat [OF that] by (simp add: f64_round_minus)
  show thesis
  proof (cases "parse_unsigned (2 ^ 64) number")
    case (Some n)
    with assms(1) have "integer_text False n = Inr s" by (simp add: write_number_def)
    from integer_text_ecmascript [OF this] int [of n False] that Some show ?thesis by (simp add: number_value_def)
  next
    case None
    note unsigned = this
    show ?thesis
    proof (cases "parse_negative number")
      case (Some n)
      with assms(1) unsigned have "integer_text True n = Inr s" by (simp add: write_number_def)
      from integer_text_ecmascript [OF this] int [of n True] that Some unsigned show ?thesis by (simp add: number_value_def)
    next
      case None
      with assms unsigned that show ?thesis
        by (auto simp: write_number_def number_value_def reads_doubles_def split: option.splits if_splits)
    qed
  qed
qed

lemma ecmascript_number_chars:
  assumes "ecmascript_number x = Inr s" "f64_round x = x"
  shows "s \<noteq> [] \<and> (is_ascii_digit (hd s) \<or> hd s = CHR ''-'') \<and> list_all number_char s"
proof (cases "x = 0")
  case True
  then show ?thesis using assms(1) by (auto simp: ecmascript_number_def number_char_def)
next
  case False
  from ecmascript_number_text [OF False assms(2)] obtain c q where "0 < c"
    "s = (if x < 0 then ''-'' else []) @ number_layout (trim_zeros (dec_of_nat c)) (q + int (length (dec_of_nat c)))"
    using assms(1) by (metis sum.inject(2))
  then show ?thesis using number_layout_chars [OF plain_trim] by (auto simp: number_char_def)
qed

end
