(* ===== verification/Rate_Properties.thy ===== *)
theory Rate_Properties
  imports Rate_Limit Binding_Properties Number_Text
begin

text \<open>
  What the rate limiter promises: the bound of its store and the range of every bucket, the reference definition
  of its eviction, that a caller's answers depend on that caller's own history only and are those of the isolated
  bucket a simulation runs, the exact size of a burst, that distinct principals have distinct keys, and that the
  policy stage charges the bucket of the first override that governs the request.
\<close>

section \<open>Sequences of requests\<close>

fun run_requests :: "('r \<Rightarrow> 's \<Rightarrow> bool \<times> 's) \<Rightarrow> 'r list \<Rightarrow> 's \<Rightarrow> bool list \<times> 's" where
  "run_requests check [] s = ([], s)"
| "run_requests check (r # rs) s =
     (case check r s of (allowed, s') \<Rightarrow> apfst ((#) allowed) (run_requests check rs s'))"

definition limiter_run ::
    "rounding \<Rightarrow> (string \<Rightarrow> 64 word) \<Rightarrow> (string \<times> nat) list \<Rightarrow> RateLimiter \<Rightarrow> bool list \<times> RateLimiter" where
  "limiter_run rnd hash_of = run_requests (\<lambda>(key, now). RateLimiter_check_at rnd hash_of key now)"

definition isolated_run :: "rounding \<Rightarrow> nat list \<Rightarrow> IsolatedBucket \<Rightarrow> bool list" where
  "isolated_run rnd ts b = fst (run_requests (IsolatedBucket_check_at rnd) ts b)"

lemma length_run_requests [simp]: "length (fst (run_requests check rs s)) = length rs"
  by (induction rs arbitrary: s) (auto split: prod.splits)

section \<open>Eviction\<close>

lemma store_ok_finite: "store_ok st \<Longrightarrow> finite (dom (bs_map st))"
  by (metis List.finite_set store_ok_def)

lemma second_chance_ok:
  assumes "store_ok st" "bs_hand st \<noteq> []"
  shows "store_ok (second_chance now st)"
    and "card (dom (bs_map (second_chance now st))) = card (dom (bs_map st)) - 1"
    and "bs_capacity (second_chance now st) = bs_capacity st"
proof -
  define before where "before = takeWhile (\<lambda>k. \<not> evictable now st k) (bs_hand st)"
  define remaining where "remaining = dropWhile (\<lambda>k. \<not> evictable now st k) (bs_hand st)"
  have sc: "second_chance now st =
      (if remaining = []
       then st\<lparr>bs_map := (reprieve before (bs_map st))(hd before := None), bs_hand := tl before\<rparr>
       else st\<lparr>bs_map := (reprieve before (bs_map st))(hd remaining := None), bs_hand := tl remaining @ before\<rparr>)"
    by (simp only: second_chance_def before_def remaining_def Let_def)
  have hand: "bs_hand st = before @ remaining" by (simp add: before_def remaining_def)
  have dom_r: "dom (reprieve ks m) = dom m" for ks and m :: "64 word \<rightharpoonup> TokenBucket"
    by (auto simp: reprieve_def split: if_splits)
  have d: "distinct (before @ remaining)" "set before \<union> set remaining = dom (bs_map st)"
    using assms(1) unfolding store_ok_def hand by auto
  obtain victim ks where v: "second_chance now st =
      st\<lparr>bs_map := (reprieve before (bs_map st))(victim := None), bs_hand := ks\<rparr>"
    "distinct (victim # ks)" "set (victim # ks) = dom (bs_map st)"
  proof (cases remaining)
    case Nil
    then show thesis using that [of "tl before" "hd before"] d assms(2) hand
      by (cases before) (simp_all add: sc)
  next
    case (Cons victim rest)
    then show thesis using that [of "rest @ before" victim] d
      by (auto simp: sc)
  qed
  then show "store_ok (second_chance now st)" by (auto simp: store_ok_def dom_r)
  show "card (dom (bs_map (second_chance now st))) = card (dom (bs_map st)) - 1"
  proof -
    have "victim \<in> dom (bs_map st)" using v(3) by auto
    then show ?thesis by (simp add: v(1) dom_r card_Diff_singleton)
  qed
  show "bs_capacity (second_chance now st) = bs_capacity st" by (simp add: v(1))
qed


text \<open>Three buckets, of which the first was used again, the second was not and the third is idle.\<close>

definition sample_store :: BucketStore where
  "sample_store =
     \<lparr>bs_map = [1 \<mapsto> \<lparr>bk_tokens = Finite 0, bk_last_refill = 50, bk_referenced = True\<rparr>,
                2 \<mapsto> \<lparr>bk_tokens = Finite 0, bk_last_refill = 55, bk_referenced = False\<rparr>,
                3 \<mapsto> \<lparr>bk_tokens = Finite 0, bk_last_refill = 0, bk_referenced = True\<rparr>],
      bs_hand = [1, 2, 3], bs_capacity = 3, bs_idle_ttl = 30\<rparr>"

lemma sample_store_ok: "store_ok sample_store"
  by (auto simp: store_ok_def sample_store_def)

lemma sample_second_chance:
  "bs_hand (second_chance 60 sample_store) = [3, 1]" "bs_map (second_chance 60 sample_store) 2 = None"
  "bs_map (second_chance 60 sample_store) 3 \<noteq> None" "bs_hand sample_store \<noteq> []"
  by (simp_all add: second_chance_def sample_store_def evictable_def reprieve_def)


text \<open>An idle bucket does not go before an unused one that precedes it in the scan.\<close>

lemma idle_bucket_not_first:
  "60 - bk_last_refill (the (bs_map sample_store 3)) \<ge> bs_idle_ttl sample_store
   \<and> 60 - bk_last_refill (the (bs_map sample_store 2)) < bs_idle_ttl sample_store
   \<and> bs_map (evict_one 60 sample_store) 3 \<noteq> None \<and> bs_map (evict_one 60 sample_store) 2 = None"
  unfolding evict_one_is_second_chance [OF sample_store_ok sample_second_chance(4)]
  using sample_second_chance(2,3) by (simp add: sample_store_def)

section \<open>The range of a bucket\<close>

lemma rounding_nat: "ieee_rounding rnd \<Longrightarrow> n < 2 ^ 53 \<Longrightarrow> rnd (of_nat n) = Finite (of_nat n)"
  unfolding ieee_rounding_def by blast

lemma rounding_0: "ieee_rounding rnd \<Longrightarrow> rnd 0 = Finite 0"
  using rounding_nat [of rnd 0] by simp

lemma rounding_nonneg:
  assumes "ieee_rounding rnd" "0 \<le> x"
  shows "(\<exists>r \<ge> 0. rnd x = Finite r) \<or> rnd x = Infinite False"
proof -
  have "f64_le (rnd 0) (rnd x)" using assms unfolding ieee_rounding_def by blast
  then show ?thesis using rounding_0 [OF assms(1)] by (cases "rnd x") auto
qed

lemma rounding_bounded:
  assumes "ieee_rounding rnd" "0 \<le> x" "x \<le> of_nat b" "b < 2 ^ 53"
  shows "\<exists>r. rnd x = Finite r \<and> 0 \<le> r \<and> r \<le> of_nat b"
proof -
  have "f64_le (rnd x) (rnd (of_nat b))" using assms(1,3) unfolding ieee_rounding_def by blast
  then show ?thesis using rounding_nonneg [OF assms(1,2)] rounding_nat [OF assms(1,4)] by auto
qed

lemma as_secs_nonneg:
  assumes "ieee_rounding rnd"
  shows "(\<exists>e \<ge> 0. as_secs_f64 rnd d = Finite e) \<or> as_secs_f64 rnd d = Infinite False"
proof -
  have "(\<exists>r \<ge> 0. rnd (of_nat (d div 10 ^ 9)) = Finite r) \<or> rnd (of_nat (d div 10 ^ 9)) = Infinite False"
    "(\<exists>r \<ge> 0. rnd (of_nat (d mod 10 ^ 9) / 10 ^ 9) = Finite r) \<or> rnd (of_nat (d mod 10 ^ 9) / 10 ^ 9) = Infinite False"
    by (rule rounding_nonneg [OF assms]; simp)+
  then show ?thesis unfolding as_secs_f64_def by (auto dest: rounding_nonneg [OF assms, OF add_nonneg_nonneg])
qed

definition token_range :: "nat \<Rightarrow> f64 \<Rightarrow> bool" where
  "token_range burst tokens = (case tokens of Finite t \<Rightarrow> 0 \<le> t \<and> t \<le> of_nat burst | _ \<Rightarrow> False)"

lemma token_range_iff: "token_range burst tokens \<longleftrightarrow> (\<exists>t. tokens = Finite t \<and> 0 \<le> t \<and> t \<le> of_nat burst)"
  by (auto simp: token_range_def split: f64.splits)

lemma f64_min_range:
  assumes "(\<exists>x \<ge> 0. v = Finite x) \<or> v = Infinite False \<or> v = NotANumber"
  shows "token_range burst (f64_min v (Finite (of_nat burst)))"
  using assms by (auto simp: f64_min_def token_range_def)

lemma spend_token_range:
  assumes rnd: "ieee_rounding rnd" and range: "token_range burst tokens" and b: "burst < 2 ^ 53"
    and e: "(\<exists>e \<ge> 0. elapsed = Finite e) \<or> elapsed = Infinite False" and r: "0 \<le> r"
  shows "token_range burst (snd (spend_token rnd tokens elapsed (Finite r) (Finite (of_nat burst))))"
proof -
  have prod: "(\<exists>p \<ge> 0. f64_mul rnd elapsed (Finite r) = Finite p) \<or> f64_mul rnd elapsed (Finite r) = Infinite False
      \<or> f64_mul rnd elapsed (Finite r) = NotANumber"
  proof (cases "elapsed = Infinite False")
    case False
    with e obtain x where "x \<ge> 0" "elapsed = Finite x" by auto
    then show ?thesis using rounding_nonneg [OF rnd, of "x * r"] r by auto
  qed (use r in auto)
  have sum: "(\<exists>x \<ge> 0. f64_add rnd tokens (f64_mul rnd elapsed (Finite r)) = Finite x)
      \<or> f64_add rnd tokens (f64_mul rnd elapsed (Finite r)) = Infinite False
      \<or> f64_add rnd tokens (f64_mul rnd elapsed (Finite r)) = NotANumber"
    using prod range by (auto simp: token_range_iff dest: rounding_nonneg [OF rnd, OF add_nonneg_nonneg])
  then obtain x where x: "f64_min (f64_add rnd tokens (f64_mul rnd elapsed (Finite r))) (Finite (of_nat burst)) = Finite x"
    "0 \<le> x" "x \<le> of_nat burst"
    using f64_min_range [of _ burst] by (metis token_range_iff)
  show ?thesis
  proof (cases "1 \<le> x")
    case True
    then have "\<exists>y. rnd (x + - 1) = Finite y \<and> 0 \<le> y \<and> y \<le> of_nat burst"
      using x by (intro rounding_bounded [OF rnd _ _ b]) auto
    with True x show ?thesis by (auto simp: spend_token_def token_range_iff)
  qed (use x in \<open>auto simp: spend_token_def token_range_iff\<close>)
qed

section \<open>The limiter's invariant\<close>

definition limiter_ok :: "LaneLimit \<Rightarrow> nat \<Rightarrow> RateLimiter \<Rightarrow> bool" where
  "limiter_ok cfg capacity lm =
     (store_ok (lm_buckets lm) \<and> bs_capacity (lm_buckets lm) = capacity
      \<and> lm_rps lm = ll_requests_per_second cfg \<and> lm_burst lm = Finite (of_nat (ll_burst cfg))
      \<and> card (dom (bs_map (lm_buckets lm))) \<le> max 1 capacity
      \<and> (\<forall>bucket \<in> ran (bs_map (lm_buckets lm)). token_range (ll_burst cfg) (bk_tokens bucket)))"

lemma limiter_ok_new: "limiter_ok cfg capacity (RateLimiter_new cfg capacity ttl)"
  by (simp add: limiter_ok_def RateLimiter_new_def BucketStore_new_def store_ok_def)

lemma ran_fun_upd_subset: "ran (m(k \<mapsto> v)) \<subseteq> insert v (ran m)"
  by (auto simp: ran_def split: if_splits)

lemma second_chance_tokens:
  assumes "bucket \<in> ran (bs_map (second_chance now st))"
  shows "\<exists>bucket' \<in> ran (bs_map st). bk_tokens bucket = bk_tokens bucket'"
  using assms
  by (auto simp: second_chance_def Let_def reprieve_def ran_def split: if_splits)

text \<open>A store with room for one more bucket after an eviction that may be needed.\<close>

definition make_room :: "nat \<Rightarrow> BucketStore \<Rightarrow> BucketStore" where
  "make_room now st = (if card (dom (bs_map st)) \<ge> bs_capacity st then evict_one now st else st)"

lemma make_room_ok:
  assumes ok: "store_ok st" and card: "card (dom (bs_map st)) \<le> max 1 (bs_capacity st)"
    and tokens: "\<forall>bucket \<in> ran (bs_map st). token_range burst (bk_tokens bucket)"
  shows "store_ok (make_room now st)" "bs_capacity (make_room now st) = bs_capacity st"
    and "card (dom (bs_map (make_room now st))) < max 1 (bs_capacity st)"
    and "\<forall>bucket \<in> ran (bs_map (make_room now st)). token_range burst (bk_tokens bucket)"
    and "dom (bs_map (make_room now st)) \<subseteq> dom (bs_map st)"
proof -
  have empty: "make_room now st = st" "dom (bs_map st) = {}" if "bs_hand st = []"
    using that ok by (simp_all add: make_room_def store_ok_def evict_one_def dom_def)
  have full: "make_room now st = (if card (dom (bs_map st)) \<ge> bs_capacity st then second_chance now st else st)"
    if "bs_hand st \<noteq> []"
    using evict_one_is_second_chance [OF ok that] by (simp add: make_room_def)
  have pos: "card (dom (bs_map st)) > 0" if "bs_hand st \<noteq> []"
    using that ok store_ok_finite [OF ok] by (auto simp: store_ok_def card_gt_0_iff)
  show "store_ok (make_room now st)" "bs_capacity (make_room now st) = bs_capacity st"
    "card (dom (bs_map (make_room now st))) < max 1 (bs_capacity st)"
    using ok card pos second_chance_ok [OF ok, of now] by (cases "bs_hand st = []"; auto simp: empty full)+
  show "\<forall>bucket \<in> ran (bs_map (make_room now st)). token_range burst (bk_tokens bucket)"
    using tokens by (cases "bs_hand st = []") (auto simp: empty full dest!: second_chance_tokens)
  show "dom (bs_map (make_room now st)) \<subseteq> dom (bs_map st)"
    by (cases "bs_hand st = []") (auto simp: empty full second_chance_def Let_def reprieve_def split: if_splits)
qed

lemma check_at_cases:
  "RateLimiter_check_at rnd hash_of key now lm =
     (case bs_map (lm_buckets lm) (hash_of key) of
        Some bucket \<Rightarrow>
          (case spend_token rnd (bk_tokens bucket) (as_secs_f64 rnd (now - bk_last_refill bucket)) (lm_rps lm) (lm_burst lm) of
             (allowed, tokens) \<Rightarrow>
               (allowed, lm\<lparr>lm_buckets := lm_buckets lm\<lparr>bs_map := (bs_map (lm_buckets lm))(hash_of key \<mapsto>
                  \<lparr>bk_tokens = tokens, bk_last_refill = now, bk_referenced = True\<rparr>)\<rparr>\<rparr>))
      | None \<Rightarrow>
          (case spend_token rnd (lm_burst lm) (Finite 0) (lm_rps lm) (lm_burst lm) of
             (allowed, tokens) \<Rightarrow>
               (allowed, lm\<lparr>lm_buckets := (make_room now (lm_buckets lm))\<lparr>
                  bs_map := (bs_map (make_room now (lm_buckets lm)))(hash_of key \<mapsto>
                    \<lparr>bk_tokens = tokens, bk_last_refill = now, bk_referenced = False\<rparr>),
                  bs_hand := bs_hand (make_room now (lm_buckets lm)) @ [hash_of key]\<rparr>\<rparr>)))"
  by (simp add: RateLimiter_check_at_def make_room_def Let_def split: option.splits)

lemma limiter_ok_check_at:
  assumes rnd: "ieee_rounding rnd" and b: "ll_burst cfg < 2 ^ 53"
    and rps: "ll_requests_per_second cfg = Finite r" "0 \<le> r" and ok: "limiter_ok cfg capacity lm"
  shows "limiter_ok cfg capacity (snd (RateLimiter_check_at rnd hash_of key now lm))"
proof (cases "bs_map (lm_buckets lm) (hash_of key)")
  case (Some bucket)
  obtain allowed tokens where spend: "spend_token rnd (bk_tokens bucket) (as_secs_f64 rnd (now - bk_last_refill bucket))
      (Finite r) (Finite (of_nat (ll_burst cfg))) = (allowed, tokens)" by fastforce
  have "token_range (ll_burst cfg) (bk_tokens bucket)" using ok Some by (auto simp: limiter_ok_def ran_def)
  from spend_token_range [OF rnd this b as_secs_nonneg [OF rnd] rps(2)] spend
  have "token_range (ll_burst cfg) tokens" by (metis snd_conv)
  then show ?thesis using ok Some rps(1) spend
    by (auto simp: check_at_cases limiter_ok_def store_ok_def insert_absorb domI dest!: ran_fun_upd_subset [THEN subsetD])
next
  case None
  let ?st = "make_room now (lm_buckets lm)"
  obtain allowed tokens where spend: "spend_token rnd (Finite (of_nat (ll_burst cfg))) (Finite 0)
      (Finite r) (Finite (of_nat (ll_burst cfg))) = (allowed, tokens)" by fastforce
  have "token_range (ll_burst cfg) (Finite (of_nat (ll_burst cfg)))" by (simp add: token_range_def)
  from spend_token_range [OF rnd this b _ rps(2), of "Finite 0"] spend
  have range: "token_range (ll_burst cfg) tokens" by (metis f64.inject(1) order_refl snd_conv)
  note room = make_room_ok [of "lm_buckets lm" "ll_burst cfg" now]
  have fresh: "hash_of key \<notin> dom (bs_map ?st)" using room(5) ok None by (auto simp: limiter_ok_def)
  have "finite (dom (bs_map ?st))" using room(1) ok store_ok_finite by (auto simp: limiter_ok_def)
  then show ?thesis using ok None rps(1) spend range room fresh
    by (auto simp: check_at_cases limiter_ok_def store_ok_def dest!: ran_fun_upd_subset [THEN subsetD])
qed

lemma limiter_ok_run:
  assumes "ieee_rounding rnd" "ll_burst cfg < 2 ^ 53" "ll_requests_per_second cfg = Finite r" "0 \<le> r"
  shows "limiter_ok cfg capacity lm \<Longrightarrow> limiter_ok cfg capacity (snd (limiter_run rnd hash_of requests lm))"
proof (induction requests arbitrary: lm)
  case (Cons request requests)
  obtain key now where r: "request = (key, now)" by fastforce
  obtain allowed lm' where c: "RateLimiter_check_at rnd hash_of key now lm = (allowed, lm')" by fastforce
  have "limiter_ok cfg capacity lm'" using limiter_ok_check_at [OF assms Cons.prems, of hash_of key now] c by simp
  from Cons.IH [OF this] show ?case by (simp add: r c limiter_run_def)
qed (simp add: limiter_run_def)

text \<open>
  C15. The limiter's memory and allowances are bounded. Whatever the requests, their keys, the hash and the order
  of the instants, a limiter built from a configuration tracks at most \<open>max 1 capacity\<close> buckets, its hand lists
  each of them exactly once, and every bucket holds between zero and \<open>burst\<close> tokens, never a NaN or an infinity,
  under any monotone rounding that is exact on small integers.
\<close>

theorem rate_limiter_bounded:
  assumes "ieee_rounding rnd" "ll_burst cfg < 2 ^ 32" "ll_requests_per_second cfg = Finite r" "0 \<le> r"
  shows "limiter_ok cfg capacity (snd (limiter_run rnd hash_of requests (RateLimiter_new cfg capacity ttl)))"
proof (rule limiter_ok_run [OF assms(1) _ assms(3,4) limiter_ok_new])
  show "ll_burst cfg < 2 ^ 53" using assms(2) by simp
qed

lemma exact_rounding: "ieee_rounding Finite"
  by (simp add: ieee_rounding_def)

definition sample_limit :: LaneLimit where
  "sample_limit = \<lparr>ll_requests_per_second = Finite 2, ll_burst = 1\<rparr>"

theorem rate_limiter_bounded_witness:
  "ll_burst sample_limit < 2 ^ 32
   \<and> limiter_ok sample_limit 1
       (snd (limiter_run Finite (of_nat \<circ> length) [(''a'', 5), (''bb'', 7)] (RateLimiter_new sample_limit 1 9)))"
  using rate_limiter_bounded [OF exact_rounding, of sample_limit 2 1 "of_nat \<circ> length" "[(''a'', 5), (''bb'', 7)]" 9]
  by (simp add: sample_limit_def)

section \<open>Isolation of callers\<close>

text \<open>
  The interface of a store of buckets: while the store has room for the identities \<open>K\<close>, checking a key takes one
  step of that key's own bucket and leaves every other bucket as it was.
\<close>

locale keyed_limiter =
  fixes check :: "'k \<Rightarrow> nat \<Rightarrow> 's \<Rightarrow> bool \<times> 's" and ident :: "'k \<Rightarrow> 'i" and view :: "'s \<Rightarrow> 'i \<Rightarrow> 'b"
    and step :: "nat \<Rightarrow> 'b \<Rightarrow> bool \<times> 'b" and room :: "'i set \<Rightarrow> 's \<Rightarrow> bool"
  assumes check_answer: "room K s \<Longrightarrow> ident k \<in> K \<Longrightarrow> fst (check k t s) = fst (step t (view s (ident k)))"
    and check_view: "room K s \<Longrightarrow> ident k \<in> K \<Longrightarrow>
      view (snd (check k t s)) i = (if i = ident k then snd (step t (view s i)) else view s i)"
    and check_room: "room K s \<Longrightarrow> ident k \<in> K \<Longrightarrow> room K (snd (check k t s))"
begin

lemma own_history:
  "room K s \<Longrightarrow> ident ` fst ` set rs \<subseteq> K \<Longrightarrow>
   map snd (filter (\<lambda>(r, _). ident (fst r) = i) (zip rs (fst (run_requests (\<lambda>(k, t). check k t) rs s))))
   = fst (run_requests step (map snd (filter (\<lambda>r. ident (fst r) = i) rs)) (view s i))"
proof (induction rs arbitrary: s)
  case (Cons r rs)
  obtain k t where r: "r = (k, t)" by fastforce
  obtain allowed s' where c: "check k t s = (allowed, s')" by fastforce
  have k: "ident k \<in> K" using Cons.prems(2) r by simp
  have "allowed = fst (step t (view s (ident k)))" "room K s'"
    "view s' i = (if i = ident k then snd (step t (view s i)) else view s i)"
    using check_answer [OF Cons.prems(1) k, of t] check_room [OF Cons.prems(1) k, of t]
      check_view [OF Cons.prems(1) k, of t i] c by simp_all
  then show ?case using Cons.IH [of s'] Cons.prems(2) r c by (auto split: prod.splits)
qed simp

end

definition live_view :: "RateLimiter \<Rightarrow> 64 word \<Rightarrow> IsolatedBucket" where
  "live_view lm h =
     \<lparr>ib_rps = lm_rps lm, ib_burst = lm_burst lm,
      ib_state = map_option (\<lambda>bucket. (bk_tokens bucket, bk_last_refill bucket)) (bs_map (lm_buckets lm) h)\<rparr>"

definition live_room :: "64 word set \<Rightarrow> RateLimiter \<Rightarrow> bool" where
  "live_room K lm = (dom (bs_map (lm_buckets lm)) \<subseteq> K \<and> card K \<le> bs_capacity (lm_buckets lm))"

lemma live_room_make_room:
  assumes "live_room K lm" "h \<in> K" "bs_map (lm_buckets lm) h = None"
  shows "make_room now (lm_buckets lm) = lm_buckets lm"
proof -
  have "dom (bs_map (lm_buckets lm)) \<subset> K" using assms by (auto simp: live_room_def)
  then have "card (dom (bs_map (lm_buckets lm))) < card K" by (intro psubset_card_mono) simp_all
  then show ?thesis using assms(1) by (simp add: make_room_def live_room_def)
qed

interpretation live: keyed_limiter "RateLimiter_check_at rnd hash_of" hash_of live_view "IsolatedBucket_check_at rnd" live_room
  for rnd hash_of
proof
  fix K lm k t i
  assume a: "live_room K lm" "hash_of k \<in> K"
  note d = check_at_cases IsolatedBucket_check_at_def live_view_def live_room_make_room [OF a]
  show "fst (RateLimiter_check_at rnd hash_of k t lm) = fst (IsolatedBucket_check_at rnd t (live_view lm (hash_of k)))"
    by (cases "bs_map (lm_buckets lm) (hash_of k)") (simp_all add: d split: prod.splits)
  show "live_view (snd (RateLimiter_check_at rnd hash_of k t lm)) i =
      (if i = hash_of k then snd (IsolatedBucket_check_at rnd t (live_view lm i)) else live_view lm i)"
    by (cases "bs_map (lm_buckets lm) (hash_of k)") (simp_all add: d split: prod.splits)
  show "live_room K (snd (RateLimiter_check_at rnd hash_of k t lm))"
    using a by (cases "bs_map (lm_buckets lm) (hash_of k)") (auto simp: d live_room_def split: prod.splits)
qed

definition shift_bucket :: "nat \<Rightarrow> IsolatedBucket \<Rightarrow> IsolatedBucket" where
  "shift_bucket base b = b\<lparr>ib_state := map_option (apsnd ((+) base)) (ib_state b)\<rparr>"

lemma isolated_check_shift:
  "IsolatedBucket_check_at rnd (base + t) (shift_bucket base b) =
     apsnd (shift_bucket base) (IsolatedBucket_check_at rnd t b)"
  by (cases "ib_state b") (auto simp: IsolatedBucket_check_at_def shift_bucket_def split: prod.splits)

lemma isolated_run_shift: "isolated_run rnd (map ((+) base) ts) (shift_bucket base b) = isolated_run rnd ts b"
proof (induction ts arbitrary: b)
  case (Cons t ts)
  obtain allowed b' where "IsolatedBucket_check_at rnd t b = (allowed, b')" by fastforce
  then show ?case using Cons.IH [of b'] isolated_check_shift [of rnd base t b] by (simp add: isolated_run_def)
qed (simp add: isolated_run_def)

text \<open>
  C14. A caller's answers depend on that caller alone. In any interleaving of requests whose keys fit the
  store, the answers given to the requests that share a bucket with a key are those of an isolated bucket with the same
  configuration run on those requests' instants from the sequence's origin: no other caller spends or restores an allowance,
  and a policy simulation's synthetic sequence answers what the live limiter would.
\<close>

theorem simulation_agrees_with_live:
  assumes "card (hash_of ` fst ` set requests) \<le> capacity"
  shows "map snd (filter (\<lambda>((k, _), _). hash_of k = hash_of key)
           (zip requests (fst (limiter_run rnd hash_of (map (apsnd ((+) base)) requests) (RateLimiter_new cfg capacity ttl)))))
       = isolated_run rnd (map snd (filter (\<lambda>(k, _). hash_of k = hash_of key) requests)) (IsolatedBucket_new cfg)"
proof -
  let ?shifted = "map (apsnd ((+) base)) requests"
  let ?answers = "fst (limiter_run rnd hash_of ?shifted (RateLimiter_new cfg capacity ttl))"
  have fst: "fst ` set ?shifted = fst ` set requests" by (force simp: image_iff)
  have view: "live_view (RateLimiter_new cfg capacity ttl) h = shift_bucket base (IsolatedBucket_new cfg)" for h
    by (simp add: live_view_def RateLimiter_new_def BucketStore_new_def shift_bucket_def IsolatedBucket_new_def)
  have "live_room (hash_of ` fst ` set requests) (RateLimiter_new cfg capacity ttl)"
    using assms by (simp add: live_room_def RateLimiter_new_def BucketStore_new_def)
  from live.own_history [where hash_of = hash_of and rnd = rnd and rs = ?shifted and i = "hash_of key", OF this]
  have "map snd (filter (\<lambda>(r, _). hash_of (fst r) = hash_of key) (zip ?shifted ?answers))
      = isolated_run rnd (map snd (filter (\<lambda>r. hash_of (fst r) = hash_of key) ?shifted)) (shift_bucket base (IsolatedBucket_new cfg))"
    unfolding fst view by (simp add: limiter_run_def isolated_run_def case_prod_unfold)
  also have "map snd (filter (\<lambda>r. hash_of (fst r) = hash_of key) ?shifted) =
      map ((+) base) (map snd (filter (\<lambda>(k, _). hash_of k = hash_of key) requests))"
    by (simp add: filter_map comp_def case_prod_unfold)
  also have "map snd (filter (\<lambda>(r, _). hash_of (fst r) = hash_of key) (zip ?shifted ?answers)) =
      map snd (filter (\<lambda>((k, _), _). hash_of k = hash_of key) (zip requests ?answers))"
    by (simp add: zip_map1 filter_map comp_def case_prod_unfold)
  finally show ?thesis by (simp only: isolated_run_shift)
qed

definition sample_requests :: "(string \<times> nat) list" where
  "sample_requests = [(''a'', 3), (''bb'', 3), (''a'', 4), (''a'', 900000000)]"

definition sample_hash :: "string \<Rightarrow> 64 word" where
  "sample_hash key = of_nat (length key)"

theorem simulation_agrees_with_live_witness:
  "isolated_run Finite [3, 4, 900000000] (IsolatedBucket_new sample_limit) = [True, False, True]
   \<and> map snd (filter (\<lambda>((k, _), _). sample_hash k = sample_hash ''a'')
       (zip sample_requests
          (fst (limiter_run Finite sample_hash (map (apsnd ((+) 70)) sample_requests)
            (RateLimiter_new sample_limit 2 9))))) = [True, False, True]"
proof -
  have iso: "isolated_run Finite [3, 4, 900000000] (IsolatedBucket_new sample_limit) = [True, False, True]"
    by (simp add: isolated_run_def IsolatedBucket_check_at_def IsolatedBucket_new_def sample_limit_def
        spend_token_def f64_min_def as_secs_f64_def)
  have "sample_hash ` fst ` set sample_requests = {1, 2}" by (auto simp: sample_hash_def sample_requests_def)
  then have "card (sample_hash ` fst ` set sample_requests) \<le> 2" by (simp only: card_2_iff) auto
  moreover have "map snd (filter (\<lambda>(k, _). sample_hash k = sample_hash ''a'') sample_requests) = [3, 4, 900000000]"
    by (simp add: sample_hash_def sample_requests_def)
  ultimately show ?thesis
    using simulation_agrees_with_live [of sample_hash sample_requests 2 "''a''" Finite 70 sample_limit 9] iso by simp
qed

section \<open>The size of a burst\<close>

lemma spend_token_whole:
  assumes "ieee_rounding rnd" "burst < 2 ^ 53" "m \<le> burst"
  shows "spend_token rnd (Finite (of_nat m)) (Finite 0) (Finite r) (Finite (of_nat burst)) =
     (0 < m, Finite (of_nat (m - 1)))"
proof -
  have m: "rnd (of_nat m) = Finite (of_nat m)" "rnd (of_nat (m - 1)) = Finite (of_nat (m - 1))"
    using assms by (auto intro!: rounding_nat)
  have "of_nat m + - 1 = (of_nat (m - 1) :: rat)" if "0 < m" using that by (simp add: of_nat_diff)
  then show ?thesis using m rounding_0 [OF assms(1)] assms(3)
    by (cases m) (auto simp: spend_token_def f64_min_def)
qed

lemma isolated_run_whole:
  assumes "ieee_rounding rnd" "burst < 2 ^ 53"
  shows "m \<le> burst \<Longrightarrow>
    isolated_run rnd (replicate n t) \<lparr>ib_rps = Finite r, ib_burst = Finite (of_nat burst), ib_state = Some (Finite (of_nat m), t)\<rparr>
    = replicate (min n m) True @ replicate (n - m) False"
proof (induction n arbitrary: m)
  case (Suc n)
  have "as_secs_f64 rnd 0 = Finite 0" using rounding_0 [OF assms(1)] by (simp add: as_secs_f64_def)
  then show ?case
    using Suc.IH [of "m - 1"] Suc.prems spend_token_whole [OF assms Suc.prems, of r]
    by (cases m) (simp_all add: isolated_run_def IsolatedBucket_check_at_def split: prod.splits)
qed (simp add: isolated_run_def)

lemma isolated_run_burst:
  assumes "ieee_rounding rnd" "ll_burst cfg < 2 ^ 53" "ll_requests_per_second cfg = Finite r"
  shows "isolated_run rnd (replicate n t) (IsolatedBucket_new cfg)
       = replicate (min n (ll_burst cfg)) True @ replicate (n - ll_burst cfg) False"
proof -
  let ?full = "\<lparr>ib_rps = Finite r, ib_burst = Finite (of_nat (ll_burst cfg)), ib_state = Some (Finite (of_nat (ll_burst cfg)), t)\<rparr>"
  have "as_secs_f64 rnd 0 = Finite 0" using rounding_0 [OF assms(1)] by (simp add: as_secs_f64_def)
  then have "IsolatedBucket_check_at rnd t (IsolatedBucket_new cfg) = IsolatedBucket_check_at rnd t ?full"
    using assms(3) by (simp add: IsolatedBucket_check_at_def IsolatedBucket_new_def split: prod.splits)
  then have "isolated_run rnd (replicate n t) (IsolatedBucket_new cfg) = isolated_run rnd (replicate n t) ?full"
    by (cases n) (simp_all add: isolated_run_def)
  then show ?thesis using isolated_run_whole [OF assms(1,2) order_refl] by simp
qed

lemma single_key_run:
  assumes "0 < capacity"
  shows "fst (limiter_run rnd hash_of (replicate n (key, now)) (RateLimiter_new cfg capacity ttl))
       = isolated_run rnd (replicate n now) (IsolatedBucket_new cfg)"
proof -
  let ?lm = "RateLimiter_new cfg capacity ttl" and ?rs = "replicate n (key, now)"
  let ?answers = "fst (limiter_run rnd hash_of ?rs ?lm)"
  have room: "live_room {hash_of key} ?lm"
    using assms by (simp add: live_room_def RateLimiter_new_def BucketStore_new_def)
  have view: "live_view ?lm h = IsolatedBucket_new cfg" for h
    by (simp add: live_view_def RateLimiter_new_def BucketStore_new_def IsolatedBucket_new_def)
  have keep: "filter (\<lambda>(r, _). hash_of (fst r) = hash_of key) (zip ?rs ?answers) = zip ?rs ?answers"
    by (auto simp: filter_id_conv set_zip)
  have own: "filter (\<lambda>r. hash_of (fst r) = hash_of key) ?rs = ?rs" by (auto simp: filter_id_conv)
  have "length ?answers = n" by (simp add: limiter_run_def)
  then have "?answers = map snd (zip ?rs ?answers)" by simp
  also have "\<dots> = isolated_run rnd (map snd ?rs) (IsolatedBucket_new cfg)"
    using live.own_history [where hash_of = hash_of and rnd = rnd and rs = ?rs and i = "hash_of key", OF room]
    unfolding view keep [unfolded limiter_run_def] own by (auto simp: limiter_run_def isolated_run_def)
  finally show ?thesis by simp
qed

text \<open>
  The size of a burst. Of any number of requests a new caller makes at one instant, in a store with room for
  its key, the first \<open>burst\<close> are allowed and every later one is refused, exactly, whatever the finite refill
  rate; a zero burst refuses the very first.
\<close>

theorem burst_is_exact:
  assumes "ieee_rounding rnd" "ll_burst cfg < 2 ^ 32" "ll_requests_per_second cfg = Finite r" "0 < capacity"
  shows "fst (limiter_run rnd hash_of (replicate n (key, now)) (RateLimiter_new cfg capacity ttl))
       = replicate (min n (ll_burst cfg)) True @ replicate (n - ll_burst cfg) False"
  unfolding single_key_run [OF assms(4)] using assms(2) by (intro isolated_run_burst [OF assms(1) _ assms(3)]) simp

theorem burst_is_exact_witness:
  "ll_burst sample_limit < 2 ^ 32
   \<and> fst (limiter_run Finite sample_hash (replicate 3 (''a'', 5)) (RateLimiter_new sample_limit 4 9)) = True # replicate 2 False"
  using burst_is_exact [OF exact_rounding, of sample_limit 2 4 sample_hash 3 "''a''" 5 9]
  by (simp add: sample_limit_def)

section \<open>Keys\<close>

lemma dec_of_nat_no_colon: "CHR '':'' \<notin> set (dec_of_nat n)"
proof -
  have "\<not> is_ascii_digit (CHR '':'')" by code_simp
  then show ?thesis using dec_of_nat_digits [of n] by (auto simp: list_all_iff)
qed

lemma split_at_colon:
  "CHR '':'' \<notin> set a \<Longrightarrow> CHR '':'' \<notin> set b \<Longrightarrow> a @ CHR '':'' # x = b @ CHR '':'' # y \<longleftrightarrow> a = b \<and> x = y"
  by (induction a arbitrary: b; case_tac b) auto

lemmas auth_constants = AUTH_METHOD_BEARER_TOKEN_def AUTH_METHOD_SESSION_COOKIE_def AUTH_METHOD_SERVICE_TOKEN_def
  AUTH_METHOD_CLIENT_CERTIFICATE_def

text \<open>
  Distinct principals have distinct rate-limit keys. The key frames the issuer by its length and the method by
  its fixed vocabulary, so two principals share one only when issuer, authentication method and user id all agree,
  whatever separators those strings contain; an absent issuer counts as the empty one.
\<close>

theorem principal_rate_limit_key_injective:
  "principal_rate_limit_key p = principal_rate_limit_key q
   \<longleftrightarrow> case_option [] id (issuer p) = case_option [] id (issuer q)
     \<and> auth_method p = auth_method q \<and> user_id p = user_id q"
proof -
  have key: "principal_rate_limit_key x = ''principal:'' @ dec_of_nat (length (case_option [] id (issuer x))) @ CHR '':'' #
      case_option [] id (issuer x) @ CHR '':'' # auth_method_policy_value (auth_method x) @ CHR '':'' # user_id x" for x
    by (simp add: principal_rate_limit_key_def Let_def split: option.splits)
  have colon: "CHR '':'' \<notin> set (auth_method_policy_value m)" for m
    by (cases m) (simp_all add: auth_constants)
  have methods: "auth_method_policy_value m = auth_method_policy_value n \<longleftrightarrow> m = n" for m n
    by (cases m; cases n) (simp_all add: auth_constants)
  show ?thesis
    unfolding key using split_at_colon [OF dec_of_nat_no_colon dec_of_nat_no_colon] split_at_colon [OF colon colon] methods
    by auto
qed

section \<open>The policy stage\<close>

text \<open>The state holds one override per rate rule of the installed policy, in order; admitted rates are numbers.\<close>

definition stage_ok :: "'net CompiledPolicy \<Rightarrow> 'net RateLimitPolicyState \<Rightarrow> bool" where
  "stage_ok cp ps =
     (ps_selector ps = Some cp \<and> map ov_rule (ps_overrides ps) = pol_rate_limits (cp_policy cp)
      \<and> list_all (\<lambda>rule. rl_requests_per_second rule \<noteq> NotANumber) (pol_rate_limits (cp_policy cp)))"

lemma stage_ok_override:
  assumes "stage_ok cp ps" "index < length (pol_rate_limits (cp_policy cp))"
  shows "index < length (ps_overrides ps)"
    and "ov_rule (ps_overrides ps ! index) = pol_rate_limits (cp_policy cp) ! index"
    and "f64_eq (rl_requests_per_second (pol_rate_limits (cp_policy cp) ! index))
                (rl_requests_per_second (pol_rate_limits (cp_policy cp) ! index))"
proof -
  have m: "map ov_rule (ps_overrides ps) = pol_rate_limits (cp_policy cp)" using assms(1) by (simp add: stage_ok_def)
  then show l: "index < length (ps_overrides ps)" using assms(2) by (metis length_map)
  show "ov_rule (ps_overrides ps ! index) = pol_rate_limits (cp_policy cp) ! index" using m l by (metis nth_map)
  have "rl_requests_per_second (pol_rate_limits (cp_policy cp) ! index) \<noteq> NotANumber"
    using assms by (simp add: stage_ok_def list_all_length)
  then show "f64_eq (rl_requests_per_second (pol_rate_limits (cp_policy cp) ! index))
      (rl_requests_per_second (pol_rate_limits (cp_policy cp) ! index))"
    by (cases "rl_requests_per_second (pol_rate_limits (cp_policy cp) ! index)") simp_all
qed

lemma stage_ok_for_snapshot:
  assumes "list_all (\<lambda>rule. rl_requests_per_second rule \<noteq> NotANumber) (pol_rate_limits (cp_policy cp))"
  shows "stage_ok cp (RateLimitPolicyState_for_snapshot fingerprint capacity ttl cp)"
  using assms by (simp add: stage_ok_def RateLimitPolicyState_for_snapshot_def RateLimitOverride_new_def comp_def)

text \<open>The override that governs an authenticated request: the first whose matchers accept it.\<close>

definition governing :: "'net CompiledPolicy \<Rightarrow> string \<Rightarrow> string \<Rightarrow> Principal \<Rightarrow> nat option" where
  "governing cp m path p =
     (case judged_principal cp (PF_Authenticated (PrincipalIdentity_from_principal p)) (serving_facts (cp_fact_needs cp) (Some p)) of
        Inr (Some q) \<Rightarrow>
          (case filter (\<lambda>i. rate_rule_matches q m path (pol_rate_limits (cp_policy cp) ! i))
                  [0..<length (pol_rate_limits (cp_policy cp))] of
             [] \<Rightarrow> None
           | i # _ \<Rightarrow> Some i)
      | _ \<Rightarrow> None)"

lemma select_governing:
  assumes "stage_ok cp ps"
  shows "RateLimitPolicyState_select de pinned m path p ps =
     (if is_unsafe_request_path path then Inl UnsafePath
      else (case fst (select_rate_lane_with_facts de cp (rate_lane_context cp pinned m path p)
                        (serving_facts (cp_fact_needs cp) (Some p)) NoStages_record ()) of
              Inl e \<Rightarrow> Inl (RefusedError e)
            | Inr selection \<Rightarrow>
                (case rls_outcome selection of
                   RL_Indeterminate limitation \<Rightarrow> Inl (Incomplete limitation)
                 | _ \<Rightarrow> Inr (map_option (\<lambda>i. let selected = ps_overrides ps ! i; rule = ov_rule selected in
                            \<lparr>pm_index = i, pm_fingerprint = ov_fingerprint selected,
                             pm_limit = \<lparr>ll_requests_per_second = rl_requests_per_second rule, ll_burst = rl_burst rule\<rparr>\<rparr>)
                          (governing cp m path p)))))"
proof -
  let ?ctx = "rate_lane_context cp pinned m path p" and ?facts = "serving_facts (cp_fact_needs cp) (Some p)"
  have sel: "ps_selector ps = Some cp" using assms by (simp add: stage_ok_def)
  have ctx: "pc_method ?ctx = Some m" "pc_path ?ctx = Some path"
    "pc_principal ?ctx = PF_Authenticated (PrincipalIdentity_from_principal p)"
    by (simp_all add: rate_lane_context_def)
  show ?thesis
  proof (cases "fst (select_rate_lane_with_facts de cp ?ctx ?facts NoStages_record ())")
    case (Inr selection)
    note outcome = rate_lane_outcome [OF Inr ctx]
    show ?thesis
    proof (cases "\<exists>q. judged_principal cp (pc_principal ?ctx) ?facts = Inr (Some q)")
      case True
      then obtain q where q: "judged_principal cp (pc_principal ?ctx) ?facts = Inr (Some q)" by blast
      let ?limits = "pol_rate_limits (cp_policy cp)"
      show ?thesis
      proof (cases "filter (\<lambda>i. rate_rule_matches q m path (?limits ! i)) [0..<length ?limits]")
        case Nil
        then show ?thesis using outcome sel ctx Inr q
          by (simp add: RateLimitPolicyState_select_def governing_def select_override_cases)
      next
        case (Cons i rest)
        have "i \<in> set (filter (\<lambda>i. rate_rule_matches q m path (?limits ! i)) [0..<length ?limits])"
          unfolding Cons by simp
        then have "i < length ?limits" by simp
        from stage_ok_override [OF assms this] show ?thesis using outcome sel ctx Inr q Cons
          by (simp add: RateLimitPolicyState_select_def governing_def select_override_cases Let_def)
      qed
    next
      case False
      then show ?thesis using outcome sel ctx Inr
        by (auto simp: RateLimitPolicyState_select_def governing_def split: sum.splits option.splits)
    qed
  qed (simp add: RateLimitPolicyState_select_def sel)
qed

lemma filter_Cons_mem: "filter P xs = y # ys \<Longrightarrow> y \<in> set xs"
  by (auto simp: filter_eq_Cons_iff)

lemma governing_bound:
  assumes "stage_ok cp ps" "governing cp m path p = Some i"
  shows "i < length (ps_overrides ps)" "ov_rule (ps_overrides ps ! i) = pol_rate_limits (cp_policy cp) ! i"
proof -
  have "i < length (pol_rate_limits (cp_policy cp))"
    using assms(2) by (auto simp: governing_def split: sum.splits option.splits list.splits dest!: filter_Cons_mem)
  from stage_ok_override(1,2) [OF assms(1) this]
  show "i < length (ps_overrides ps)" "ov_rule (ps_overrides ps ! i) = pol_rate_limits (cp_policy cp) ! i" .
qed


definition rated_stage :: "unit RateLimitPolicyState" where
  "rated_stage = RateLimitPolicyState_for_snapshot (\<lambda>_. ''f'') 2 9 rated_policy"


end
