(* ===== verification/Condition_Validation.thy ===== *)
theory Condition_Validation
  imports Policy_Kernel
begin

text \<open>
  Validation of rule conditions and identity mappings (\<open>gateway-config/src/rbac/conditions.rs\<close> and
  \<open>identity_mappings.rs\<close>), which the policy's validating parse runs. An issue is its code and the JSON pointer it
  is located at; the human-readable detail is left out. Every validator stops at the first problem.
\<close>

section \<open>Issues\<close>

datatype (plugins only: size) IssueCode =
    IC_InvalidJson | IC_DocumentTooLarge | IC_DuplicateMember | IC_InvalidType | IC_InvalidValue
  | IC_SchemaVersionUnsupported | IC_UnknownMember | IC_RequiredMemberMissing | IC_NumberOutOfRange
  | IC_ElementIdMissing | IC_ElementIdInvalid | IC_ElementIdDuplicate | IC_MemberRequiresV1 | IC_TooManyProblems
  | IC_PathNotAbsolute | IC_PathCaptureMalformed | IC_RuleTargetInvalid | IC_ToolNameEmpty | IC_ToolNameTooLong
  | IC_ToolRuleMethodsPresent | IC_ToolRuleDispatchPresent | IC_DispatchMemberNotAllowed | IC_DispatchMemberMissing
  | IC_DispatchOriginInvalid | IC_DispatchRouteIdInvalid | IC_RouteHostInvalid | IC_RouteHostDuplicate
  | IC_RateLimitRateInvalid | IC_RateLimitBurstInvalid | IC_IssuerEmpty | IC_AuthMethodUnknown
  | IC_RoleDescriptionInvalid | IC_ToolTimeoutInvalid | IC_EgressHostInvalid | IC_EgressCidrInvalid
  | IC_EgressPortInvalid | IC_UnknownTopLevelMember | IC_StableIdsUnavailable | IC_DispatchNotConfigured
  | IC_DocumentFormatUnsupportedInCluster | IC_PolicyFileTooLarge | IC_ConversionRequiresV0
  | IC_PolicyWriteUnreachable | IC_PublisherPolicyWriteLost | IC_EgressChangeRequiresRestart
  | IC_ConditionPointerIneligible | IC_RoleNotDefined | IC_RoutePermissionUngranted | IC_ToolRuleNeverDecides
  | IC_ToolNotRegistered | IC_ConnectionEndpointEgressDenied | IC_NameCaseCollision | IC_ResourceUnavailable
  | IC_DefaultActionAllow | IC_EnforcementModeShadow | IC_WildcardPermission | IC_IdentityMappingsTooMany
  | IC_IdentityMappingGrantEmpty | IC_IdentityMappingRoleUnknown | IC_IdentityMappingValueInvalid
  | IC_ConditionOperatorInvalid | IC_ConditionTooComplex | IC_ConditionNotApplicable | IC_ConditionValueInvalid
  | IC_ConditionNameForbidden | IC_ConditionCidrInvalid | IC_ConditionPointerInvalid | IC_ConditionTimeInvalid
  | IC_ClaimNotCaptured

record PolicyIssue =
  pi_code :: IssueCode
  pi_pointer :: string

type_synonym checked = "(PolicyIssue, unit) result"

definition PolicyIssue_located :: "IssueCode \<Rightarrow> string \<Rightarrow> PolicyIssue" where
  "PolicyIssue_located code ptr = \<lparr>pi_code = code, pi_pointer = ptr\<rparr>"

text \<open>The early return of a validator, and a loop over \<open>iter().enumerate()\<close> with one.\<close>

definition require :: "bool \<Rightarrow> IssueCode \<Rightarrow> string \<Rightarrow> checked" where
  "require ok code ptr = (if ok then Inr () else Inl (PolicyIssue_located code ptr))"

fun check_each :: "(nat \<Rightarrow> 'a \<Rightarrow> checked) \<Rightarrow> nat \<Rightarrow> 'a list \<Rightarrow> checked" where
  "check_each check i [] = Inr ()"
| "check_each check i (x # xs) = and_then (check i x) (\<lambda>_. check_each check (Suc i) xs)"

text \<open>A JSON pointer below another.\<close>

definition below :: "string \<Rightarrow> string \<Rightarrow> string" where
  "below ptr member = ptr @ CHR ''/'' # member"

lemma require_Inr [simp]: "require ok code ptr = Inr () \<longleftrightarrow> ok"
  by (simp add: require_def)

lemma and_then_unit [simp]: "and_then r (\<lambda>_. s) = Inr u \<longleftrightarrow> r = Inr () \<and> s = Inr u"
  by (cases r) auto

lemma and_then_Inr [simp]: "and_then r Inr = r"
  by (cases r) simp_all

lemma check_each_Inr:
  assumes "\<And>i x. check i x = Inr () \<longleftrightarrow> ok x"
  shows "check_each check i xs = Inr () \<longleftrightarrow> list_all ok xs"
  by (induction xs arbitrary: i) (simp_all add: assms)

section \<open>Names a condition may read\<close>

definition MAX_CONDITION_DEPTH :: nat where "MAX_CONDITION_DEPTH = 4"
definition MAX_CONDITION_NODES :: nat where "MAX_CONDITION_NODES = 32"
definition MAX_CONDITION_BRANCHES :: nat where "MAX_CONDITION_BRANCHES = 16"
definition MAX_CONDITION_VALUES :: nat where "MAX_CONDITION_VALUES = 32"
definition MAX_CONDITION_VALUE_BYTES :: nat where "MAX_CONDITION_VALUE_BYTES = 256"
definition MAX_CONDITION_NAME_BYTES :: nat where "MAX_CONDITION_NAME_BYTES = 128"
definition MAX_TOOL_ARGUMENT_POINTER_BYTES :: nat where "MAX_TOOL_ARGUMENT_POINTER_BYTES = 256"

datatype ConditionTarget = HttpPath | ToolName

definition FORBIDDEN_HEADER_NAMES :: "string list" where
  "FORBIDDEN_HEADER_NAMES =
     [''authorization'', ''proxy-authorization'', ''cookie'', ''set-cookie'', ''host'', ''connection'',
      ''keep-alive'', ''proxy-connection'', ''te'', ''trailer'', ''transfer-encoding'', ''upgrade'', ''forwarded'',
      ''via'', ''true-client-ip'', ''cf-connecting-ip'']"

definition FORBIDDEN_HEADER_PREFIXES :: "string list" where
  "FORBIDDEN_HEADER_PREFIXES = [''x-forwarded-'', ''proxy-'', ''x-original-'', ''x-rewrite-'']"

definition FORBIDDEN_HEADER_FRAGMENTS :: "string list" where
  "FORBIDDEN_HEADER_FRAGMENTS =
     [''auth'', ''token'', ''secret'', ''passw'', ''cookie'', ''session'', ''credential'', ''key'', ''signature'',
      ''jwt'', ''csrf'', ''xsrf'', ''user'', ''email'', ''identity'', ''principal'', ''subject'', ''account'',
      ''role'', ''group'', ''tenant'', ''organization'', ''org-id'', ''real-ip'', ''client-ip'', ''client-cert'',
      ''remote-'', ''ssl-'', ''tls-'']"

definition FORBIDDEN_QUERY_NAMES :: "string list" where
  "FORBIDDEN_QUERY_NAMES = [''code'', ''state'', ''sig'']"

definition FORBIDDEN_QUERY_FRAGMENTS :: "string list" where
  "FORBIDDEN_QUERY_FRAGMENTS =
     [''auth'', ''token'', ''secret'', ''passw'', ''cookie'', ''session'', ''credential'', ''key'', ''signature'',
      ''jwt'', ''csrf'', ''xsrf'']"

definition header_name_is_readable :: "string \<Rightarrow> bool" where
  "header_name_is_readable name =
     (name \<notin> set FORBIDDEN_HEADER_NAMES
      \<and> \<not> list_ex (starts_with name) FORBIDDEN_HEADER_PREFIXES
      \<and> \<not> list_ex (str_contains name) FORBIDDEN_HEADER_FRAGMENTS)"

definition query_name_is_readable :: "string \<Rightarrow> bool" where
  "query_name_is_readable name =
     (str_lower name \<notin> set FORBIDDEN_QUERY_NAMES
      \<and> \<not> list_ex (str_contains (str_lower name)) FORBIDDEN_QUERY_FRAGMENTS)"

section \<open>Values\<close>

definition is_bounded_text :: "string \<Rightarrow> nat \<Rightarrow> bool \<Rightarrow> bool" where
  "is_bounded_text s max_bytes allow_empty =
     ((allow_empty \<or> s \<noteq> []) \<and> length s \<le> max_bytes \<and> \<not> has_control s)"

definition is_printable_text :: "string \<Rightarrow> nat \<Rightarrow> bool" where
  "is_printable_text s max_bytes = is_bounded_text s max_bytes False"

definition is_lowercase_token :: "string \<Rightarrow> bool" where
  "is_lowercase_token name =
     (name \<noteq> [] \<and> length name \<le> MAX_CONDITION_NAME_BYTES
      \<and> list_all (\<lambda>b. is_ascii_lower b \<or> is_ascii_digit b
           \<or> b \<in> set ''!#$%&*+-.^_`|~'' \<or> b = CHR 0x27) name)"

definition is_bounded_json_pointer :: "string \<Rightarrow> bool" where
  "is_bounded_json_pointer ptr =
     (case strip_prefix ptr ''/'' of
        None \<Rightarrow> False
      | Some tokens \<Rightarrow>
          length ptr \<le> MAX_TOOL_ARGUMENT_POINTER_BYTES \<and> \<not> has_control ptr
          \<and> list_all (\<lambda>token. list_all (\<lambda>rest. starts_with rest ''0'' \<or> starts_with rest ''1'')
                       (tl (str_split (CHR ''~'') token))) (str_split (CHR ''/'') tokens)
          \<and> length (str_split (CHR ''/'') tokens) \<le> MAX_TOOL_ARGUMENT_POINTER_TOKENS)"

definition validate_issuer :: "string \<Rightarrow> string \<Rightarrow> checked" where
  "validate_issuer iss ptr =
     and_then (require (str_trim iss \<noteq> []) IC_IssuerEmpty (below ptr ''issuer'')) (\<lambda>_.
       require (length iss \<le> MAX_PRINCIPAL_ISSUER_BYTES) IC_ConditionValueInvalid (below ptr ''issuer''))"

definition require_target :: "ConditionTarget \<Rightarrow> ConditionTarget \<Rightarrow> string \<Rightarrow> checked" where
  "require_target target required ptr = require (target = required) IC_ConditionNotApplicable ptr"

definition validate_value_count :: "nat \<Rightarrow> string \<Rightarrow> checked" where
  "validate_value_count count ptr =
     require (0 < count \<and> count \<le> MAX_CONDITION_VALUES) IC_ConditionValueInvalid ptr"

text \<open>The count of a leaf's \<open>in\<close> list and then a check of each value.\<close>

definition validate_listed :: "('a \<Rightarrow> bool) \<Rightarrow> 'a list \<Rightarrow> string \<Rightarrow> checked" where
  "validate_listed ok vs ptr =
     and_then (validate_value_count (length vs) (below ptr ''in'')) (\<lambda>_.
       check_each (\<lambda>i v. require (ok v) IC_ConditionValueInvalid (below (below ptr ''in'') (dec_of_nat i))) 0 vs)"

definition validate_text_values :: "string list \<Rightarrow> string \<Rightarrow> bool \<Rightarrow> checked" where
  "validate_text_values vs ptr allow_empty =
     validate_listed (\<lambda>v. is_bounded_text v MAX_CONDITION_VALUE_BYTES allow_empty) vs ptr"

fun claim_value_ok :: "json \<Rightarrow> bool" where
  "claim_value_ok (JString s) = is_verified_claim_text s"
| "claim_value_ok (JBool _) = True"
| "claim_value_ok (JNumber _) = True"
| "claim_value_ok _ = False"

fun argument_value_ok :: "json \<Rightarrow> bool" where
  "argument_value_ok (JString s) = is_bounded_text s MAX_CONDITION_VALUE_BYTES True"
| "argument_value_ok (JBool _) = True"
| "argument_value_ok (JNumber _) = True"
| "argument_value_ok _ = False"

definition header_value_ok :: "string \<Rightarrow> bool" where
  "header_value_ok v =
     (v \<noteq> [] \<and> length v \<le> MAX_CONDITION_VALUE_BYTES
      \<and> list_all (\<lambda>b. 0x20 \<le> byte b \<and> byte b \<le> 0x7e) v
      \<and> \<not> starts_with v '' '' \<and> \<not> ends_with v '' '')"

definition canonical_cidr :: "'net externals \<Rightarrow> string \<Rightarrow> bool" where
  "canonical_cidr ext cidr =
     (case ext_parse_net ext cidr of None \<Rightarrow> False | Some network \<Rightarrow> ext_net_trunc ext network = network)"

section \<open>Condition trees\<close>

definition validate_claim_name :: "string \<Rightarrow> string \<Rightarrow> checked" where
  "validate_claim_name name ptr =
     (if verified_claim_name_problem name = None then Inr ()
      else Inl (PolicyIssue_located
             (if name = [] \<or> length name > MAX_VERIFIED_CLAIM_NAME_BYTES \<or> has_control name \<or> str_trim name \<noteq> name
              then IC_ConditionValueInvalid else IC_ConditionNameForbidden)
             (below ptr ''name'')))"

definition validate_time_window :: "'net externals \<Rightarrow> string option \<Rightarrow> string option \<Rightarrow> string \<Rightarrow> checked" where
  "validate_time_window ext from_text until_text ptr =
     and_then (require (from_text \<noteq> None \<or> until_text \<noteq> None) IC_ConditionTimeInvalid ptr) (\<lambda>_.
     and_then (require (case from_text of None \<Rightarrow> True | Some t \<Rightarrow> parse_utc_instant ext t \<noteq> None)
                 IC_ConditionTimeInvalid (below ptr ''from'')) (\<lambda>_.
     and_then (require (case until_text of None \<Rightarrow> True | Some t \<Rightarrow> parse_utc_instant ext t \<noteq> None)
                 IC_ConditionTimeInvalid (below ptr ''until'')) (\<lambda>_.
       require (case (Option.bind from_text (parse_utc_instant ext), Option.bind until_text (parse_utc_instant ext)) of
                  (Some t, Some u) \<Rightarrow> t < u
                | _ \<Rightarrow> True)
         IC_ConditionTimeInvalid (below ptr ''until''))))"

text \<open>The leaves; a combinator has no check of its own here.\<close>

fun validate_leaf :: "'net externals \<Rightarrow> ConditionTarget \<Rightarrow> string \<Rightarrow> Condition \<Rightarrow> checked" where
  "validate_leaf ext target ptr (Cond_Organization iss vs) =
     (let ptr = below ptr ''organization'' in
      and_then (validate_issuer iss ptr) (\<lambda>_. validate_text_values vs ptr False))"
| "validate_leaf ext target ptr (Cond_Scope iss vs) =
     (let ptr = below ptr ''scope'' in
      and_then (validate_issuer iss ptr) (\<lambda>_. validate_listed is_scope_token vs ptr))"
| "validate_leaf ext target ptr (Cond_Claim iss name vs) =
     (let ptr = below ptr ''claim'' in
      and_then (validate_issuer iss ptr) (\<lambda>_.
      and_then (validate_claim_name name ptr) (\<lambda>_. validate_listed claim_value_ok vs ptr)))"
| "validate_leaf ext target ptr (Cond_SourceNetwork cidrs) =
     (let ptr = below (below ptr ''source_network'') ''cidrs'' in
      and_then (validate_value_count (length cidrs) ptr) (\<lambda>_.
        check_each (\<lambda>i cidr. require (canonical_cidr ext cidr) IC_ConditionCidrInvalid (below ptr (dec_of_nat i))) 0 cidrs))"
| "validate_leaf ext target ptr (Cond_Header name vs) =
     (let ptr = below ptr ''header'' in
      and_then (require_target target HttpPath ptr) (\<lambda>_.
      and_then (require (is_lowercase_token name) IC_ConditionValueInvalid (below ptr ''name'')) (\<lambda>_.
      and_then (require (header_name_is_readable name) IC_ConditionNameForbidden (below ptr ''name'')) (\<lambda>_.
        validate_listed header_value_ok vs ptr))))"
| "validate_leaf ext target ptr (Cond_Query name vs) =
     (let ptr = below ptr ''query'' in
      and_then (require_target target HttpPath ptr) (\<lambda>_.
      and_then (require (is_printable_text name MAX_CONDITION_NAME_BYTES) IC_ConditionValueInvalid (below ptr ''name'')) (\<lambda>_.
      and_then (require (query_name_is_readable name) IC_ConditionNameForbidden (below ptr ''name'')) (\<lambda>_.
        validate_text_values vs ptr True))))"
| "validate_leaf ext target ptr (Cond_ToolArgument arg vs) =
     (let ptr = below ptr ''tool_argument'' in
      and_then (require_target target ToolName ptr) (\<lambda>_.
      and_then (require (is_bounded_json_pointer arg) IC_ConditionPointerInvalid (below ptr ''pointer'')) (\<lambda>_.
        validate_listed argument_value_ok vs ptr)))"
| "validate_leaf ext target ptr (Cond_TimeWindow from_text until_text) =
     validate_time_window ext from_text until_text (below ptr ''time_window'')"
| "validate_leaf ext target ptr _ = Inr ()"

text \<open>
  \<open>validate_node\<close> with its mutable count of nodes: the count before, and on success the count after. A list of
  operands is validated in order, each one level deeper.
\<close>

fun validate_node ::
    "'net externals \<Rightarrow> ConditionTarget \<Rightarrow> string \<Rightarrow> nat \<Rightarrow> nat \<Rightarrow> Condition \<Rightarrow> (PolicyIssue, nat) result"
and validate_operands ::
    "'net externals \<Rightarrow> ConditionTarget \<Rightarrow> string \<Rightarrow> nat \<Rightarrow> nat \<Rightarrow> nat \<Rightarrow> Condition list \<Rightarrow> (PolicyIssue, nat) result" where
  "validate_node ext target ptr depth nodes c =
     (if depth > MAX_CONDITION_DEPTH \<or> Suc nodes > MAX_CONDITION_NODES
      then Inl (PolicyIssue_located IC_ConditionTooComplex ptr)
      else (case c of
              Cond_All operands \<Rightarrow>
                let ptr = below ptr ''all'' in
                and_then (require (operands \<noteq> []) IC_ConditionValueInvalid ptr) (\<lambda>_.
                and_then (require (length operands \<le> MAX_CONDITION_BRANCHES) IC_ConditionTooComplex ptr) (\<lambda>_.
                  validate_operands ext target ptr (Suc depth) (Suc nodes) 0 operands))
            | Cond_Any operands \<Rightarrow>
                let ptr = below ptr ''any'' in
                and_then (require (operands \<noteq> []) IC_ConditionValueInvalid ptr) (\<lambda>_.
                and_then (require (length operands \<le> MAX_CONDITION_BRANCHES) IC_ConditionTooComplex ptr) (\<lambda>_.
                  validate_operands ext target ptr (Suc depth) (Suc nodes) 0 operands))
            | Cond_Not operand \<Rightarrow> validate_node ext target (below ptr ''not'') (Suc depth) (Suc nodes) operand
            | leaf \<Rightarrow> and_then (validate_leaf ext target ptr leaf) (\<lambda>_. Inr (Suc nodes))))"
| "validate_operands ext target ptr depth nodes i [] = Inr nodes"
| "validate_operands ext target ptr depth nodes i (c # cs) =
     and_then (validate_node ext target (below ptr (dec_of_nat i)) depth nodes c) (\<lambda>nodes'.
       validate_operands ext target ptr depth nodes' (Suc i) cs)"

definition validate_condition :: "'net externals \<Rightarrow> Condition \<Rightarrow> ConditionTarget \<Rightarrow> string \<Rightarrow> checked" where
  "validate_condition ext c target ptr = and_then (validate_node ext target ptr 1 0 c) (\<lambda>_. Inr ())"

text \<open>The leaves of a tree, in document order, with where they are.\<close>

lemma enumerate_size [termination_simp]:
  assumes "(i, c) \<in> set (List.enumerate n cs)"
  shows "size c < Suc (size_list size cs)"
proof -
  have "c \<in> set cs" using assms by (force simp: enumerate_eq_zip dest: set_zip_rightD)
  then show ?thesis by (simp add: less_Suc_eq_le size_list_estimation')
qed

fun tool_argument_leaves :: "Condition \<Rightarrow> string \<Rightarrow> (string \<times> string) list" where
  "tool_argument_leaves (Cond_All cs) location =
     concat (map (\<lambda>(i, c). tool_argument_leaves c (below (below location ''all'') (dec_of_nat i))) (List.enumerate 0 cs))"
| "tool_argument_leaves (Cond_Any cs) location =
     concat (map (\<lambda>(i, c). tool_argument_leaves c (below (below location ''any'') (dec_of_nat i))) (List.enumerate 0 cs))"
| "tool_argument_leaves (Cond_Not c) location = tool_argument_leaves c (below location ''not'')"
| "tool_argument_leaves (Cond_ToolArgument arg vs) location = [(below (below location ''tool_argument'') ''pointer'', arg)]"
| "tool_argument_leaves _ location = []"

fun claim_leaves :: "Condition \<Rightarrow> string \<Rightarrow> (string \<times> string \<times> string) list" where
  "claim_leaves (Cond_All cs) ptr =
     concat (map (\<lambda>(i, c). claim_leaves c (below (below ptr ''all'') (dec_of_nat i))) (List.enumerate 0 cs))"
| "claim_leaves (Cond_Any cs) ptr =
     concat (map (\<lambda>(i, c). claim_leaves c (below (below ptr ''any'') (dec_of_nat i))) (List.enumerate 0 cs))"
| "claim_leaves (Cond_Not c) ptr = claim_leaves c (below ptr ''not'')"
| "claim_leaves (Cond_Claim iss name vs) ptr = [(iss, name, below ptr ''claim'')]"
| "claim_leaves _ ptr = []"

definition canonical_or_empty :: "string \<Rightarrow> string" where
  "canonical_or_empty iss = (case canonical_issuer iss of Some i \<Rightarrow> i | None \<Rightarrow> [])"

fun canonicalize_condition_issuers :: "Condition \<Rightarrow> Condition" where
  "canonicalize_condition_issuers (Cond_All cs) = Cond_All (map canonicalize_condition_issuers cs)"
| "canonicalize_condition_issuers (Cond_Any cs) = Cond_Any (map canonicalize_condition_issuers cs)"
| "canonicalize_condition_issuers (Cond_Not c) = Cond_Not (canonicalize_condition_issuers c)"
| "canonicalize_condition_issuers (Cond_Organization iss vs) = Cond_Organization (canonical_or_empty iss) vs"
| "canonicalize_condition_issuers (Cond_Scope iss vs) = Cond_Scope (canonical_or_empty iss) vs"
| "canonicalize_condition_issuers (Cond_Claim iss name vs) = Cond_Claim (canonical_or_empty iss) name vs"
| "canonicalize_condition_issuers c = c"

section \<open>Tool arguments a condition may read\<close>

definition COMPOSING_SCHEMA_KEYWORDS :: "string list" where
  "COMPOSING_SCHEMA_KEYWORDS =
     [''$ref'', ''$dynamicRef'', ''allOf'', ''anyOf'', ''oneOf'', ''not'', ''if'', ''then'', ''else'',
      ''dependentSchemas'', ''patternProperties'']"

definition plain_schema :: "json \<Rightarrow> bool" where
  "plain_schema node =
     (case json_as_object node of
        None \<Rightarrow> False
      | Some schema \<Rightarrow>
          (case map_of schema ''writeOnly'' of None \<Rightarrow> True | Some write_only \<Rightarrow> write_only = JBool False)
          \<and> \<not> (case Option.bind (map_of schema ''format'') json_as_str of
                 None \<Rightarrow> False | Some fmt \<Rightarrow> eq_ignore_ascii_case fmt ''password'')
          \<and> \<not> list_ex (\<lambda>keyword. map_of schema keyword \<noteq> None) COMPOSING_SCHEMA_KEYWORDS)"

definition schema_type :: "json \<Rightarrow> string option" where
  "schema_type node = Option.bind (json_get node ''type'') json_as_str"

definition declared_property :: "json \<Rightarrow> string \<Rightarrow> json option" where
  "declared_property node token =
     Option.bind (json_get node ''properties'') (\<lambda>properties.
     Option.bind (json_as_object properties) (\<lambda>members. map_of members token))"

definition unescape_token :: "string \<Rightarrow> string" where
  "unescape_token token = str_replace ''~0'' ''~'' (str_replace ''~1'' ''/'' token)"

fun eligible_from :: "json \<Rightarrow> string list \<Rightarrow> bool" where
  "eligible_from node [] =
     (plain_schema node \<and> schema_type node \<in> Some ` {''string'', ''integer'', ''number'', ''boolean''})"
| "eligible_from node (token # tokens) =
     (plain_schema node \<and> schema_type node = Some ''object''
      \<and> (case declared_property node (unescape_token token) of
           None \<Rightarrow> False
         | Some next \<Rightarrow> eligible_from next tokens))"

definition tool_argument_pointer_eligible :: "json \<Rightarrow> string \<Rightarrow> bool" where
  "tool_argument_pointer_eligible schema ptr =
     (case strip_prefix ptr ''/'' of
        None \<Rightarrow> False
      | Some tokens \<Rightarrow> eligible_from schema (str_split (CHR ''/'') tokens))"

section \<open>Identity mappings\<close>

definition MAX_IDENTITY_MAPPINGS :: nat where "MAX_IDENTITY_MAPPINGS = 256"
definition MAX_IDENTITY_MAPPING_VALUES :: nat where "MAX_IDENTITY_MAPPING_VALUES = 64"
definition MAX_ORGANIZATION_BYTES :: nat where "MAX_ORGANIZATION_BYTES = 256"

definition canonicalize_identity_mapping_issuers :: "IdentityMapping list \<Rightarrow> IdentityMapping list" where
  "canonicalize_identity_mapping_issuers mappings =
     map (\<lambda>mapping. mapping\<lparr>im_issuer := canonical_or_empty (im_issuer mapping)\<rparr>) mappings"

text \<open>A member's count and then a check of each value.\<close>

definition validate_member :: "IssueCode \<Rightarrow> ('a \<Rightarrow> bool) \<Rightarrow> string \<Rightarrow> string \<Rightarrow> 'a list \<Rightarrow> checked" where
  "validate_member code ok ptr member vs =
     and_then (require (length vs \<le> MAX_IDENTITY_MAPPING_VALUES) IC_IdentityMappingValueInvalid (below ptr member)) (\<lambda>_.
       check_each (\<lambda>i v. require (ok v) code (below (below ptr member) (dec_of_nat i))) 0 vs)"

definition validate_values :: "string \<Rightarrow> string \<Rightarrow> string list \<Rightarrow> nat \<Rightarrow> checked" where
  "validate_values ptr member vs max_bytes =
     validate_member IC_IdentityMappingValueInvalid (\<lambda>v. is_bounded_text v max_bytes False) ptr member vs"

definition validate_identity_mapping :: "(string \<times> RoleEntry) list \<Rightarrow> nat \<Rightarrow> IdentityMapping \<Rightarrow> checked" where
  "validate_identity_mapping policy_roles index mapping =
     (let ptr = below ''/identity_mappings'' (dec_of_nat index) in
      and_then (require (str_trim (im_issuer mapping) \<noteq> []) IC_IssuerEmpty (below ptr ''issuer'')) (\<lambda>_.
      and_then (require (length (im_issuer mapping) \<le> MAX_PRINCIPAL_ISSUER_BYTES) IC_IdentityMappingValueInvalid
                  (below ptr ''issuer'')) (\<lambda>_.
      and_then (validate_member IC_AuthMethodUnknown valid_auth_method_name ptr ''auth_methods'' (im_auth_methods mapping)) (\<lambda>_.
      and_then (validate_values ptr ''subjects'' (im_subjects mapping) MAX_PRINCIPAL_SUBJECT_BYTES) (\<lambda>_.
      and_then (validate_values ptr ''organizations'' (im_organizations mapping) MAX_ORGANIZATION_BYTES) (\<lambda>_.
      and_then (validate_values ptr ''claimed_roles'' (im_claimed_roles mapping) MAX_PRINCIPAL_ROLE_BYTES) (\<lambda>_.
      and_then (validate_member IC_IdentityMappingValueInvalid is_scope_token ptr ''scopes'' (im_scopes mapping)) (\<lambda>_.
      and_then (require (im_grant_roles mapping \<noteq> []) IC_IdentityMappingGrantEmpty (below ptr ''grant_roles'')) (\<lambda>_.
        validate_member IC_IdentityMappingRoleUnknown (\<lambda>role. map_of policy_roles role \<noteq> None) ptr ''grant_roles''
          (im_grant_roles mapping))))))))))"

definition validate_identity_mappings :: "IdentityMapping list \<Rightarrow> (string \<times> RoleEntry) list \<Rightarrow> checked" where
  "validate_identity_mappings mappings policy_roles =
     and_then (require (length mappings \<le> MAX_IDENTITY_MAPPINGS) IC_IdentityMappingsTooMany ''/identity_mappings'') (\<lambda>_.
       check_each (validate_identity_mapping policy_roles) 0 mappings)"

section \<open>What validation admits\<close>

fun condition_depth :: "Condition \<Rightarrow> nat" where
  "condition_depth (Cond_All cs) = Suc (foldr max (map condition_depth cs) 0)"
| "condition_depth (Cond_Any cs) = Suc (foldr max (map condition_depth cs) 0)"
| "condition_depth (Cond_Not c) = Suc (condition_depth c)"
| "condition_depth _ = 1"

fun condition_nodes :: "Condition \<Rightarrow> nat" where
  "condition_nodes (Cond_All cs) = Suc (sum_list (map condition_nodes cs))"
| "condition_nodes (Cond_Any cs) = Suc (sum_list (map condition_nodes cs))"
| "condition_nodes (Cond_Not c) = Suc (condition_nodes c)"
| "condition_nodes _ = 1"

definition issuer_ok :: "string \<Rightarrow> bool" where
  "issuer_ok iss = (str_trim iss \<noteq> [] \<and> length iss \<le> MAX_PRINCIPAL_ISSUER_BYTES)"

definition listed_ok :: "('a \<Rightarrow> bool) \<Rightarrow> 'a list \<Rightarrow> bool" where
  "listed_ok ok vs = (vs \<noteq> [] \<and> length vs \<le> MAX_CONDITION_VALUES \<and> list_all ok vs)"

definition window_ok :: "'net externals \<Rightarrow> string option \<Rightarrow> string option \<Rightarrow> bool" where
  "window_ok ext from_text until_text =
     (case (map_option (parse_utc_instant ext) from_text, map_option (parse_utc_instant ext) until_text) of
        (Some (Some t), Some (Some u)) \<Rightarrow> t < u
      | (Some (Some _), None) \<Rightarrow> True
      | (None, Some (Some _)) \<Rightarrow> True
      | _ \<Rightarrow> False)"

text \<open>The shape of a tree, apart from its size: what every node and leaf must be for its target.\<close>

fun condition_shape :: "'net externals \<Rightarrow> ConditionTarget \<Rightarrow> Condition \<Rightarrow> bool" where
  "condition_shape ext target (Cond_All cs) =
     (cs \<noteq> [] \<and> length cs \<le> MAX_CONDITION_BRANCHES \<and> list_all (condition_shape ext target) cs)"
| "condition_shape ext target (Cond_Any cs) =
     (cs \<noteq> [] \<and> length cs \<le> MAX_CONDITION_BRANCHES \<and> list_all (condition_shape ext target) cs)"
| "condition_shape ext target (Cond_Not c) = condition_shape ext target c"
| "condition_shape ext target (Cond_Organization iss vs) =
     (issuer_ok iss \<and> listed_ok (\<lambda>v. is_bounded_text v MAX_CONDITION_VALUE_BYTES False) vs)"
| "condition_shape ext target (Cond_Scope iss vs) = (issuer_ok iss \<and> listed_ok is_scope_token vs)"
| "condition_shape ext target (Cond_Claim iss name vs) =
     (issuer_ok iss \<and> verified_claim_name_problem name = None \<and> listed_ok claim_value_ok vs)"
| "condition_shape ext target (Cond_SourceNetwork cidrs) = listed_ok (canonical_cidr ext) cidrs"
| "condition_shape ext target (Cond_Header name vs) =
     (target = HttpPath \<and> is_lowercase_token name \<and> header_name_is_readable name \<and> listed_ok header_value_ok vs)"
| "condition_shape ext target (Cond_Query name vs) =
     (target = HttpPath \<and> is_printable_text name MAX_CONDITION_NAME_BYTES \<and> query_name_is_readable name
      \<and> listed_ok (\<lambda>v. is_bounded_text v MAX_CONDITION_VALUE_BYTES True) vs)"
| "condition_shape ext target (Cond_ToolArgument arg vs) =
     (target = ToolName \<and> is_bounded_json_pointer arg \<and> listed_ok argument_value_ok vs)"
| "condition_shape ext target (Cond_TimeWindow from_text until_text) = window_ok ext from_text until_text"

lemma validate_listed_Inr [simp]: "validate_listed ok vs ptr = Inr () \<longleftrightarrow> listed_ok ok vs"
  by (auto simp: validate_listed_def validate_value_count_def listed_ok_def check_each_Inr [where ok = ok])

lemma validate_issuer_Inr [simp]: "validate_issuer iss ptr = Inr () \<longleftrightarrow> issuer_ok iss"
  by (simp add: validate_issuer_def issuer_ok_def)

lemma validate_time_window_Inr [simp]:
  "validate_time_window ext from_text until_text ptr = Inr () \<longleftrightarrow> window_ok ext from_text until_text"
  by (cases from_text; cases until_text)
    (auto simp: validate_time_window_def window_ok_def split: option.splits)

lemma validate_leaf_Inr:
  "(case c of Cond_All _ \<Rightarrow> False | Cond_Any _ \<Rightarrow> False | Cond_Not _ \<Rightarrow> False | _ \<Rightarrow> True) \<Longrightarrow>
   validate_leaf ext target ptr c = Inr () \<longleftrightarrow> condition_shape ext target c"
  by (cases c)
    (auto simp: Let_def validate_text_values_def validate_claim_name_def require_target_def validate_value_count_def
      listed_ok_def check_each_Inr [where ok = "canonical_cidr ext"])

lemma foldr_max_le: "foldr max ns (0 :: nat) \<le> d \<longleftrightarrow> list_all (\<lambda>n. n \<le> d) ns"
  by (induction ns) auto

lemma leaf_depth:
  "(case c of Cond_All _ \<Rightarrow> False | Cond_Any _ \<Rightarrow> False | Cond_Not _ \<Rightarrow> False | _ \<Rightarrow> True) \<Longrightarrow>
   condition_depth c = 1 \<and> condition_nodes c = 1"
  by (cases c) simp_all

lemma condition_depth_pos: "1 \<le> condition_depth c"
  by (cases c) simp_all

lemma condition_nodes_pos: "1 \<le> condition_nodes c"
  by (cases c) simp_all

lemmas condition_bounds = MAX_CONDITION_DEPTH_def MAX_CONDITION_NODES_def

declare validate_node.simps(1) [simp del]

lemma validate_operands_Inr:
  assumes "\<And>c ptr nodes n. c \<in> set cs \<Longrightarrow> validate_node ext target ptr depth nodes c = Inr n \<longleftrightarrow>
      n = nodes + condition_nodes c \<and> n \<le> MAX_CONDITION_NODES
      \<and> depth + condition_depth c \<le> Suc MAX_CONDITION_DEPTH \<and> condition_shape ext target c"
    and "cs \<noteq> []"
  shows "validate_operands ext target ptr depth nodes i cs = Inr n \<longleftrightarrow>
    n = nodes + sum_list (map condition_nodes cs) \<and> n \<le> MAX_CONDITION_NODES
    \<and> list_all (\<lambda>c. depth + condition_depth c \<le> Suc MAX_CONDITION_DEPTH) cs
    \<and> list_all (condition_shape ext target) cs"
  using assms
proof (induction cs arbitrary: nodes i)
  case (Cons c cs)
  have c: "validate_node ext target ptr' depth nodes' c = Inr n' \<longleftrightarrow>
      n' = nodes' + condition_nodes c \<and> n' \<le> MAX_CONDITION_NODES
      \<and> depth + condition_depth c \<le> Suc MAX_CONDITION_DEPTH \<and> condition_shape ext target c" for ptr' nodes' n'
    using Cons.prems(1) by simp
  show ?case
  proof (cases "cs = []")
    case True
    then show ?thesis by (auto simp: and_then_eq_Inr c)
  next
    case False
    with Cons.IH Cons.prems(1) show ?thesis by (auto simp: and_then_eq_Inr c)
  qed
qed simp

lemma operands_depth:
  assumes "cs \<noteq> []"
  shows "depth + Suc (foldr max (map condition_depth cs) 0) \<le> Suc MAX_CONDITION_DEPTH \<longleftrightarrow>
     depth \<le> MAX_CONDITION_DEPTH \<and> list_all (\<lambda>c. Suc depth + condition_depth c \<le> Suc MAX_CONDITION_DEPTH) cs"
proof (cases "depth \<le> MAX_CONDITION_DEPTH")
  case True
  then have "depth + Suc m \<le> Suc MAX_CONDITION_DEPTH \<longleftrightarrow> m \<le> MAX_CONDITION_DEPTH - depth"
    "Suc depth + m \<le> Suc MAX_CONDITION_DEPTH \<longleftrightarrow> m \<le> MAX_CONDITION_DEPTH - depth" for m by arith+
  with True show ?thesis by (simp only: foldr_max_le) (simp add: list_all_iff)
qed simp

lemma validate_node_Inr:
  "validate_node ext target ptr depth nodes c = Inr n \<longleftrightarrow>
     n = nodes + condition_nodes c \<and> n \<le> MAX_CONDITION_NODES
     \<and> depth + condition_depth c \<le> Suc MAX_CONDITION_DEPTH \<and> condition_shape ext target c"
proof (induction c arbitrary: ptr depth nodes n)
  case (Cond_All cs)
  show ?case
  proof (cases "cs = []")
    case False
    then show ?thesis using operands_depth [OF False, of depth]
      by (auto simp: validate_node.simps Let_def validate_operands_Inr [OF Cond_All.IH False])
  qed (simp add: validate_node.simps require_def Let_def)
next
  case (Cond_Any cs)
  show ?case
  proof (cases "cs = []")
    case False
    then show ?thesis using operands_depth [OF False, of depth]
      by (auto simp: validate_node.simps Let_def validate_operands_Inr [OF Cond_Any.IH False])
  qed (simp add: validate_node.simps require_def Let_def)
next
  case (Cond_Not c)
  then show ?case using condition_depth_pos [of c] by (auto simp: validate_node.simps)
qed (auto simp: validate_node.simps validate_leaf_Inr simp del: validate_leaf.simps)

lemma validate_condition_Inr:
  "validate_condition ext c target ptr = Inr () \<longleftrightarrow>
     condition_depth c \<le> 4 \<and> condition_nodes c \<le> 32 \<and> condition_shape ext target c"
  by (auto simp: validate_condition_def and_then_eq_Inr validate_node_Inr condition_bounds)

text \<open>
  C21. Validation of conditions is exact. A rule's condition tree is admitted if and only if it nests at most four
  levels, holds at most 32 nodes, every combinator lists one to sixteen operands, and every leaf is one its target may
  read with values in range: the counter threaded through the traversal and the early returns add up to exactly
  that, whatever the order of the operands.
\<close>

theorem condition_validation_exact:
  "validate_condition ext c target ptr = Inr () \<longleftrightarrow>
     condition_depth c \<le> 4 \<and> condition_nodes c \<le> 32 \<and> condition_shape ext target c"
  by (rule validate_condition_Inr)

section \<open>A validated condition is decided\<close>

fun condition_issuers :: "Condition \<Rightarrow> string list" where
  "condition_issuers (Cond_All cs) = concat (map condition_issuers cs)"
| "condition_issuers (Cond_Any cs) = concat (map condition_issuers cs)"
| "condition_issuers (Cond_Not c) = condition_issuers c"
| "condition_issuers (Cond_Organization iss _) = [iss]"
| "condition_issuers (Cond_Scope iss _) = [iss]"
| "condition_issuers (Cond_Claim iss _ _) = [iss]"
| "condition_issuers _ = []"

fun condition_claims :: "Condition \<Rightarrow> string list" where
  "condition_claims (Cond_All cs) = concat (map condition_claims cs)"
| "condition_claims (Cond_Any cs) = concat (map condition_claims cs)"
| "condition_claims (Cond_Not c) = condition_claims c"
| "condition_claims (Cond_Claim _ name _) = [name]"
| "condition_claims _ = []"

text \<open>Every fact was captured, and of the claims every one that is asked for.\<close>

definition complete_facts :: "string list \<Rightarrow> PolicyFacts \<Rightarrow> bool" where
  "complete_facts names facts =
     (pf_organization facts \<noteq> Uncaptured \<and> pf_scopes facts \<noteq> Uncaptured \<and> pf_source_ip facts \<noteq> Uncaptured
      \<and> pf_headers facts \<noteq> Uncaptured \<and> pf_query facts \<noteq> Uncaptured \<and> pf_tool_arguments facts \<noteq> Uncaptured
      \<and> pf_now facts \<noteq> Uncaptured
      \<and> (case pf_claims facts of
           Uncaptured \<Rightarrow> False
         | Captured claims \<Rightarrow> list_all (\<lambda>name. find (\<lambda>claim. claim_name claim = name) claims \<noteq> None) names))"

lemma complete_facts_append [simp]:
  "complete_facts (xs @ ys) facts \<longleftrightarrow> complete_facts xs facts \<and> complete_facts ys facts"
  by (auto simp: complete_facts_def split: Fact.splits)

lemma complete_facts_concat:
  "complete_facts (concat xss) facts \<Longrightarrow> xs \<in> set xss \<Longrightarrow> complete_facts xs facts"
  by (induction xss) auto

lemma Truth_and_then_decided: "a \<noteq> TUnknown \<Longrightarrow> b \<noteq> TUnknown \<Longrightarrow> Truth_and_then a b \<noteq> TUnknown"
  by (cases a) simp_all

lemma Truth_or_else_decided: "a \<noteq> TUnknown \<Longrightarrow> b \<noteq> TUnknown \<Longrightarrow> Truth_or_else a b \<noteq> TUnknown"
  by (cases a) simp_all

lemma foldl_decided:
  assumes "\<And>a b. a \<noteq> TUnknown \<Longrightarrow> b \<noteq> TUnknown \<Longrightarrow> f a b \<noteq> TUnknown"
  shows "a \<noteq> TUnknown \<Longrightarrow> (\<And>x. x \<in> set xs \<Longrightarrow> g x \<noteq> TUnknown) \<Longrightarrow> foldl (\<lambda>t x. f t (g x)) a xs \<noteq> TUnknown"
  by (induction xs arbitrary: a) (auto simp: assms)

lemma Truth_of_decided [simp]: "Truth_of b \<noteq> TUnknown"
  by (simp add: Truth_of_def)

lemma collect_options_Some: "list_all (\<lambda>x. x \<noteq> None) xs \<Longrightarrow> collect_options xs \<noteq> None"
  by (induction xs rule: collect_options.induct) auto

lemma shape_decided:
  "condition_shape ext target c \<Longrightarrow> list_all (\<lambda>iss. canonical_issuer iss \<noteq> None) (condition_issuers c)
   \<Longrightarrow> complete_facts (condition_claims c) facts
   \<Longrightarrow> evaluate ext (CompiledCondition_new ext c) caller facts \<noteq> TUnknown"
proof (induction c)
  case (Cond_All cs)
  then have "evaluate ext (CompiledCondition_new ext c) caller facts \<noteq> TUnknown" if "c \<in> set cs" for c
    using that complete_facts_concat [of "map condition_claims cs" facts "condition_claims c"]
    by (auto simp: list_all_iff)
  then show ?case by simp (rule foldl_decided [of Truth_and_then], rule Truth_and_then_decided, auto)
next
  case (Cond_Any cs)
  then have "evaluate ext (CompiledCondition_new ext c) caller facts \<noteq> TUnknown" if "c \<in> set cs" for c
    using that complete_facts_concat [of "map condition_claims cs" facts "condition_claims c"]
    by (auto simp: list_all_iff)
  then show ?case by simp (rule foldl_decided [of Truth_or_else], rule Truth_or_else_decided, auto)
next
  case (Cond_Not c)
  then have "evaluate ext (CompiledCondition_new ext c) caller facts \<noteq> TUnknown" by simp
  then show ?case by (cases "evaluate ext (CompiledCondition_new ext c) caller facts") simp_all
next
  case (Cond_SourceNetwork cidrs)
  then have "list_all (\<lambda>x. x \<noteq> None) (map (ext_parse_net ext) cidrs)"
    by (auto simp: listed_ok_def canonical_cidr_def list_all_iff split: option.splits)
  then obtain networks where "collect_options (map (ext_parse_net ext) cidrs) = Some networks"
    using collect_options_Some by blast
  with Cond_SourceNetwork show ?case by (auto simp: complete_facts_def split: Fact.splits)
next
  case (Cond_TimeWindow from_text until_text)
  then show ?case
    by (cases from_text; cases until_text)
      (auto simp: window_ok_def complete_facts_def split: option.splits Fact.splits)
qed (auto simp: complete_facts_def split: Fact.splits option.splits)


text \<open>A tree of every shape that \<open>sample_externals\<close> can read, and facts that answer it.\<close>

definition sample_condition :: Condition where
  "sample_condition =
     Cond_All [Cond_Not (Cond_Header ''x-env'' [''prod'']), Cond_Claim ''idp'' ''team'' [JString ''a''],
               Cond_SourceNetwork [''10.0.0.0/8'']]"

definition sample_facts :: PolicyFacts where
  "sample_facts =
     \<lparr>pf_organization = Captured None, pf_scopes = Captured [],
      pf_claims = Captured [\<lparr>claim_name = ''team'', claim_values = [JString ''a'']\<rparr>],
      pf_source_ip = Captured (V4 0), pf_headers = Captured [], pf_query = Captured [],
      pf_tool_arguments = Captured JNull, pf_now = Captured 0\<rparr>"

lemma sample_condition_valid: "validate_condition sample_externals sample_condition HttpPath ''/c'' = Inr ()"
  unfolding validate_condition_Inr
  by (simp add: sample_condition_def listed_ok_def issuer_ok_def
      is_lowercase_token_def header_name_is_readable_def FORBIDDEN_HEADER_NAMES_def FORBIDDEN_HEADER_PREFIXES_def
      FORBIDDEN_HEADER_FRAGMENTS_def header_value_ok_def canonical_cidr_def sample_externals_def MAX_CONDITION_VALUES_def
      MAX_CONDITION_NAME_BYTES_def MAX_CONDITION_VALUE_BYTES_def MAX_CONDITION_BRANCHES_def MAX_PRINCIPAL_ISSUER_BYTES_def
      is_verified_claim_text_def MAX_VERIFIED_CLAIM_VALUE_BYTES_def verified_claim_name_problem_def
      MAX_VERIFIED_CLAIM_NAME_BYTES_def RESERVED_CLAIM_NAMES_def CREDENTIAL_CLAIM_FRAGMENTS_def eval_defs)


section \<open>Validated identity mappings\<close>

lemma validate_member_Inr [simp]:
  "validate_member code ok ptr member vs = Inr () \<longleftrightarrow> length vs \<le> MAX_IDENTITY_MAPPING_VALUES \<and> list_all ok vs"
  by (simp add: validate_member_def check_each_Inr [where ok = ok])

text \<open>
  C26. Mapped roles stay inside the policy. When validation admitted the identity mappings, every role a principal
  holds through them is one the policy's \<open>roles\<close> defines, whatever roles the principal claims.
\<close>

theorem validated_mappings_grant_defined_roles:
  assumes "validate_identity_mappings mappings policy_roles = Inr ()"
    and "effective_roles mappings p facts = Some held"
  shows "set held \<subseteq> set (map fst policy_roles)"
proof -
  let ?ok = "\<lambda>mapping. validate_identity_mapping policy_roles 0 mapping = Inr ()"
  have "validate_identity_mapping policy_roles i mapping = Inr () \<longleftrightarrow> ?ok mapping" for i mapping
    by (simp add: validate_identity_mapping_def validate_values_def Let_def)
  then have ok: "list_all ?ok mappings"
    using assms(1) by (simp add: validate_identity_mappings_def check_each_Inr [where ok = ?ok])
  have "role \<in> set (map fst policy_roles)" if "mapping \<in> set mappings" "role \<in> set (im_grant_roles mapping)" for mapping role
    using ok that by (force simp: list_all_iff validate_identity_mapping_def Let_def map_of_eq_None_iff)
  then show ?thesis
    using assms(2) by (auto simp: effective_roles_def effective_roles_loop_eq split: if_splits)
qed

definition sample_mappings :: "IdentityMapping list" where
  "sample_mappings =
     [\<lparr>im_id = ''m'', im_issuer = ''idp'', im_auth_methods = [], im_subjects = [], im_organizations = [],
       im_claimed_roles = [''admin''], im_scopes = [], im_grant_roles = [''ops'']\<rparr>]"

definition sample_roles :: "(string \<times> RoleEntry) list" where
  "sample_roles =
     [(''ops'', \<lparr>re_permissions = [''api:read''], re_issuers = [], re_auth_methods = [], re_description = None\<rparr>)]"

definition sample_admin :: Principal where
  "sample_admin =
     \<lparr>user_id = ''ada'', issuer = Some ''idp'', email = None, org_id = None, roles = [''admin''],
      session_id = [], auth_method = Bearer, scopes = None, verified_claims = []\<rparr>"

theorem validated_mappings_grant_defined_roles_witness:
  "validate_identity_mappings sample_mappings sample_roles = Inr ()
   \<and> effective_roles sample_mappings sample_admin uncaptured = Some [''ops'']
   \<and> {''ops''} \<subseteq> set (map fst sample_roles)"
proof -
  have "validate_identity_mappings sample_mappings sample_roles = Inr ()"
    by (simp add: validate_identity_mappings_def validate_identity_mapping_def validate_values_def Let_def
        sample_mappings_def sample_roles_def MAX_IDENTITY_MAPPINGS_def MAX_IDENTITY_MAPPING_VALUES_def
        MAX_PRINCIPAL_ISSUER_BYTES_def MAX_PRINCIPAL_ROLE_BYTES_def is_bounded_text_def
        validate_member_def require_def eval_defs)
  moreover have "effective_roles sample_mappings sample_admin uncaptured = Some [''ops'']"
    by (simp add: sample_mappings_def sample_admin_def uncaptured_def eval_defs)
  ultimately show ?thesis using validated_mappings_grant_defined_roles by fastforce
qed

section \<open>Eligible tool arguments\<close>

text \<open>The schema reached from \<open>node\<close> through declared properties.\<close>

fun schema_at :: "json \<Rightarrow> string list \<Rightarrow> json option" where
  "schema_at node [] = Some node"
| "schema_at node (token # tokens) =
     Option.bind (declared_property node (unescape_token token)) (\<lambda>next. schema_at next tokens)"

definition step_ok :: "json \<Rightarrow> string list \<Rightarrow> nat \<Rightarrow> bool" where
  "step_ok schema tokens k =
     (case schema_at schema (take k tokens) of
        None \<Rightarrow> False
      | Some node \<Rightarrow>
          plain_schema node
          \<and> schema_type node \<in> Some ` (if k = length tokens then {''string'', ''integer'', ''number'', ''boolean''}
                                       else {''object''}))"

lemma eligible_from_steps: "eligible_from node tokens \<longleftrightarrow> (\<forall>k \<le> length tokens. step_ok node tokens k)"
proof (induction tokens arbitrary: node)
  case Nil
  then show ?case by (simp add: step_ok_def)
next
  case (Cons token tokens)
  have split: "(\<forall>k \<le> length (token # tokens). step_ok node (token # tokens) k) \<longleftrightarrow>
      step_ok node (token # tokens) 0 \<and> (\<forall>k \<le> length tokens. step_ok node (token # tokens) (Suc k))"
    using All_less_Suc2 [of "Suc (length tokens)" "step_ok node (token # tokens)"] by (simp add: less_Suc_eq_le)
  have "step_ok node (token # tokens) (Suc k) \<longleftrightarrow>
      (case declared_property node (unescape_token token) of None \<Rightarrow> False | Some next \<Rightarrow> step_ok next tokens k)" for k
    by (cases "declared_property node (unescape_token token)") (simp_all add: step_ok_def)
  then show ?case
    unfolding split
    by (cases "declared_property node (unescape_token token)") (auto simp: Cons.IH, auto simp: step_ok_def)
qed

text \<open>
  A condition reads only declared, plain scalars. A tool-argument pointer is eligible exactly if every schema
  from the root to the one it names is reached through declared properties, is an object schema on the way and of one
  scalar type at the end, and nowhere is write-only, a password or composed of other schemas.
\<close>

theorem tool_argument_pointer_eligible_exact:
  "tool_argument_pointer_eligible schema ptr \<longleftrightarrow>
     starts_with ptr ''/'' \<and>
     (\<forall>k \<le> length (str_split (CHR ''/'') (drop 1 ptr)). step_ok schema (str_split (CHR ''/'') (drop 1 ptr)) k)"
  by (simp add: tool_argument_pointer_eligible_def strip_prefix_def eligible_from_steps)

definition sample_schema :: json where
  "sample_schema =
     JObject [(''type'', JString ''object''),
              (''properties'', JObject [(''a'', JObject [(''type'', JString ''string'')]),
                                        (''b'', JObject [(''type'', JString ''string''), (''writeOnly'', JBool True)])])]"

theorem tool_argument_pointer_eligible_exact_witness:
  "step_ok sample_schema [''a''] 1 \<and> \<not> step_ok sample_schema [''b''] 1 \<and> \<not> tool_argument_pointer_eligible sample_schema ''/b''"
proof -
  have plain: "plain_schema sample_schema" "schema_type sample_schema = Some ''object''"
    by (simp_all add: sample_schema_def plain_schema_def schema_type_def COMPOSING_SCHEMA_KEYWORDS_def json_get_def)
  have "tool_argument_pointer_eligible sample_schema ''/a''"
    by (simp add: tool_argument_pointer_eligible_def strip_prefix_def starts_with_def plain)
      (simp add: sample_schema_def declared_property_def unescape_token_def starts_with_def plain_schema_def schema_type_def
        COMPOSING_SCHEMA_KEYWORDS_def json_get_def)
  then have "step_ok sample_schema [''a''] 1"
    using tool_argument_pointer_eligible_exact [of sample_schema "''/a''"] by simp
  moreover have "\<not> step_ok sample_schema [''b''] 1"
    by (simp add: step_ok_def sample_schema_def declared_property_def unescape_token_def starts_with_def plain_schema_def json_get_def)
  then have "\<not> tool_argument_pointer_eligible sample_schema ''/b''"
    using tool_argument_pointer_eligible_exact [of sample_schema "''/b''"] by auto
  ultimately show ?thesis
    by (simp add: step_ok_def sample_schema_def declared_property_def unescape_token_def starts_with_def plain_schema_def json_get_def)
qed

end
