(* ===== verification/Policy_Validation.thy ===== *)
theory Policy_Validation
  imports Condition_Validation
begin

text \<open>
  Semantic validation of a policy document (\<open>gateway-config/src/rbac/policy.rs\<close>): the schema version, the members a
  0.x document may not carry, and every section in the order \<open>check_semantics\<close> takes them, with the canonical form
  issuers are given before. The maps of roles and tools are association lists with distinct names, read in name
  order as the source sorts them. The scheme of a parsed URL (the \<open>url\<close> crate) is the argument \<open>scheme_of\<close>;
  network parsing is a field of \<open>externals\<close>. Reading the typed document from JSON is the generated
  \<open>Deserialize\<close> code and is not modelled.
\<close>

section \<open>Schema versions\<close>

definition POLICY_V1_SCHEMA_VERSION :: string where
  "POLICY_V1_SCHEMA_VERSION = ''1.0.0''"

datatype PolicySchema = SchemaV0 | SchemaV1

definition PolicySchema_of_version :: "string \<Rightarrow> PolicySchema option" where
  "PolicySchema_of_version version =
     (if version = POLICY_V1_SCHEMA_VERSION then Some SchemaV1
      else if starts_with version ''0.'' then Some SchemaV0
      else None)"

definition PolicySchema_of_document :: "json \<Rightarrow> PolicySchema option" where
  "PolicySchema_of_document document =
     Option.bind (Option.bind (json_get document ''schema_version'') json_as_str) PolicySchema_of_version"

definition is_document_format_v1 :: "Policy \<Rightarrow> bool" where
  "is_document_format_v1 policy = (PolicySchema_of_version (pol_schema_version policy) = Some SchemaV1)"

definition uses_role_descriptions :: "Policy \<Rightarrow> bool" where
  "uses_role_descriptions policy = list_ex (\<lambda>(_, role). re_description role \<noteq> None) (pol_roles policy)"

definition uses_rule_conditions :: "Policy \<Rightarrow> bool" where
  "uses_rule_conditions policy = list_ex (\<lambda>rule. rule_conditions rule \<noteq> None) (pol_rules policy)"

definition uses_tool_argument_conditions :: "Policy \<Rightarrow> bool" where
  "uses_tool_argument_conditions policy =
     list_ex (\<lambda>rule. case rule_conditions rule of
                       None \<Rightarrow> False
                     | Some conditions \<Rightarrow> tool_argument_leaves conditions [] \<noteq> []) (pol_rules policy)"

section \<open>Canonical issuers\<close>

fun canonicalize_issuer_list_from :: "string list \<Rightarrow> string list \<Rightarrow> string list" where
  "canonicalize_issuer_list_from seen [] = []"
| "canonicalize_issuer_list_from seen (iss # issuers) =
     (let i = canonical_or_empty iss in
      if i \<in> set seen then canonicalize_issuer_list_from seen issuers
      else i # canonicalize_issuer_list_from (i # seen) issuers)"

definition canonicalize_issuer_list :: "string list \<Rightarrow> string list" where
  "canonicalize_issuer_list issuers = canonicalize_issuer_list_from [] issuers"

definition canonicalize_principal_matcher_issuers :: "PrincipalMatcher \<Rightarrow> PrincipalMatcher" where
  "canonicalize_principal_matcher_issuers p = p\<lparr>pm_issuers := canonicalize_issuer_list (pm_issuers p)\<rparr>"

definition canonicalize_issuers :: "Policy \<Rightarrow> Policy" where
  "canonicalize_issuers policy =
     policy\<lparr>
       pol_roles := map (\<lambda>(name, role). (name, role\<lparr>re_issuers := canonicalize_issuer_list (re_issuers role)\<rparr>))
                      (pol_roles policy),
       pol_rules := map (\<lambda>rule. rule\<lparr>rule_principal := canonicalize_principal_matcher_issuers (rule_principal rule),
                                     rule_conditions := map_option canonicalize_condition_issuers (rule_conditions rule)\<rparr>)
                      (pol_rules policy),
       pol_identity_mappings := map_option canonicalize_identity_mapping_issuers (pol_identity_mappings policy),
       pol_rate_limits := map (\<lambda>rule. rule\<lparr>rl_principal := canonicalize_principal_matcher_issuers (rl_principal rule)\<rparr>)
                            (pol_rate_limits policy),
       pol_tools := map (\<lambda>(name, tool). (name, tool\<lparr>tp_issuers := canonicalize_issuer_list (tp_issuers tool)\<rparr>))
                      (pol_tools policy)\<rparr>"

section \<open>Shared checks\<close>

definition pointer_token :: "string \<Rightarrow> string" where
  "pointer_token raw = str_replace ''/'' ''~1'' (str_replace ''~'' ''~0'' raw)"

definition validate_identity_constraints :: "string list \<Rightarrow> string list \<Rightarrow> string \<Rightarrow> checked" where
  "validate_identity_constraints issuers auth_methods ptr =
     and_then (check_each (\<lambda>i iss. require (str_trim iss \<noteq> []) IC_IssuerEmpty (below (below ptr ''issuers'') (dec_of_nat i)))
                 0 issuers) (\<lambda>_.
       check_each (\<lambda>i m. require (valid_auth_method_name m) IC_AuthMethodUnknown
                           (below (below ptr ''auth_methods'') (dec_of_nat i))) 0 auth_methods)"

definition validate_principal_matcher :: "PrincipalMatcher \<Rightarrow> string \<Rightarrow> checked" where
  "validate_principal_matcher p ptr = validate_identity_constraints (pm_issuers p) (pm_auth_methods p) ptr"

definition is_valid_hostname_label :: "string \<Rightarrow> bool" where
  "is_valid_hostname_label label =
     (label \<noteq> [] \<and> length label \<le> 63 \<and> \<not> starts_with label ''-'' \<and> \<not> ends_with label ''-''
      \<and> list_all (\<lambda>b. is_ascii_alphanumeric b \<or> b = CHR ''-'') label)"

definition is_valid_hostname_without_port :: "string \<Rightarrow> bool" where
  "is_valid_hostname_without_port host =
     (host \<noteq> [] \<and> length host \<le> 253 \<and> \<not> str_contains host '':''
      \<and> list_all is_valid_hostname_label (str_split (CHR ''.'') host))"

definition is_valid_egress_host_pattern :: "string \<Rightarrow> bool" where
  "is_valid_egress_host_pattern pat =
     (if str_trim pat \<noteq> pat then False
      else (case strip_prefix pat ''*.'' of
              Some rest \<Rightarrow> is_valid_hostname_without_port rest
            | None \<Rightarrow> \<not> str_contains pat ''*'' \<and> is_valid_hostname_without_port pat))"

text \<open>An absolute path whose captures are well-formed.\<close>

definition validate_path_pattern :: "string \<Rightarrow> string \<Rightarrow> checked" where
  "validate_path_pattern path ptr =
     and_then (require (starts_with path ''/'') IC_PathNotAbsolute ptr) (\<lambda>_.
       require (find_malformed_capture_segment path = None) IC_PathCaptureMalformed ptr)"

section \<open>Members only policy v1 has\<close>

definition validate_v0_has_no_v1_members :: "Policy \<Rightarrow> checked" where
  "validate_v0_has_no_v1_members policy =
     and_then (require (pol_identity_mappings policy = None) IC_MemberRequiresV1 ''/identity_mappings'') (\<lambda>_.
     and_then (check_each (\<lambda>i rule. require (rule_conditions rule = None) IC_MemberRequiresV1
                             (below (below ''/rules'' (dec_of_nat i)) ''conditions'')) 0 (pol_rules policy)) (\<lambda>_.
     and_then (check_each (\<lambda>i route. require (rr_id route = None) IC_MemberRequiresV1
                             (below (below ''/routes'' (dec_of_nat i)) ''id'')) 0 (pol_routes policy)) (\<lambda>_.
       check_each (\<lambda>i rule. require (rl_id rule = None) IC_MemberRequiresV1
                              (below (below ''/rate_limits'' (dec_of_nat i)) ''id'')) 0 (pol_rate_limits policy))))"

section \<open>Routes\<close>

fun validate_route_hosts :: "string \<Rightarrow> nat \<Rightarrow> string list \<Rightarrow> string list \<Rightarrow> checked" where
  "validate_route_hosts ptr i seen [] = Inr ()"
| "validate_route_hosts ptr i seen (host # hosts) =
     and_then (require (str_trim host = host \<and> is_valid_hostname_without_port host) IC_RouteHostInvalid
                 (below ptr (dec_of_nat i))) (\<lambda>_.
     and_then (require (str_lower host \<notin> set seen) IC_RouteHostDuplicate (below ptr (dec_of_nat i))) (\<lambda>_.
       validate_route_hosts ptr (Suc i) (str_lower host # seen) hosts))"

definition validate_route :: "nat \<Rightarrow> RouteRule \<Rightarrow> checked" where
  "validate_route index route =
     (let ptr = below ''/routes'' (dec_of_nat index) in
      and_then (require (starts_with (rr_path_prefix route) ''/'') IC_PathNotAbsolute (below ptr ''path_prefix'')) (\<lambda>_.
        validate_route_hosts (below ptr ''hosts'') 0 [] (rr_hosts route)))"

definition validate_routes :: "RouteRule list \<Rightarrow> checked" where
  "validate_routes routes = check_each validate_route 0 routes"

section \<open>Direct rules\<close>

fun rule_targets_ok :: "nat \<Rightarrow> json list \<Rightarrow> checked" where
  "rule_targets_ok i [] = Inr ()"
| "rule_targets_ok i (rule # rules) =
     (case json_as_object rule of
        None \<Rightarrow> rule_targets_ok (Suc i) rules
      | Some members \<Rightarrow>
          if (map_of members ''path'' \<noteq> None) = (map_of members ''tool_name'' \<noteq> None)
          then Inl (PolicyIssue_located IC_RuleTargetInvalid (below ''/rules'' (dec_of_nat i)))
          else rule_targets_ok (Suc i) rules)"

definition validate_rule_target_properties :: "json \<Rightarrow> checked" where
  "validate_rule_target_properties document =
     (case Option.bind (json_get document ''rules'') json_as_array of
        None \<Rightarrow> Inr ()
      | Some rules \<Rightarrow> rule_targets_ok 0 rules)"

definition validate_tool_rule :: "string \<Rightarrow> Rule \<Rightarrow> string \<Rightarrow> checked" where
  "validate_tool_rule tool_name rule ptr =
     and_then (require (str_trim tool_name \<noteq> []) IC_ToolNameEmpty (below ptr ''tool_name'')) (\<lambda>_.
     and_then (require (length tool_name \<le> MAX_TOOL_NAME_BYTES) IC_ToolNameTooLong (below ptr ''tool_name'')) (\<lambda>_.
     and_then (require (rule_methods rule = []) IC_ToolRuleMethodsPresent (below ptr ''methods'')) (\<lambda>_.
       require (rule_dispatch rule = None) IC_ToolRuleDispatchPresent (below ptr ''dispatch''))))"

definition http_authority :: "string \<Rightarrow> string option" where
  "http_authority origin =
     (case strip_prefix origin ''http://'' of Some rest \<Rightarrow> Some rest | None \<Rightarrow> strip_prefix origin ''https://'')"

definition validate_rule_dispatch_origin :: "(string \<Rightarrow> string option) \<Rightarrow> string \<Rightarrow> string \<Rightarrow> checked" where
  "validate_rule_dispatch_origin scheme_of origin ptr =
     and_then (require (case http_authority origin of
                          None \<Rightarrow> False
                        | Some authority \<Rightarrow> authority \<noteq> [] \<and> \<not> list_ex (\<lambda>c. c \<in> set ''/?#@'') authority)
                 IC_DispatchOriginInvalid (below ptr ''upstream_origin'')) (\<lambda>_.
       require (scheme_of origin \<in> {Some ''http'', Some ''https''}) IC_DispatchOriginInvalid (below ptr ''upstream_origin''))"

definition validate_rule_dispatch :: "(string \<Rightarrow> string option) \<Rightarrow> RuleDispatchMatcher \<Rightarrow> string \<Rightarrow> checked" where
  "validate_rule_dispatch scheme_of dispatch ptr =
     (case rdm_kind dispatch of
        Contextless \<Rightarrow>
          require (rdm_upstream_origin dispatch = None \<and> rdm_route_id dispatch = None) IC_DispatchMemberNotAllowed ptr
      | Legacy \<Rightarrow>
          and_then (require (rdm_route_id dispatch = None) IC_DispatchMemberNotAllowed (below ptr ''route_id'')) (\<lambda>_.
            (case rdm_upstream_origin dispatch of
               None \<Rightarrow> Inl (PolicyIssue_located IC_DispatchMemberMissing (below ptr ''upstream_origin''))
             | Some origin \<Rightarrow> validate_rule_dispatch_origin scheme_of origin ptr))
      | Route \<Rightarrow>
          and_then (require (rdm_upstream_origin dispatch = None) IC_DispatchMemberNotAllowed (below ptr ''upstream_origin'')) (\<lambda>_.
            (case rdm_route_id dispatch of
               None \<Rightarrow> Inl (PolicyIssue_located IC_DispatchMemberMissing (below ptr ''route_id''))
             | Some rid \<Rightarrow> require (is_valid_stable_route_id rid) IC_DispatchRouteIdInvalid (below ptr ''route_id''))))"

definition validate_rule :: "'net externals \<Rightarrow> (string \<Rightarrow> string option) \<Rightarrow> nat \<Rightarrow> Rule \<Rightarrow> checked" where
  "validate_rule ext scheme_of index rule =
     (let ptr = below ''/rules'' (dec_of_nat index);
          has_path = (rule_path rule \<noteq> []);
          has_tool_name = (rule_tool_name rule \<noteq> None)
      in
      and_then (require (has_path \<noteq> has_tool_name) IC_RuleTargetInvalid ptr) (\<lambda>_.
      and_then (case rule_tool_name rule of None \<Rightarrow> Inr () | Some tool_name \<Rightarrow> validate_tool_rule tool_name rule ptr) (\<lambda>_.
      and_then (case rule_dispatch rule of
                  None \<Rightarrow> Inr ()
                | Some dispatch \<Rightarrow> validate_rule_dispatch scheme_of dispatch (below ptr ''dispatch'')) (\<lambda>_.
      and_then (if has_path then validate_path_pattern (rule_path rule) (below ptr ''path'') else Inr ()) (\<lambda>_.
      and_then (validate_principal_matcher (rule_principal rule) (below ptr ''principal'')) (\<lambda>_.
        (case rule_conditions rule of
           None \<Rightarrow> Inr ()
         | Some conditions \<Rightarrow>
             validate_condition ext conditions (if has_tool_name then ToolName else HttpPath) (below ptr ''conditions''))))))))"

definition validate_rules :: "'net externals \<Rightarrow> (string \<Rightarrow> string option) \<Rightarrow> Rule list \<Rightarrow> checked" where
  "validate_rules ext scheme_of rules = check_each (validate_rule ext scheme_of) 0 rules"

section \<open>Rate limits, roles, tools and egress\<close>

definition positive_rate :: "f64 \<Rightarrow> bool" where
  "positive_rate r = (case r of Finite x \<Rightarrow> 0 < x | _ \<Rightarrow> False)"

definition validate_rate_limit :: "nat \<Rightarrow> RateLimitRule \<Rightarrow> checked" where
  "validate_rate_limit index rule =
     (let ptr = below ''/rate_limits'' (dec_of_nat index) in
      and_then (require (positive_rate (rl_requests_per_second rule)) IC_RateLimitRateInvalid (below ptr ''requests_per_second'')) (\<lambda>_.
      and_then (require (rl_burst rule \<noteq> 0) IC_RateLimitBurstInvalid (below ptr ''burst'')) (\<lambda>_.
      and_then (case rl_path rule of None \<Rightarrow> Inr () | Some path \<Rightarrow> validate_path_pattern path (below ptr ''path'')) (\<lambda>_.
        validate_principal_matcher (rl_principal rule) (below ptr ''principal'')))))"

definition validate_rate_limits :: "RateLimitRule list \<Rightarrow> checked" where
  "validate_rate_limits rules = check_each validate_rate_limit 0 rules"

definition MAX_ROLE_DESCRIPTION_BYTES :: nat where "MAX_ROLE_DESCRIPTION_BYTES = 512"

definition validate_role_description :: "string \<Rightarrow> bool" where
  "validate_role_description description =
     (str_trim description \<noteq> [] \<and> length description \<le> MAX_ROLE_DESCRIPTION_BYTES \<and> \<not> has_control description)"

definition validate_role :: "(string \<times> RoleEntry) list \<Rightarrow> string \<Rightarrow> checked" where
  "validate_role policy_roles name =
     (case map_of policy_roles name of
        None \<Rightarrow> Inr ()
      | Some entry \<Rightarrow>
          let ptr = below ''/roles'' (pointer_token name) in
          and_then (validate_identity_constraints (re_issuers entry) (re_auth_methods entry) ptr) (\<lambda>_.
            (case re_description entry of
               None \<Rightarrow> Inr ()
             | Some description \<Rightarrow>
                 require (validate_role_description description) IC_RoleDescriptionInvalid (below ptr ''description''))))"

definition validate_roles :: "(string \<times> RoleEntry) list \<Rightarrow> checked" where
  "validate_roles policy_roles =
     check_each (\<lambda>_. validate_role policy_roles) 0 (sort (map fst policy_roles))"

definition validate_tool :: "(string \<times> ToolPolicyEntry) list \<Rightarrow> string \<Rightarrow> checked" where
  "validate_tool tools name =
     and_then (require (length name \<le> MAX_TOOL_NAME_BYTES) IC_ToolNameTooLong ''/tools'') (\<lambda>_.
       (case map_of tools name of
          None \<Rightarrow> Inr ()
        | Some entry \<Rightarrow>
            let ptr = below ''/tools'' (pointer_token name) in
            and_then (require (tp_timeout_ms entry \<noteq> 0) IC_ToolTimeoutInvalid (below ptr ''timeout_ms'')) (\<lambda>_.
              validate_identity_constraints (tp_issuers entry) (tp_auth_methods entry) ptr)))"

definition validate_tools :: "(string \<times> ToolPolicyEntry) list \<Rightarrow> checked" where
  "validate_tools tools = check_each (\<lambda>_. validate_tool tools) 0 (sort (map fst tools))"

definition EgressPolicy_validate :: "'net externals \<Rightarrow> EgressPolicy \<Rightarrow> checked" where
  "EgressPolicy_validate ext egress =
     and_then (check_each (\<lambda>i host. require (is_valid_egress_host_pattern host) IC_EgressHostInvalid
                             (below ''/egress/hosts'' (dec_of_nat i))) 0 (ep_hosts egress)) (\<lambda>_.
     and_then (check_each (\<lambda>i cidr. require (ext_parse_net ext cidr \<noteq> None) IC_EgressCidrInvalid
                             (below ''/egress/cidrs'' (dec_of_nat i))) 0 (ep_cidrs egress)) (\<lambda>_.
       check_each (\<lambda>i port. require (port \<noteq> 0) IC_EgressPortInvalid (below ''/egress/ports'' (dec_of_nat i))) 0 (ep_ports egress)))"

definition check_semantics :: "'net externals \<Rightarrow> (string \<Rightarrow> string option) \<Rightarrow> Policy \<Rightarrow> checked" where
  "check_semantics ext scheme_of policy =
     and_then (case PolicySchema_of_version (pol_schema_version policy) of
                 None \<Rightarrow> Inl (PolicyIssue_located IC_SchemaVersionUnsupported ''/schema_version'')
               | Some SchemaV0 \<Rightarrow> validate_v0_has_no_v1_members policy
               | Some SchemaV1 \<Rightarrow> Inr ()) (\<lambda>_.
     and_then (validate_routes (pol_routes policy)) (\<lambda>_.
     and_then (validate_rules ext scheme_of (pol_rules policy)) (\<lambda>_.
     and_then (validate_rate_limits (pol_rate_limits policy)) (\<lambda>_.
     and_then (validate_roles (pol_roles policy)) (\<lambda>_.
     and_then (case pol_identity_mappings policy of
                 None \<Rightarrow> Inr ()
               | Some mappings \<Rightarrow> validate_identity_mappings mappings (pol_roles policy)) (\<lambda>_.
     and_then (validate_tools (pol_tools policy)) (\<lambda>_.
       EgressPolicy_validate ext (pol_egress policy))))))))"

end
