(* ===== verification/Validation_Properties.thy ===== *)
theory Validation_Properties
  imports Policy_Validation Rate_Properties
begin

text \<open>
  What a policy that passed validation gives the components that serve it: path patterns some request can match, rate
  overrides whose limiters work, and, for a 0.x document, decisions that read no facts.
\<close>

section \<open>Sections\<close>

text \<open>A validator's verdict does not depend on the pointer it reports.\<close>

lemma identity_constraints_Inr [simp]:
  "validate_identity_constraints issuers methods ptr = Inr () \<longleftrightarrow>
     list_all (\<lambda>iss. str_trim iss \<noteq> []) issuers \<and> list_all valid_auth_method_name methods"
  by (simp add: validate_identity_constraints_def check_each_Inr [where ok = "\<lambda>iss. str_trim iss \<noteq> []"]
      check_each_Inr [where ok = valid_auth_method_name])

lemma path_pattern_Inr [simp]:
  "validate_path_pattern path ptr = Inr () \<longleftrightarrow> starts_with path ''/'' \<and> find_malformed_capture_segment path = None"
  by (simp add: validate_path_pattern_def)

definition valid_rate_limit :: "RateLimitRule \<Rightarrow> bool" where
  "valid_rate_limit rule =
     (positive_rate (rl_requests_per_second rule) \<and> rl_burst rule \<noteq> 0
      \<and> (case rl_path rule of
           None \<Rightarrow> True
         | Some path \<Rightarrow> starts_with path ''/'' \<and> find_malformed_capture_segment path = None)
      \<and> list_all (\<lambda>iss. str_trim iss \<noteq> []) (pm_issuers (rl_principal rule))
      \<and> list_all valid_auth_method_name (pm_auth_methods (rl_principal rule)))"

lemma validate_rate_limits_Inr: "validate_rate_limits rules = Inr () \<longleftrightarrow> list_all valid_rate_limit rules"
  unfolding validate_rate_limits_def
  by (rule check_each_Inr)
    (auto simp: validate_rate_limit_def valid_rate_limit_def validate_principal_matcher_def Let_def split: option.splits)

definition valid_rule :: "'net externals \<Rightarrow> (string \<Rightarrow> string option) \<Rightarrow> Rule \<Rightarrow> bool" where
  "valid_rule ext scheme_of rule =
     ((rule_path rule \<noteq> []) = (rule_tool_name rule = None)
      \<and> (case rule_tool_name rule of
           None \<Rightarrow> starts_with (rule_path rule) ''/'' \<and> find_malformed_capture_segment (rule_path rule) = None
         | Some name \<Rightarrow> str_trim name \<noteq> [] \<and> length name \<le> MAX_TOOL_NAME_BYTES \<and> rule_methods rule = []
                        \<and> rule_dispatch rule = None)
      \<and> (case rule_dispatch rule of
           None \<Rightarrow> True
         | Some dispatch \<Rightarrow> validate_rule_dispatch scheme_of dispatch [] = Inr ())
      \<and> list_all (\<lambda>iss. str_trim iss \<noteq> []) (pm_issuers (rule_principal rule))
      \<and> list_all valid_auth_method_name (pm_auth_methods (rule_principal rule))
      \<and> (case rule_conditions rule of
           None \<Rightarrow> True
         | Some c \<Rightarrow> condition_depth c \<le> 4 \<and> condition_nodes c \<le> 32
             \<and> condition_shape ext (if rule_tool_name rule = None then HttpPath else ToolName) c))"

lemma dispatch_pointer:
  "validate_rule_dispatch scheme_of dispatch ptr = Inr () \<longleftrightarrow> validate_rule_dispatch scheme_of dispatch [] = Inr ()"
  by (auto simp: validate_rule_dispatch_def validate_rule_dispatch_origin_def split: RuleDispatchKind.splits option.splits)

lemma validate_rules_Inr: "validate_rules ext scheme_of rules = Inr () \<longleftrightarrow> list_all (valid_rule ext scheme_of) rules"
  unfolding validate_rules_def
proof (rule check_each_Inr)
  fix i rule
  show "validate_rule ext scheme_of i rule = Inr () \<longleftrightarrow> valid_rule ext scheme_of rule"
    by (cases "rule_tool_name rule"; cases "rule_dispatch rule"; cases "rule_conditions rule")
      (auto simp: validate_rule_def valid_rule_def validate_tool_rule_def validate_principal_matcher_def Let_def
        validate_condition_Inr dispatch_pointer [where ptr = "below _ _"])
qed

lemma check_semantics_InrD:
  assumes "check_semantics ext scheme_of policy = Inr ()"
  shows "list_all (valid_rule ext scheme_of) (pol_rules policy)" "list_all valid_rate_limit (pol_rate_limits policy)"
    and "PolicySchema_of_version (pol_schema_version policy) = Some SchemaV0 \<Longrightarrow> validate_v0_has_no_v1_members policy = Inr ()"
    and "pol_identity_mappings policy = Some mappings \<Longrightarrow> validate_identity_mappings mappings (pol_roles policy) = Inr ()"
  using assms
  by (auto simp: check_semantics_def validate_rules_Inr validate_rate_limits_Inr split: option.splits PolicySchema.splits)

section \<open>Patterns that can match\<close>

text \<open>A path in the language of a pattern: every wildcard and capture takes the segment \<open>x\<close>.\<close>

fun example_segment :: "PathSegment \<Rightarrow> string" where
  "example_segment (Literal l) = l"
| "example_segment _ = ''x''"

lemma example_segment_new: "example_segment (PathSegment_new s) = s \<or> example_segment (PathSegment_new s) = ''x''"
  by (simp add: PathSegment_new_def)

lemma seg_match_example: "Never \<notin> set ps \<Longrightarrow> seg_match ps (map example_segment ps)"
proof (induction ps)
  case (Cons p ps)
  then have "seg_match ps (map example_segment ps)" by simp
  then show ?case
    using Cons.prems seg_deep [of ps "map example_segment ps" "[''x'']"]
    by (cases p) (auto intro!: seg_one)
qed (simp add: seg_nil)

lemma pattern_satisfiable:
  assumes "starts_with pat ''/''" "find_malformed_capture_segment pat = None"
  shows "\<exists>path. path_pattern_matches pat path"
proof -
  obtain tail where tail: "strip_prefix pat ''/'' = Some tail" using assms(1) by (auto simp: strip_prefix_def)
  let ?segments = "if tail = [] then [] else str_split (CHR ''/'') tail"
  let ?ps = "map PathSegment_new ?segments"
  let ?xs = "map example_segment ?ps"
  have new: "PathPattern_new pat = Some ?ps" by (simp add: PathPattern_new_def absolute_path_segments_def tail)
  then have "Never \<notin> set ?ps" using assms(2) find_malformed_Never [of pat] by auto
  then have match: "seg_match ?ps ?xs" by (rule seg_match_example)
  have "absolute_path_segments (CHR ''/'' # str_join (CHR ''/'') ?xs) = Some ?xs"
  proof (cases "tail = []")
    case False
    have "CHR ''/'' \<notin> set w" if w: "w \<in> set ?xs" for w
    proof -
      obtain v where "v \<in> set (str_split (CHR ''/'') tail)" "w = example_segment (PathSegment_new v)"
        using w False by auto
      then show ?thesis using example_segment_new [of v] str_split_segments [of v "CHR ''/''" tail] by auto
    qed
    then have split: "str_split (CHR ''/'') (str_join (CHR ''/'') ?xs) = ?xs" using False by (intro str_split_join) auto
    moreover have "str_join (CHR ''/'') ?xs \<noteq> []"
    proof
      assume "str_join (CHR ''/'') ?xs = []"
      with split False obtain v where "str_split (CHR ''/'') tail = [v]" "example_segment (PathSegment_new v) = []"
        by (auto simp: map_eq_Cons_conv split: if_splits)
      then have "str_split (CHR ''/'') tail = str_split (CHR ''/'') []" using example_segment_new [of v] by auto
      with False show False by (simp only: str_split_inj)
    qed
    ultimately show ?thesis by (simp add: absolute_path_segments_def strip_prefix_def starts_with_def)
  qed (simp add: absolute_path_segments_def strip_prefix_def starts_with_def)
  with new match show ?thesis
    unfolding path_pattern_matches_def PathPattern_matches_def path_segments_match_iff
    by (intro exI [of _ "CHR ''/'' # str_join (CHR ''/'') ?xs"]) (simp only: option.case)
qed


section \<open>Serving a validated policy\<close>

definition validated_policy :: Policy where
  "validated_policy = (sample_policy [sample_rule ''/v1/{id}'' Allow None])
     \<lparr>pol_schema_version := ''0.1'',
      pol_rate_limits := [\<lparr>rl_id = None, rl_principal = anyone, rl_methods = [''GET''], rl_path = Some ''/v1/**'',
                            rl_requests_per_second = Finite 2, rl_burst = 5\<rparr>]\<rparr>"

lemma validated_policy_ok: "check_semantics sample_externals Some validated_policy = Inr ()"
  by (simp add: check_semantics_def validated_policy_def sample_defs PolicySchema_of_version_def POLICY_V1_SCHEMA_VERSION_def
      validate_v0_has_no_v1_members_def validate_routes_def validate_route_def is_valid_hostname_without_port_def
      is_valid_hostname_label_def validate_rules_Inr valid_rule_def validate_rate_limits_Inr valid_rate_limit_def
      positive_rate_def validate_roles_def validate_role_def validate_tools_def EgressPolicy_validate_def Let_def)
    (simp add: eval_defs)


text \<open>
  C25. The rate overrides of a validated policy work. The stage installed for it holds one override per rule, in
  order, so its selection always finds the bucket of the rule it read, and every override's limiter starts within its
  bounds with a positive finite rate and a burst of at least one, which are
  the hypotheses under which its buckets stay bounded and a burst is exact.
\<close>

theorem validated_policy_rates_enforced:
  assumes "check_semantics ext scheme_of policy = Inr ()"
  shows "stage_ok (assemble ext policy digest authority)
      (RateLimitPolicyState_for_snapshot fingerprint capacity ttl (assemble ext policy digest authority))
   \<and> list_all (\<lambda>ov. \<exists>cfg r. limiter_ok cfg capacity (ov_limiter ov) \<and> ll_requests_per_second cfg = Finite r \<and> 0 < r
         \<and> 0 < ll_burst cfg)
       (ps_overrides (RateLimitPolicyState_for_snapshot fingerprint capacity ttl (assemble ext policy digest authority)))"
proof -
  have ok: "list_all valid_rate_limit (pol_rate_limits policy)" by (rule check_semantics_InrD(2) [OF assms])
  have "list_all (\<lambda>rule. rl_requests_per_second rule \<noteq> NotANumber) (pol_rate_limits policy)"
    using ok by (auto simp: list_all_iff valid_rate_limit_def positive_rate_def)
  then have "stage_ok (assemble ext policy digest authority)
      (RateLimitPolicyState_for_snapshot fingerprint capacity ttl (assemble ext policy digest authority))"
    by (intro stage_ok_for_snapshot) (simp add: assemble_def)
  moreover have "\<exists>cfg r. limiter_ok cfg capacity (ov_limiter (RateLimitOverride_new fingerprint capacity ttl rule))
      \<and> ll_requests_per_second cfg = Finite r \<and> 0 < r \<and> 0 < ll_burst cfg" if rule: "valid_rate_limit rule" for rule
  proof -
    obtain r where r: "rl_requests_per_second rule = Finite r" "0 < r" "rl_burst rule \<noteq> 0"
      using rule by (auto simp: valid_rate_limit_def positive_rate_def split: f64.splits)
    let ?cfg = "\<lparr>ll_requests_per_second = rl_requests_per_second rule, ll_burst = rl_burst rule\<rparr>"
    have "limiter_ok ?cfg capacity (ov_limiter (RateLimitOverride_new fingerprint capacity ttl rule))"
      by (simp add: RateLimitOverride_new_def limiter_ok_new)
    with r show ?thesis by (intro exI [of _ ?cfg] exI [of _ r]) simp
  qed
  ultimately show ?thesis
    using ok by (auto simp: RateLimitPolicyState_for_snapshot_def assemble_def list_all_iff)
qed

theorem validated_policy_rates_enforced_witness:
  "check_semantics sample_externals Some validated_policy = Inr ()
   \<and> stage_ok (assemble sample_externals validated_policy (DigestSource ''d'') Standalone)
       (RateLimitPolicyState_for_snapshot (\<lambda>_. ''f'') 2 9 (assemble sample_externals validated_policy (DigestSource ''d'') Standalone))"
  using validated_policy_rates_enforced [OF validated_policy_ok, of "DigestSource ''d''" Standalone "\<lambda>_. ''f''" 2 9] validated_policy_ok
  by blast

lemma foldl_no_conditions:
  "list_all (\<lambda>rule. rule_conditions rule = None) rules \<Longrightarrow>
   foldl (\<lambda>n rule. case rule_conditions rule of None \<Rightarrow> n | Some c \<Rightarrow> FactNeeds_add n c (rule_tool_name rule)) needs rules = needs"
  by (induction rules) simp_all

text \<open>
  C23. A 0.x policy reads no facts. Validation refuses every member of a 0.x document that reads a fact, so the compiled
  policy asks for none: no lane captures anything for it, and its decisions are those of releases before policy v1.
\<close>

theorem v0_policy_needs_no_facts:
  assumes "check_semantics ext scheme_of policy = Inr ()"
    and "PolicySchema_of_version (pol_schema_version policy) = Some SchemaV0"
  shows "cp_identity (assemble ext policy digest authority) = None
   \<and> cp_fact_needs (assemble ext policy digest authority) =
      \<lparr>fn_organization = False, fn_scopes = False, fn_claims = [], fn_source_ip = False, fn_headers = [], fn_query = [],
       fn_tool_arguments = [], fn_now = False\<rparr>"
proof -
  have v0: "validate_v0_has_no_v1_members policy = Inr ()" by (rule check_semantics_InrD(3) [OF assms])
  then have rules: "list_all (\<lambda>rule. rule_conditions rule = None) (pol_rules policy)" and "pol_identity_mappings policy = None"
    by (auto simp: validate_v0_has_no_v1_members_def check_each_Inr [where ok = "\<lambda>rule. rule_conditions rule = None"])
  then show ?thesis by (simp add: assemble_def FactNeeds_of_def sort_dedup_def Let_def foldl_no_conditions [OF rules])
qed

theorem v0_policy_needs_no_facts_witness:
  "PolicySchema_of_version (pol_schema_version validated_policy) = Some SchemaV0
   \<and> cp_identity (assemble sample_externals validated_policy (DigestSource ''d'') Standalone) = None"
proof -
  have "PolicySchema_of_version (pol_schema_version validated_policy) = Some SchemaV0"
    by (simp add: validated_policy_def PolicySchema_of_version_def POLICY_V1_SCHEMA_VERSION_def starts_with_def)
  with v0_policy_needs_no_facts [OF validated_policy_ok this] show ?thesis by blast
qed

section \<open>Issuers that stay without a canonical form\<close>

text \<open>
  Canonical issuers are not a fixed point of canonicalization: slashes are trimmed after white space, so white space before
  the slashes is left at the end. A condition on the issuer \<open>/ /\<close> is therefore canonicalized to one that validation
  admits and that still does not compile.
\<close>

lemma canonical_issuer_not_idempotent:
  "canonical_issuer ''a /'' = Some ''a '' \<and> canonical_issuer ''a '' = Some ''a''"
  by code_simp

lemma validated_issuer_unusable:
  "canonicalize_condition_issuers (Cond_Organization ''/ /'' [''acme'']) = Cond_Organization ''/ '' [''acme'']
   \<and> validate_condition sample_externals (Cond_Organization ''/ '' [''acme'']) HttpPath ''/c'' = Inr ()
   \<and> CompiledCondition_new sample_externals (Cond_Organization ''/ '' [''acme'']) = CC_Unusable"
proof -
  have canon: "canonical_issuer ''/ /'' = Some ''/ ''" "canonical_issuer ''/ '' = None" by code_simp+
  moreover have "str_trim ''/ '' = ''/''" "is_bounded_text ''acme'' MAX_CONDITION_VALUE_BYTES False" by code_simp+
  ultimately show ?thesis
    by (simp add: canonical_or_empty_def validate_condition_Inr listed_ok_def issuer_ok_def MAX_PRINCIPAL_ISSUER_BYTES_def
        MAX_CONDITION_VALUES_def MAX_CONDITION_DEPTH_def MAX_CONDITION_NODES_def)
qed

end
