(* ===== verification/Canonical_Json.thy ===== *)
theory Canonical_Json
  imports Number_Text Binding_Properties
begin

text \<open>
  RFC 8785 canonical JSON and the digests over it (\<open>gateway-config/src/canonical_json.rs\<close>). A string is its UTF-8 bytes,
  so escaping is bytewise: only bytes below \<open>0x80\<close> are escaped. \<open>as_f64\<close> stands for \<open>serde_json::Number::as_f64\<close>, and
  \<open>hex\<close> for \<open>hex::encode\<close>.
\<close>

section \<open>Strings\<close>

definition hex4 :: "nat \<Rightarrow> string" where
  "hex4 n = map (\<lambda>i. let d = n div 16 ^ i mod 16 in char_of (if d < 10 then 48 + d else 87 + d)) [3, 2, 1, 0]"

definition escape_char :: "char \<Rightarrow> string" where
  "escape_char c =
     (if c = CHR 0x22 then [CHR 0x5C, CHR 0x22]
      else if c = CHR 0x5C then [CHR 0x5C, CHR 0x5C]
      else if c = CHR 0x08 then [CHR 0x5C, CHR ''b'']
      else if c = CHR 0x09 then [CHR 0x5C, CHR ''t'']
      else if c = CHR 0x0A then [CHR 0x5C, CHR ''n'']
      else if c = CHR 0x0C then [CHR 0x5C, CHR ''f'']
      else if c = CHR 0x0D then [CHR 0x5C, CHR ''r'']
      else if byte c < 0x20 then CHR 0x5C # CHR ''u'' # hex4 (byte c)
      else [c])"

definition write_string :: "string \<Rightarrow> string" where
  "write_string s = CHR 0x22 # concat (map escape_char s) @ [CHR 0x22]"

text \<open>\<open>str::encode_utf16\<close> of UTF-8 bytes.\<close>

fun encode_utf16 :: "string \<Rightarrow> nat list" where
  "encode_utf16 [] = []"
| "encode_utf16 (a # s) =
     (if byte a < 0x80 then byte a # encode_utf16 s
      else if byte a < 0xE0 then
        (case s of c1 # r \<Rightarrow> ((byte a - 0xC0) * 64 + (byte c1 - 0x80)) # encode_utf16 r | _ \<Rightarrow> [byte a])
      else if byte a < 0xF0 then
        (case s of
           c1 # c2 # r \<Rightarrow> (((byte a - 0xE0) * 64 + (byte c1 - 0x80)) * 64 + (byte c2 - 0x80)) # encode_utf16 r
         | _ \<Rightarrow> [byte a])
      else
        (case s of
           c1 # c2 # c3 # r \<Rightarrow>
             (let v = (((byte a - 0xF0) * 64 + (byte c1 - 0x80)) * 64 + (byte c2 - 0x80)) * 64 + (byte c3 - 0x80) - 0x10000
              in (0xD800 + v div 1024) # (0xDC00 + v mod 1024) # encode_utf16 r)
         | _ \<Rightarrow> [byte a]))"

section \<open>Values\<close>

fun collect_results :: "('e, 'a) result list \<Rightarrow> ('e, 'a list) result" where
  "collect_results [] = Inr []"
| "collect_results (r # rs) = and_then r (\<lambda>x. and_then (collect_results rs) (\<lambda>xs. Inr (x # xs)))"

definition sorted_members :: "(string \<times> 'a) list \<Rightarrow> (string \<times> 'a) list" where
  "sorted_members members = sort_key (\<lambda>m. encode_utf16 (fst m)) members"

lemma set_sorted_members [simp]: "set (sorted_members members) = set members"
  by (simp add: sorted_members_def)

lemma pair_size [termination_simp]: "(name, v) \<in> set members \<Longrightarrow> size v < Suc (size_list (\<lambda>x. Suc (size (snd x))) members)"
  by (simp add: less_Suc_eq_le size_list_estimation')

fun write_value :: "(string \<Rightarrow> rat option) \<Rightarrow> json \<Rightarrow> (CanonicalJsonError, string) result" where
  "write_value as_f64 JNull = Inr ''null''"
| "write_value as_f64 (JBool b) = Inr (if b then ''true'' else ''false'')"
| "write_value as_f64 (JNumber number) = write_number as_f64 number"
| "write_value as_f64 (JString s) = Inr (write_string s)"
| "write_value as_f64 (JArray items) =
     and_then (collect_results (map (write_value as_f64) items)) (\<lambda>texts.
       Inr (CHR ''['' # str_join (CHR '','') texts @ [CHR '']'']))"
| "write_value as_f64 (JObject members) =
     and_then (collect_results
         (map (\<lambda>(name, v). and_then (write_value as_f64 v) (\<lambda>t. Inr (write_string name @ CHR '':'' # t)))
           (sorted_members members))) (\<lambda>texts.
       Inr (CHR ''{'' # str_join (CHR '','') texts @ [CHR ''}'']))"

definition canonical_json_bytes :: "(string \<Rightarrow> rat option) \<Rightarrow> json \<Rightarrow> (CanonicalJsonError, string) result" where
  "canonical_json_bytes as_f64 v = write_value as_f64 v"

section \<open>Digests\<close>

definition digest_text :: "digest_env \<Rightarrow> (string \<Rightarrow> string) \<Rightarrow> string \<Rightarrow> string \<Rightarrow> string \<Rightarrow> string \<Rightarrow> string" where
  "digest_text de hex kind media_type ver payload = ''sha256:'' @ hex (de_sha256 de (digest_frame kind media_type ver payload))"

definition semantic_digest ::
    "digest_env \<Rightarrow> (string \<Rightarrow> string) \<Rightarrow> (string \<Rightarrow> rat option) \<Rightarrow> string \<Rightarrow> string \<Rightarrow> json \<Rightarrow> (CanonicalJsonError, string) result" where
  "semantic_digest de hex as_f64 media_type ver v =
     and_then (canonical_json_bytes as_f64 v) (\<lambda>payload. Inr (digest_text de hex ''semantic'' media_type ver payload))"

definition source_digest :: "digest_env \<Rightarrow> (string \<Rightarrow> string) \<Rightarrow> string \<Rightarrow> string \<Rightarrow> string \<Rightarrow> string" where
  "source_digest de hex media_type ver payload = digest_text de hex ''source'' media_type ver payload"

section \<open>What a value is\<close>

text \<open>A value up to the order of its members and the spelling of its numbers.\<close>

datatype cvalue =
    CNull
  | CBool bool
  | CNumber "rat option"
  | CString string
  | CArray "cvalue list"
  | CObject "(string \<times> cvalue) list"

fun canonical_value :: "(string \<Rightarrow> rat option) \<Rightarrow> json \<Rightarrow> cvalue" where
  "canonical_value as_f64 JNull = CNull"
| "canonical_value as_f64 (JBool b) = CBool b"
| "canonical_value as_f64 (JNumber number) = CNumber (number_value as_f64 number)"
| "canonical_value as_f64 (JString s) = CString s"
| "canonical_value as_f64 (JArray items) = CArray (map (canonical_value as_f64) items)"
| "canonical_value as_f64 (JObject members) =
     CObject (map (\<lambda>(name, v). (name, canonical_value as_f64 v)) (sorted_members members))"

section \<open>Texts can be taken apart\<close>

fun read_char :: "string \<Rightarrow> char \<times> string" where
  "read_char (x # t) =
     (if x \<noteq> CHR 0x5C then (x, t)
      else (case t of
              y # r \<Rightarrow>
                if y = CHR ''b'' then (CHR 0x08, r) else if y = CHR ''t'' then (CHR 0x09, r)
                else if y = CHR ''n'' then (CHR 0x0A, r) else if y = CHR ''f'' then (CHR 0x0C, r)
                else if y = CHR ''r'' then (CHR 0x0D, r)
                else if y = CHR ''u'' then (char_of (digits_value 16 (take 4 r)), drop 4 r)
                else (y, r)
            | [] \<Rightarrow> (x, t)))"
| "read_char [] = (CHR 0x00, [])"

lemma hex_digit_value: "d < 16 \<Longrightarrow> digit_value (char_of (if d < 10 then 48 + d else 87 + d)) = (d :: nat)"
  by (auto simp: digit_value_def is_ascii_digit_def)

lemma hex4_value:
  assumes "n < 32"
  shows "digits_value 16 (hex4 n) = n"
proof -
  have d: "digit_value (let d = k mod 16 in char_of (if d < 10 then 48 + d else 87 + d)) = k mod 16" for k :: nat
    unfolding Let_def by (rule hex_digit_value) simp
  show ?thesis unfolding digits_value_def hex4_def list.map foldl.simps d using assms by simp
qed

lemma length_hex4 [simp]: "length (hex4 n) = 4"
  by (simp add: hex4_def)

lemma read_escaped: "read_char (escape_char c @ u) = (c, u)"
  by (auto simp: escape_char_def hex4_value)

lemma escape_not_quote [simp]: "escape_char c @ u \<noteq> CHR 0x22 # v" "CHR 0x22 # v \<noteq> escape_char c @ u"
  by (auto simp: escape_char_def)

lemma escaped_split:
  "concat (map escape_char s) @ CHR 0x22 # u = concat (map escape_char t) @ CHR 0x22 # v \<Longrightarrow> s = t \<and> u = v"
proof (induction s arbitrary: t)
  case Nil
  then show ?case by (cases t) simp_all
next
  case (Cons c s)
  show ?case
  proof (cases t)
    case Nil
    with Cons.prems show ?thesis by simp
  next
    case t: (Cons d t')
    with Cons.prems have "escape_char c @ concat (map escape_char s) @ CHR 0x22 # u
        = escape_char d @ concat (map escape_char t') @ CHR 0x22 # v" by simp
    from arg_cong [OF this, of read_char]
    have "c = d" "concat (map escape_char s) @ CHR 0x22 # u = concat (map escape_char t') @ CHR 0x22 # v"
      by (simp_all add: read_escaped)
    with Cons.IH [of t'] t show ?thesis by simp
  qed
qed

lemma write_string_split: "write_string s @ u = write_string t @ v \<Longrightarrow> s = t \<and> u = v"
  by (rule escaped_split) (simp add: write_string_def)

definition value_end :: "string \<Rightarrow> bool" where
  "value_end r = (r = [] \<or> hd r \<in> {CHR '','', CHR '']'', CHR ''}''})"

lemma number_split:
  assumes "list_all number_char a" "list_all number_char b" "value_end r" "value_end r'" "a @ r = b @ r'"
  shows "a = b \<and> r = r'"
proof -
  have "\<not> number_char (CHR '','')" "\<not> number_char (CHR '']'')" "\<not> number_char (CHR ''}'')" by code_simp+
  then have stop: "takeWhile number_char (t @ q) = t" if "list_all number_char t" "value_end q" for t q
    using that by (cases q) (auto simp: value_end_def list_all_iff takeWhile_append2)
  from stop [OF assms(1,3)] stop [OF assms(2,4)] assms(5) have "a = b" by simp
  with assms(5) show ?thesis by simp
qed

text \<open>Comma-separated texts, each of which can be taken off the front.\<close>

definition commas :: "string list \<Rightarrow> string" where
  "commas ts = concat (map ((#) (CHR '','')) ts)"

lemma str_join_Cons: "str_join (CHR '','') (t # ts) = t @ commas ts"
  by (induction ts arbitrary: t) (simp_all add: commas_def)

definition splits :: "('a \<Rightarrow> string) \<Rightarrow> ('a \<Rightarrow> 'b) \<Rightarrow> 'a list \<Rightarrow> 'a list \<Rightarrow> bool" where
  "splits f g xs ys =
     (\<forall>x\<in>set xs. \<forall>y\<in>set ys. \<forall>u v. f x @ u = f y @ v \<longrightarrow> value_end u \<longrightarrow> value_end v \<longrightarrow> g x = g y \<and> u = v)"

lemma splitsD:
  assumes "splits f g (x # xs) (y # ys)" "f x @ u = f y @ v" "value_end u" "value_end v"
  shows "g x = g y \<and> u = v \<and> splits f g xs ys"
proof -
  have "splits f g xs ys" using assms(1) unfolding splits_def by (meson list.set_intros(2))
  moreover have "g x = g y \<and> u = v" using assms unfolding splits_def by (meson list.set_intros(1))
  ultimately show ?thesis by simp
qed

lemma value_end_rest: "close = CHR '']'' \<or> close = CHR ''}'' \<Longrightarrow> value_end (commas ts @ close # w)"
  by (cases ts) (auto simp: commas_def value_end_def)

lemma commas_split:
  assumes close: "close = CHR '']'' \<or> close = CHR ''}''"
  shows "splits f g xs ys \<Longrightarrow> commas (map f xs) @ close # u = commas (map f ys) @ close # v \<Longrightarrow> map g xs = map g ys \<and> u = v"
proof (induction xs ys rule: list_induct2')
  case (4 x xs y ys)
  then have "f x @ commas (map f xs) @ close # u = f y @ commas (map f ys) @ close # v" by (simp add: commas_def)
  from splitsD [OF 4(2) this value_end_rest [OF close] value_end_rest [OF close]] 4(1) show ?case by simp
qed (use close in \<open>auto simp: commas_def\<close>)

lemma join_split:
  assumes part: "splits f g xs ys"
    and start: "list_all (\<lambda>x. f x \<noteq> [] \<and> hd (f x) \<noteq> close) (xs @ ys)"
    and close: "close = CHR '']'' \<or> close = CHR ''}''"
    and eq: "str_join (CHR '','') (map f xs) @ close # u = str_join (CHR '','') (map f ys) @ close # v"
  shows "map g xs = map g ys \<and> u = v"
proof (cases xs; cases ys)
  fix x xs' y ys'
  assume xs: "xs = x # xs'" "ys = y # ys'"
  then have "f x @ commas (map f xs') @ close # u = f y @ commas (map f ys') @ close # v"
    using eq by (simp add: str_join_Cons)
  from splitsD [OF part [unfolded xs] this value_end_rest [OF close] value_end_rest [OF close]]
  show ?thesis using commas_split [OF close, of f g xs' ys' u v] by (simp add: xs)
next
  fix y ys'
  assume "xs = []" "ys = y # ys'"
  with eq start show ?thesis by (cases "f y") (auto simp: str_join_Cons)
next
  fix x xs'
  assume "xs = x # xs'" "ys = []"
  with eq start show ?thesis by (cases "f x") (auto simp: str_join_Cons)
qed (use eq in simp)

section \<open>Canonical texts are exactly values\<close>

lemma collect_results_Inr: "collect_results rs = Inr xs \<longleftrightarrow> rs = map Inr xs"
  by (induction rs arbitrary: xs) (auto simp: and_then_eq_Inr Cons_eq_map_conv)

lemma collected:
  assumes "collect_results (map h xs) = Inr ts"
  shows "ts = map (\<lambda>x. projr (h x)) xs" "x \<in> set xs \<Longrightarrow> h x = Inr (projr (h x))"
proof -
  have eq: "map h xs = map Inr ts" using assms by (simp add: collect_results_Inr)
  from arg_cong [OF this, of "map projr"] show "ts = map (\<lambda>x. projr (h x)) xs" by (simp add: comp_def)
  from eq show "x \<in> set xs \<Longrightarrow> h x = Inr (projr (h x))" by (metis (no_types, lifting) image_iff list.set_map sum.sel(2))
qed

abbreviation member_text :: "(string \<Rightarrow> rat option) \<Rightarrow> string \<times> json \<Rightarrow> string" where
  "member_text as_f64 m \<equiv> write_string (fst m) @ CHR '':'' # projr (write_value as_f64 (snd m))"

lemma write_array:
  assumes "write_value as_f64 (JArray items) = Inr a"
  shows "a = CHR ''['' # str_join (CHR '','') (map (\<lambda>v. projr (write_value as_f64 v)) items) @ [CHR '']'']"
    "v \<in> set items \<Longrightarrow> write_value as_f64 v = Inr (projr (write_value as_f64 v))"
  using assms collected [of "write_value as_f64" items] by (auto simp: and_then_eq_Inr)

lemma write_object:
  assumes "write_value as_f64 (JObject members) = Inr a"
  shows "a = CHR ''{'' # str_join (CHR '','') (map (member_text as_f64) (sorted_members members)) @ [CHR ''}'']"
    "m \<in> set members \<Longrightarrow> write_value as_f64 (snd m) = Inr (projr (write_value as_f64 (snd m)))"
proof -
  define h where "h = (\<lambda>(name, v). and_then (write_value as_f64 v) (\<lambda>t. Inr (write_string name @ CHR '':'' # t)))"
  obtain ts where ts: "collect_results (map h (sorted_members members)) = Inr ts"
    "a = CHR ''{'' # str_join (CHR '','') ts @ [CHR ''}'']"
    using assms by (auto simp: and_then_eq_Inr h_def)
  have h: "write_value as_f64 (snd m) = Inr (projr (write_value as_f64 (snd m)))" "projr (h m) = member_text as_f64 m"
    if "m \<in> set members" for m
  proof -
    obtain name v where m: "m = (name, v)" by fastforce
    have "h m = Inr (projr (h m))" using collected(2) [OF ts(1), of m] that by simp
    then obtain t where "write_value as_f64 v = Inr t" by (auto simp: h_def m and_then_def split: sum.splits)
    then show "write_value as_f64 (snd m) = Inr (projr (write_value as_f64 (snd m)))" "projr (h m) = member_text as_f64 m"
      by (simp_all add: m h_def)
  qed
  show "m \<in> set members \<Longrightarrow> write_value as_f64 (snd m) = Inr (projr (write_value as_f64 (snd m)))" by (rule h(1))
  have "ts = map (member_text as_f64) (sorted_members members)"
    unfolding collected(1) [OF ts(1)] by (rule map_cong [OF refl]) (simp add: h(2))
  with ts(2) show "a = CHR ''{'' # str_join (CHR '','') (map (member_text as_f64) (sorted_members members)) @ [CHR ''}'']" by simp
qed

text \<open>The first character of a text tells what kind of value it is.\<close>

fun starts_value :: "json \<Rightarrow> char \<Rightarrow> bool" where
  "starts_value JNull c = (c = CHR ''n'')"
| "starts_value (JBool b) c = (c = (if b then CHR ''t'' else CHR ''f''))"
| "starts_value (JNumber _) c = (is_ascii_digit c \<or> c = CHR ''-'')"
| "starts_value (JString _) c = (c = CHR 0x22)"
| "starts_value (JArray _) c = (c = CHR ''['')"
| "starts_value (JObject _) c = (c = CHR ''{'')"

lemma write_number_chars:
  assumes "write_number as_f64 number = Inr s" "reads_doubles as_f64"
  shows "s \<noteq> [] \<and> (is_ascii_digit (hd s) \<or> hd s = CHR ''-'') \<and> list_all number_char s"
  by (rule write_number_value [OF assms]) (rule ecmascript_number_chars)

lemma write_value_starts:
  assumes "write_value as_f64 v = Inr a" "reads_doubles as_f64"
  shows "a \<noteq> [] \<and> starts_value v (hd a)"
  using assms write_number_chars [OF _ assms(2)] by (cases v) (auto simp: and_then_eq_Inr write_string_def)

lemma same_kind:
  assumes "starts_value v c" "starts_value w c"
  shows "(v = JNull \<and> w = JNull) \<or> (\<exists>b. v = JBool b \<and> w = JBool b) \<or> (\<exists>m n. v = JNumber m \<and> w = JNumber n)
    \<or> (\<exists>s t. v = JString s \<and> w = JString t) \<or> (\<exists>xs ys. v = JArray xs \<and> w = JArray ys)
    \<or> (\<exists>xs ys. v = JObject xs \<and> w = JObject ys)"
proof -
  have "\<not> is_ascii_digit c" if "c \<in> {CHR ''n'', CHR ''t'', CHR ''f'', CHR 0x22, CHR ''['', CHR ''{''}" for c
    using that by (auto simp: is_ascii_digit_def)
  then show ?thesis using assms by (cases v; cases w) (auto split: if_splits)
qed

lemma written_number_split:
  assumes "reads_doubles as_f64" "write_number as_f64 m = Inr a" "write_number as_f64 n = Inr b"
    and "a @ r = b @ r'" "value_end r" "value_end r'"
  shows "number_value as_f64 m = number_value as_f64 n \<and> r = r'"
proof -
  from number_split [OF _ _ assms(5,6,4)] write_number_chars [OF assms(2,1)] write_number_chars [OF assms(3,1)]
  have eq: "a = b" "r = r'" by simp_all
  obtain x y where "number_value as_f64 m = Some x" "ecmascript_number x = Inr a" "f64_round x = x"
    "number_value as_f64 n = Some y" "ecmascript_number y = Inr b" "f64_round y = y"
    by (metis write_number_value [OF assms(2,1)] write_number_value [OF assms(3,1)])
  with eq show ?thesis by (metis ecmascript_number_value)
qed

lemma starts_not_close: "starts_value v c \<Longrightarrow> c \<noteq> CHR '']'' \<and> c \<noteq> CHR ''}''"
  by (cases v) (auto simp: is_ascii_digit_def split: if_splits)

lemma first_char: "a @ r = b @ r' \<Longrightarrow> a \<noteq> [] \<Longrightarrow> b \<noteq> [] \<Longrightarrow> hd a = hd b"
  by (cases a; cases b) auto

lemma write_value_open:
  assumes "write_value as_f64 v = Inr a" "reads_doubles as_f64"
  shows "a \<noteq> [] \<and> hd a \<noteq> CHR '']''"
  using write_value_starts [OF assms] starts_not_close by blast

text \<open>Off the front of a text, one value can be taken in one way only.\<close>

definition taken_once :: "(string \<Rightarrow> rat option) \<Rightarrow> json \<Rightarrow> bool" where
  "taken_once as_f64 v =
     (\<forall>w a b r r'. write_value as_f64 v = Inr a \<longrightarrow> write_value as_f64 w = Inr b \<longrightarrow> a @ r = b @ r' \<longrightarrow> value_end r \<longrightarrow> value_end r'
        \<longrightarrow> canonical_value as_f64 v = canonical_value as_f64 w \<and> r = r')"

lemma taken_onceD:
  "taken_once as_f64 v \<Longrightarrow> write_value as_f64 v = Inr a \<Longrightarrow> write_value as_f64 w = Inr b \<Longrightarrow> a @ r = b @ r' \<Longrightarrow> value_end r \<Longrightarrow> value_end r'
     \<Longrightarrow> canonical_value as_f64 v = canonical_value as_f64 w \<and> r = r'"
  unfolding taken_once_def by blast

lemma taken_onceI:
  assumes "reads_doubles as_f64"
    and "\<And>w a b r r'. write_value as_f64 v = Inr a \<Longrightarrow> write_value as_f64 w = Inr b \<Longrightarrow> a @ r = b @ r' \<Longrightarrow> value_end r \<Longrightarrow> value_end r'
        \<Longrightarrow> starts_value v (hd a) \<Longrightarrow> starts_value w (hd a) \<Longrightarrow> canonical_value as_f64 v = canonical_value as_f64 w \<and> r = r'"
  shows "taken_once as_f64 v"
  unfolding taken_once_def
proof (intro allI impI)
  fix w a b r r'
  assume eq: "write_value as_f64 v = Inr a" "write_value as_f64 w = Inr b" "a @ r = b @ r'" "value_end r" "value_end r'"
  have starts: "a \<noteq> [] \<and> starts_value v (hd a)" "b \<noteq> [] \<and> starts_value w (hd b)"
    using write_value_starts [OF eq(1) assms(1)] write_value_starts [OF eq(2) assms(1)] by simp_all
  then have "hd b = hd a" using first_char [OF eq(3)] by simp
  with starts show "canonical_value as_f64 v = canonical_value as_f64 w \<and> r = r'" by (intro assms(2) [OF eq]) simp_all
qed

lemma array_taken_once:
  assumes "reads_doubles as_f64" "\<And>x. x \<in> set xs \<Longrightarrow> taken_once as_f64 x"
  shows "taken_once as_f64 (JArray xs)"
proof (rule taken_onceI [OF assms(1)])
  fix w a b r r'
  assume eq: "write_value as_f64 (JArray xs) = Inr a" "write_value as_f64 w = Inr b" "a @ r = b @ r'" "value_end r" "value_end r'"
    and kind: "starts_value (JArray xs) (hd a)" "starts_value w (hd a)"
  from same_kind [OF kind] obtain ys where w: "w = JArray ys" by auto
  define f where "f = (\<lambda>v. projr (write_value as_f64 v))"
  have xs: "write_value as_f64 v = Inr (f v)" if "v \<in> set xs" for v using write_array(2) [OF eq(1) that] by (simp add: f_def)
  have ys: "write_value as_f64 v = Inr (f v)" if "v \<in> set ys" for v using write_array(2) [OF eq(2) [unfolded w] that] by (simp add: f_def)
  have "splits f (canonical_value as_f64) xs ys"
    unfolding splits_def using taken_onceD [OF assms(2) xs ys] by blast
  moreover have "list_all (\<lambda>x. f x \<noteq> [] \<and> hd (f x) \<noteq> CHR '']'') (xs @ ys)"
    using write_value_open [OF xs assms(1)] write_value_open [OF ys assms(1)] by (auto simp: list_all_iff)
  moreover have "str_join (CHR '','') (map f xs) @ CHR '']'' # r = str_join (CHR '','') (map f ys) @ CHR '']'' # r'"
    using eq(3) by (simp add: write_array(1) [OF eq(1)] write_array(1) [OF eq(2) [unfolded w]] f_def)
  ultimately have "map (canonical_value as_f64) xs = map (canonical_value as_f64) ys \<and> r = r'"
    by (intro join_split [where f = f]) simp_all
  then show "canonical_value as_f64 (JArray xs) = canonical_value as_f64 w \<and> r = r'" by (simp add: w)
qed

lemma object_taken_once:
  assumes "reads_doubles as_f64" "\<And>m. m \<in> set xs \<Longrightarrow> taken_once as_f64 (snd m)"
  shows "taken_once as_f64 (JObject xs)"
proof (rule taken_onceI [OF assms(1)])
  fix w a b r r'
  assume eq: "write_value as_f64 (JObject xs) = Inr a" "write_value as_f64 w = Inr b" "a @ r = b @ r'" "value_end r" "value_end r'"
    and kind: "starts_value (JObject xs) (hd a)" "starts_value w (hd a)"
  from same_kind [OF kind] obtain ys where w: "w = JObject ys" by auto
  define g where "g = (\<lambda>(name, v). (name :: string, canonical_value as_f64 v))"
  note xs = write_object [OF eq(1)] and ys = write_object [OF eq(2) [unfolded w]]
  have "g m = g n \<and> u = v"
    if "m \<in> set xs" "n \<in> set ys" and eq: "member_text as_f64 m @ u = member_text as_f64 n @ v" and "value_end u" "value_end v" for m n u v
  proof -
    from eq have "fst m = fst n" "projr (write_value as_f64 (snd m)) @ u = projr (write_value as_f64 (snd n)) @ v"
      using write_string_split [of "fst m" _ "fst n"] by fastforce+
    with taken_onceD [OF assms(2) [OF that(1)] xs(2) [OF that(1)] ys(2) [OF that(2)] this(2) that(4,5)] show ?thesis
      by (simp add: g_def case_prod_unfold)
  qed
  then have "splits (member_text as_f64) g (sorted_members xs) (sorted_members ys)" unfolding splits_def by simp
  moreover have "list_all (\<lambda>m. member_text as_f64 m \<noteq> [] \<and> hd (member_text as_f64 m) \<noteq> CHR ''}'') (sorted_members xs @ sorted_members ys)"
    by (simp add: list_all_iff write_string_def)
  moreover have "str_join (CHR '','') (map (member_text as_f64) (sorted_members xs)) @ CHR ''}'' # r
      = str_join (CHR '','') (map (member_text as_f64) (sorted_members ys)) @ CHR ''}'' # r'"
    using eq(3) by (simp add: xs(1) ys(1))
  ultimately have "map g (sorted_members xs) = map g (sorted_members ys) \<and> r = r'"
    by (intro join_split [where f = "member_text as_f64"]) simp_all
  then show "canonical_value as_f64 (JObject xs) = canonical_value as_f64 w \<and> r = r'" by (simp add: w g_def)
qed

lemma scalar_taken_once:
  assumes doubles: "reads_doubles as_f64" and "\<And>xs. v \<noteq> JArray xs" "\<And>xs. v \<noteq> JObject xs"
  shows "taken_once as_f64 v"
proof (rule taken_onceI [OF doubles])
  fix w a b r r'
  assume eq: "write_value as_f64 v = Inr a" "write_value as_f64 w = Inr b" "a @ r = b @ r'" "value_end r" "value_end r'"
    and kind: "starts_value v (hd a)" "starts_value w (hd a)"
  from same_kind [OF kind] assms(2,3)
  consider "v = JNull" "w = JNull" | x where "v = JBool x" "w = JBool x" | m n where "v = JNumber m" "w = JNumber n"
    | s t where "v = JString s" "w = JString t"
    by blast
  then show "canonical_value as_f64 v = canonical_value as_f64 w \<and> r = r'"
  proof cases
    case (2 x)
    with eq(1,2) have "a = b" by simp
    with eq(3) 2 show ?thesis by simp
  next
    case (3 m n)
    with eq(1,2) have "write_number as_f64 m = Inr a" "write_number as_f64 n = Inr b" by simp_all
    from written_number_split [OF doubles this eq(3-5)] 3 show ?thesis by simp
  next
    case (4 s t)
    with eq(1-3) have "write_string s @ r = write_string t @ r'" by auto
    from write_string_split [OF this] 4 show ?thesis by simp
  next
    case 1
    with eq(1,2) have "a = b" by simp
    with eq(3) 1 show ?thesis by simp
  qed
qed

lemma value_taken_once: "reads_doubles as_f64 \<Longrightarrow> taken_once as_f64 v"
proof (induction v)
  case (JObject xs)
  show ?case
  proof (rule object_taken_once [OF JObject.prems])
    fix m
    assume "m \<in> set xs"
    then show "taken_once as_f64 (snd m)" by (rule JObject.IH) (simp_all add: snds.simps JObject.prems)
  qed
qed (simp_all add: scalar_taken_once array_taken_once)

text \<open>And a value has one text, if it has one.\<close>

lemma map_through: "map g xs = map g ys \<Longrightarrow> (\<And>x y. x \<in> set xs \<Longrightarrow> y \<in> set ys \<Longrightarrow> g x = g y \<Longrightarrow> f x = f y) \<Longrightarrow> map f xs = map f ys"
  by (induction xs ys rule: list_induct2') auto

lemma one_text:
  assumes "reads_doubles as_f64"
  shows "write_value as_f64 v = Inr a \<Longrightarrow> write_value as_f64 w = Inr b \<Longrightarrow> canonical_value as_f64 v = canonical_value as_f64 w \<Longrightarrow> a = b"
proof (induction v arbitrary: w a b)
  case (JNumber m)
  then obtain n where w: "w = JNumber n" "number_value as_f64 m = number_value as_f64 n" by (cases w) auto
  with JNumber.prems show ?case
    by (metis (no_types, lifting) assms option.inject sum.inject(2) write_number_value write_value.simps(3))
next
  case (JArray xs)
  then obtain ys where w: "w = JArray ys" "map (canonical_value as_f64) xs = map (canonical_value as_f64) ys" by (cases w) auto
  have "map (\<lambda>v. projr (write_value as_f64 v)) xs = map (\<lambda>v. projr (write_value as_f64 v)) ys"
    by (rule map_through [OF w(2)])
      (use JArray.IH write_array(2) [OF JArray.prems(1)] write_array(2) [OF JArray.prems(2) [unfolded w(1)]] in blast)
  then show ?case by (simp add: write_array(1) [OF JArray.prems(1)] write_array(1) [OF JArray.prems(2) [unfolded w(1)]])
next
  case (JObject xs)
  define g where "g = (\<lambda>(name, v). (name :: string, canonical_value as_f64 v))"
  from JObject.prems(3) obtain ys where w: "w = JObject ys" "map g (sorted_members xs) = map g (sorted_members ys)"
    by (cases w) (auto simp: g_def)
  note xs = write_object [OF JObject.prems(1)] and ys = write_object [OF JObject.prems(2) [unfolded w(1)]]
  have "map (member_text as_f64) (sorted_members xs) = map (member_text as_f64) (sorted_members ys)"
  proof (rule map_through [OF w(2)])
    fix m n
    assume mn: "m \<in> set (sorted_members xs)" "n \<in> set (sorted_members ys)" "g m = g n"
    then have "projr (write_value as_f64 (snd m)) = projr (write_value as_f64 (snd n))"
      by (intro JObject.IH [OF _ _ xs(2) ys(2)]) (auto simp: snds.simps g_def split: prod.splits)
    with mn(3) show "member_text as_f64 m = member_text as_f64 n" by (simp add: g_def split: prod.splits)
  qed
  then show ?case by (simp add: xs(1) ys(1))
next
  case (JString s)
  then show ?case by (cases w) auto
next
  case JNull
  then show ?case by (cases w) auto
next
  case (JBool x)
  then show ?case by (cases w) auto
qed

lemma canonical_texts:
  assumes "reads_doubles as_f64" "canonical_json_bytes as_f64 v = Inr a" "canonical_json_bytes as_f64 w = Inr b"
  shows "a = b \<longleftrightarrow> canonical_value as_f64 v = canonical_value as_f64 w"
proof
  assume "a = b"
  then have "a @ [] = b @ []" by simp
  with taken_onceD [OF value_taken_once [OF assms(1)], of v a w b "[]" "[]"] assms(2,3)
  show "canonical_value as_f64 v = canonical_value as_f64 w" by (simp add: canonical_json_bytes_def value_end_def)
next
  assume "canonical_value as_f64 v = canonical_value as_f64 w"
  with one_text [OF assms(1)] assms(2,3) show "a = b" by (simp add: canonical_json_bytes_def)
qed

text \<open>
  C17. Canonical JSON is exact. Two values the encoder accepts have the same bytes if and only if they are the same value:
  the same up to the order of object members and the spelling of numbers, \<open>1.0\<close>, \<open>1e0\<close> and \<open>1\<close> being one. The
  shortest digits of every double read back to that double, and no text can be taken apart in two ways.
\<close>

theorem canonical_json_exact:
  assumes "reads_doubles as_f64" "canonical_json_bytes as_f64 v = Inr a" "canonical_json_bytes as_f64 w = Inr b"
  shows "a = b \<longleftrightarrow> canonical_value as_f64 v = canonical_value as_f64 w"
  using assms by (rule canonical_texts)

definition sample_as_f64 :: "string \<Rightarrow> rat option" where
  "sample_as_f64 number = (if number = ''1.0'' then Some 1 else if number = ''-1.5'' then Some (- 3 / 2) else None)"

lemma sample_reads_doubles: "reads_doubles sample_as_f64"
proof -
  have "f64_round 1 = 1" "f64_round (- 3 / 2) = - 3 / 2" by code_simp+
  then show ?thesis by (auto simp: reads_doubles_def sample_as_f64_def split: if_splits)
qed

definition sample_left :: json where
  "sample_left = JObject [(''b'', JNumber ''1.0''), (''a'', JArray [JString [CHR 0x0A], JNumber ''-1.5''])]"

definition sample_right :: json where
  "sample_right = JObject [(''a'', JArray [JString [CHR 0x0A], JNumber ''-1.5'']), (''b'', JNumber ''1'')]"

definition sample_bytes :: string where
  "sample_bytes = [CHR ''{'', CHR 0x22, CHR ''a'', CHR 0x22, CHR '':'', CHR ''['', CHR 0x22, CHR 0x5C, CHR ''n'', CHR 0x22, CHR '','']
     @ ''-1.5],'' @ [CHR 0x22, CHR ''b'', CHR 0x22] @ '':1}''"

lemma sample_numbers:
  "write_number sample_as_f64 ''1.0'' = Inr ''1''" "write_number sample_as_f64 ''1'' = Inr ''1''"
  "write_number sample_as_f64 ''-1.5'' = Inr ''-1.5''"
proof -
  have "dec_of_nat 1 = ''1''" by code_simp
  then have "ecmascript_number 1 = Inr ''1''" using ecmascript_number_nat(1) [of 1] by simp
  moreover have "ecmascript_number (- 3 / 2) = Inr ''-1.5''" by code_simp
  moreover have "\<not> list_all is_ascii_digit ''1.0''" "\<not> list_all is_ascii_digit ''-1.5''" "\<not> list_all is_ascii_digit ''1.5''"
    "digits_value 10 ''1'' = 1" "list_all is_ascii_digit ''1''" by code_simp+
  ultimately show "write_number sample_as_f64 ''1.0'' = Inr ''1''" "write_number sample_as_f64 ''1'' = Inr ''1''"
    "write_number sample_as_f64 ''-1.5'' = Inr ''-1.5''"
    using \<open>dec_of_nat 1 = ''1''\<close>
    by (simp_all add: write_number_def parse_unsigned_def parse_negative_def sample_as_f64_def MAX_SAFE_INTEGER_def
        integer_text_def)
qed

lemma sample_canonical:
  "canonical_json_bytes sample_as_f64 sample_left = Inr sample_bytes"
  "canonical_json_bytes sample_as_f64 sample_right = Inr sample_bytes"
proof -
  have "sorted_members [(''b'', x), (''a'', y)] = [(''a'', y), (''b'', x)]" "sorted_members [(''a'', y), (''b'', x)] = [(''a'', y), (''b'', x)]"
    for x y :: json by (simp_all add: sorted_members_def)
  moreover have "write_string [CHR 0x0A] = [CHR 0x22, CHR 0x5C, CHR ''n'', CHR 0x22]" "write_string ''a'' = [CHR 0x22, CHR ''a'', CHR 0x22]"
    "write_string ''b'' = [CHR 0x22, CHR ''b'', CHR 0x22]" by code_simp+
  ultimately show "canonical_json_bytes sample_as_f64 sample_left = Inr sample_bytes"
    "canonical_json_bytes sample_as_f64 sample_right = Inr sample_bytes"
    by (simp_all add: canonical_json_bytes_def sample_left_def sample_right_def sample_numbers sample_bytes_def)
qed

theorem canonical_json_exact_witness:
  "reads_doubles sample_as_f64 \<and> sample_left \<noteq> sample_right
   \<and> canonical_value sample_as_f64 sample_left = canonical_value sample_as_f64 sample_right"
  using canonical_json_exact [OF sample_reads_doubles sample_canonical] sample_reads_doubles
  by (simp add: sample_left_def sample_right_def)

text \<open>
  C18. A semantic digest names one document. If two values have the same semantic digest, and SHA-256 does not collide on the
  two frames, then they were framed with the same media type and schema version and are the same value, up to member order
  and the spelling of numbers.
\<close>

theorem semantic_digest_binds:
  assumes "reads_doubles as_f64"
    and "semantic_digest de hex as_f64 media ver v = Inr d" "semantic_digest de hex as_f64 media' ver' w = Inr d"
    and no_collision: "\<And>p q. canonical_json_bytes as_f64 v = Inr p \<Longrightarrow> canonical_json_bytes as_f64 w = Inr q \<Longrightarrow>
        hex (de_sha256 de (digest_frame ''semantic'' media ver p)) = hex (de_sha256 de (digest_frame ''semantic'' media' ver' q)) \<Longrightarrow>
        digest_frame ''semantic'' media ver p = digest_frame ''semantic'' media' ver' q"
    and short: "list_all (\<lambda>p. length p < 2 ^ 64) [media, ver, media', ver']"
      "\<And>p. canonical_json_bytes as_f64 v = Inr p \<or> canonical_json_bytes as_f64 w = Inr p \<Longrightarrow> length p < 2 ^ 64"
  shows "media = media' \<and> ver = ver' \<and> canonical_value as_f64 v = canonical_value as_f64 w"
proof -
  from assms(2,3) obtain p q where p: "canonical_json_bytes as_f64 v = Inr p" and q: "canonical_json_bytes as_f64 w = Inr q"
    and "digest_text de hex ''semantic'' media ver p = digest_text de hex ''semantic'' media' ver' q"
    by (auto simp: semantic_digest_def and_then_eq_Inr)
  then have "digest_frame ''semantic'' media ver p = digest_frame ''semantic'' media' ver' q"
    by (intro no_collision) (simp_all add: digest_text_def)
  from digest_frame_injective [OF this] p q short have "media = media' \<and> ver = ver' \<and> p = q" by simp
  with canonical_texts [OF assms(1) p q] show ?thesis by simp
qed

definition sample_digests :: digest_env where
  "sample_digests = \<lparr>de_sha256 = (\<lambda>s. s), de_to_vec = (\<lambda>_. None), de_scalar = (\<lambda>_. [])\<rparr>"

theorem semantic_digest_binds_witness:
  "semantic_digest sample_digests (\<lambda>s. s) sample_as_f64 ''application/json'' ''1.0.0'' sample_left
     = semantic_digest sample_digests (\<lambda>s. s) sample_as_f64 ''application/json'' ''1.0.0'' sample_right
   \<and> canonical_value sample_as_f64 sample_left = canonical_value sample_as_f64 sample_right"
proof -
  have digests: "semantic_digest sample_digests (\<lambda>s. s) sample_as_f64 ''application/json'' ''1.0.0'' v
      = Inr (digest_text sample_digests (\<lambda>s. s) ''semantic'' ''application/json'' ''1.0.0'' sample_bytes)"
    if "v \<in> {sample_left, sample_right}" for v
    using that sample_canonical by (auto simp: semantic_digest_def)
  have "canonical_value sample_as_f64 sample_left = canonical_value sample_as_f64 sample_right"
    by (rule conjunct2 [OF conjunct2 [OF semantic_digest_binds [OF sample_reads_doubles digests digests]]])
      (auto simp: sample_canonical sample_digests_def sample_bytes_def)
  with digests show ?thesis by simp
qed

end
