(* ===== verification/Policy_Document.thy ===== *)
theory Policy_Document
  imports Policy_Validation Canonical_Json Egress_Eval
begin

text \<open>
  The structural checks policy v1 adds (\<open>gateway-config/src/rbac/policy_document.rs\<close>): closed member vocabularies,
  stable ids unique across four sections, bounded condition trees, no \<open>null\<close>, and numbers with a canonical form, with
  the order of the whole reading of a v1 document. A check returns the issues it pushes, in order;
  \<open>IssueList\<close> bounds them. Reading JSON text and the typed document are arguments: \<open>deserialize\<close> stands for the
  generated code and \<open>locate_typed_failure\<close> for where it fails.
\<close>

section \<open>Bounded issue lists\<close>

definition MAX_REPORTED_ISSUES :: nat where "MAX_REPORTED_ISSUES = 100"

record IssueList =
  il_issues :: "PolicyIssue list"
  il_overflowed :: bool

definition IssueList_push :: "IssueList \<Rightarrow> PolicyIssue \<Rightarrow> IssueList" where
  "IssueList_push l issue =
     (if length (il_issues l) < MAX_REPORTED_ISSUES then l\<lparr>il_issues := il_issues l @ [issue]\<rparr>
      else l\<lparr>il_overflowed := True\<rparr>)"

definition IssueList_of :: "PolicyIssue list \<Rightarrow> IssueList" where
  "IssueList_of issues = foldl IssueList_push \<lparr>il_issues = [], il_overflowed = False\<rparr> issues"

definition IssueList_into_vec :: "IssueList \<Rightarrow> PolicyIssue list" where
  "IssueList_into_vec l =
     il_issues l @ (if il_overflowed l then [PolicyIssue_located IC_TooManyProblems []] else [])"

section \<open>Member vocabularies\<close>

record Members =
  mb_allowed :: "string list"
  mb_required :: "string list"

definition V1_TOP_LEVEL_KEYS :: "string list" where
  "V1_TOP_LEVEL_KEYS =
     [''schema_version'', ''id'', ''default_action'', ''enforcement_mode'', ''roles'', ''identity_mappings'', ''routes'',
      ''rules'', ''egress'', ''rate_limits'', ''tools'']"

definition ROLE_MEMBERS :: Members where
  "ROLE_MEMBERS = \<lparr>mb_allowed = [''permissions'', ''issuers'', ''auth_methods'', ''description''], mb_required = []\<rparr>"

definition ROUTE_MEMBERS :: Members where
  "ROUTE_MEMBERS =
     \<lparr>mb_allowed = [''id'', ''methods'', ''hosts'', ''path_prefix'', ''permission'', ''enforcement_mode''],
      mb_required = [''path_prefix'', ''permission'']\<rparr>"

definition RULE_MEMBERS :: Members where
  "RULE_MEMBERS =
     \<lparr>mb_allowed = [''id'', ''enabled'', ''methods'', ''path'', ''tool_name'', ''dispatch'', ''principal'', ''conditions'',
                    ''action''],
      mb_required = [''action'']\<rparr>"

definition PRINCIPAL_MEMBERS :: Members where
  "PRINCIPAL_MEMBERS = \<lparr>mb_allowed = [''roles'', ''issuers'', ''auth_methods'', ''principal_ids''], mb_required = []\<rparr>"

definition DISPATCH_MEMBERS :: Members where
  "DISPATCH_MEMBERS = \<lparr>mb_allowed = [''kind'', ''upstream_origin'', ''route_id''], mb_required = [''kind'']\<rparr>"

definition EGRESS_MEMBERS :: Members where
  "EGRESS_MEMBERS = \<lparr>mb_allowed = [''hosts'', ''cidrs'', ''ports''], mb_required = []\<rparr>"

definition RATE_LIMIT_MEMBERS :: Members where
  "RATE_LIMIT_MEMBERS =
     \<lparr>mb_allowed = [''id'', ''principal'', ''methods'', ''path'', ''requests_per_second'', ''burst''],
      mb_required = [''requests_per_second'', ''burst'']\<rparr>"

definition IDENTITY_MAPPING_MEMBERS :: Members where
  "IDENTITY_MAPPING_MEMBERS =
     \<lparr>mb_allowed = [''id'', ''issuer'', ''auth_methods'', ''subjects'', ''organizations'', ''claimed_roles'', ''scopes'',
                    ''grant_roles''],
      mb_required = [''issuer'', ''grant_roles'']\<rparr>"

definition TOOL_MEMBERS :: Members where
  "TOOL_MEMBERS =
     \<lparr>mb_allowed = [''enabled'', ''allowed_roles'', ''issuers'', ''auth_methods'', ''timeout_ms'', ''max_concurrent''],
      mb_required = []\<rparr>"

text \<open>A leaf's vocabulary: every member is required, except in a time window.\<close>

definition condition_leaf_members :: "string \<Rightarrow> Members option" where
  "condition_leaf_members operator =
     map_of [(''organization'', \<lparr>mb_allowed = [''issuer'', ''in''], mb_required = [''issuer'', ''in'']\<rparr>),
             (''scope'', \<lparr>mb_allowed = [''issuer'', ''in''], mb_required = [''issuer'', ''in'']\<rparr>),
             (''claim'', \<lparr>mb_allowed = [''issuer'', ''name'', ''in''], mb_required = [''issuer'', ''name'', ''in'']\<rparr>),
             (''source_network'', \<lparr>mb_allowed = [''cidrs''], mb_required = [''cidrs'']\<rparr>),
             (''header'', \<lparr>mb_allowed = [''name'', ''in''], mb_required = [''name'', ''in'']\<rparr>),
             (''query'', \<lparr>mb_allowed = [''name'', ''in''], mb_required = [''name'', ''in'']\<rparr>),
             (''tool_argument'', \<lparr>mb_allowed = [''pointer'', ''in''], mb_required = [''pointer'', ''in'']\<rparr>),
             (''time_window'', \<lparr>mb_allowed = [''from'', ''until''], mb_required = []\<rparr>)] operator"

definition IDENTIFIED_SECTIONS :: "string list" where
  "IDENTIFIED_SECTIONS = [''identity_mappings'', ''routes'', ''rules'', ''rate_limits'']"

section \<open>Objects\<close>

definition sorted_names :: "(string \<times> json) list \<Rightarrow> string list" where
  "sorted_names members = sort (map fst members)"

definition check_members :: "(string \<times> json) list \<Rightarrow> string \<Rightarrow> Members \<Rightarrow> PolicyIssue list" where
  "check_members object ptr members =
     map (\<lambda>name. PolicyIssue_located IC_UnknownMember (below ptr (pointer_token name)))
       (filter (\<lambda>name. name \<notin> set (mb_allowed members)) (sorted_names object))
     @ map (\<lambda>name. PolicyIssue_located IC_RequiredMemberMissing (below ptr name))
         (filter (\<lambda>name. map_of object name = None) (mb_required members))"

definition check_object :: "json \<Rightarrow> string \<Rightarrow> Members \<Rightarrow> PolicyIssue list" where
  "check_object v ptr members =
     (case json_as_object v of
        Some object \<Rightarrow> check_members object ptr members
      | None \<Rightarrow> [PolicyIssue_located IC_InvalidType ptr])"

fun check_named_entries ::
    "(string \<times> json) list \<Rightarrow> string \<Rightarrow> Members \<Rightarrow> bool \<Rightarrow> bool \<Rightarrow> string list \<Rightarrow> PolicyIssue list" where
  "check_named_entries entries ptr members tool_names reported [] = []"
| "check_named_entries entries ptr members tool_names reported (name # names) =
     (if tool_names \<and> length name > MAX_TOOL_NAME_BYTES
      then (if reported then [] else [PolicyIssue_located IC_ToolNameTooLong ptr])
           @ check_named_entries entries ptr members tool_names True names
      else (case map_of entries name of
              None \<Rightarrow> []
            | Some entry \<Rightarrow> check_object entry (below ptr (pointer_token name)) members)
           @ check_named_entries entries ptr members tool_names reported names)"

definition check_entries :: "json \<Rightarrow> string \<Rightarrow> Members \<Rightarrow> bool \<Rightarrow> PolicyIssue list" where
  "check_entries v ptr members tool_names =
     (case json_as_object v of
        None \<Rightarrow> [PolicyIssue_located IC_InvalidType ptr]
      | Some entries \<Rightarrow> check_named_entries entries ptr members tool_names False (sorted_names entries))"

definition is_valid_element_id :: "string \<Rightarrow> bool" where
  "is_valid_element_id eid = is_valid_stable_route_id eid"

text \<open>The issues of an element's id, and the ids seen after it.\<close>

definition check_element_id :: "(string \<times> json) list \<Rightarrow> string \<Rightarrow> string list \<Rightarrow> PolicyIssue list \<times> string list" where
  "check_element_id element ptr ids =
     (let ptr = below ptr ''id'' in
      case map_of element ''id'' of
        None \<Rightarrow> ([PolicyIssue_located IC_ElementIdMissing ptr], ids)
      | Some (JString eid) \<Rightarrow>
          if is_valid_element_id eid
          then (if eid \<in> set ids then ([PolicyIssue_located IC_ElementIdDuplicate ptr], ids) else ([], eid # ids))
          else ([PolicyIssue_located IC_ElementIdInvalid ptr], ids)
      | Some _ \<Rightarrow> ([PolicyIssue_located IC_ElementIdInvalid ptr], ids))"

section \<open>Condition trees\<close>

text \<open>
  A node before any typed reading: the issues pushed, and the count of nodes, or where the tree first exceeded a
  bound, after which it is not examined further.
\<close>

fun check_condition_node :: "string \<Rightarrow> nat \<Rightarrow> nat \<Rightarrow> json \<Rightarrow> PolicyIssue list \<times> (string, nat) result"
and check_condition_operands :: "string \<Rightarrow> nat \<Rightarrow> nat \<Rightarrow> nat \<Rightarrow> json list \<Rightarrow> PolicyIssue list \<times> (string, nat) result" where
  "check_condition_node ptr depth nodes v =
     (if depth > MAX_CONDITION_DEPTH \<or> Suc nodes > MAX_CONDITION_NODES then ([], Inl ptr)
      else (case v of
              JObject [(operator, operand)] \<Rightarrow>
                let ptr' = below ptr (pointer_token operator) in
                if operator = ''all'' \<or> operator = ''any''
                then (case operand of
                        JArray operands \<Rightarrow>
                          if length operands > MAX_CONDITION_BRANCHES then ([], Inl ptr')
                          else check_condition_operands ptr' (Suc depth) (Suc nodes) 0 operands
                      | _ \<Rightarrow> ([PolicyIssue_located IC_InvalidType ptr'], Inr (Suc nodes)))
                else if operator = ''not'' then check_condition_node ptr' (Suc depth) (Suc nodes) operand
                else (case condition_leaf_members operator of
                        Some members \<Rightarrow> (check_object operand ptr' members, Inr (Suc nodes))
                      | None \<Rightarrow> ([PolicyIssue_located IC_UnknownMember ptr'], Inr (Suc nodes)))
            | JObject _ \<Rightarrow> ([PolicyIssue_located IC_ConditionOperatorInvalid ptr], Inr (Suc nodes))
            | _ \<Rightarrow> ([PolicyIssue_located IC_InvalidType ptr], Inr (Suc nodes))))"
| "check_condition_operands ptr depth nodes i [] = ([], Inr nodes)"
| "check_condition_operands ptr depth nodes i (v # vs) =
     (case check_condition_node (below ptr (dec_of_nat i)) depth nodes v of
        (issues, Inl over) \<Rightarrow> (issues, Inl over)
      | (issues, Inr nodes') \<Rightarrow> apfst ((@) issues) (check_condition_operands ptr depth nodes' (Suc i) vs))"

definition check_conditions :: "json \<Rightarrow> string \<Rightarrow> PolicyIssue list" where
  "check_conditions v ptr =
     (case check_condition_node ptr 1 0 v of
        (issues, Inl over) \<Rightarrow> issues @ [PolicyIssue_located IC_ConditionTooComplex over]
      | (issues, Inr _) \<Rightarrow> issues)"

section \<open>Values\<close>

definition is_element_id_pointer :: "string \<Rightarrow> bool" where
  "is_element_id_pointer ptr =
     (case str_split (CHR ''/'') ptr of
        [lead, section_name, index, member] \<Rightarrow>
          lead = [] \<and> member = ''id'' \<and> section_name \<in> set IDENTIFIED_SECTIONS \<and> parse_unsigned (2 ^ 64) index \<noteq> None
      | _ \<Rightarrow> False)"

lemma member_size [termination_simp]:
  assumes "map_of members name = Some member"
  shows "size member < Suc (size_list (\<lambda>x. Suc (size (snd x))) members)"
proof -
  have "(name, member) \<in> set members" using assms by (rule map_of_SomeD)
  then have "size member \<le> size_list (\<lambda>x. Suc (size (snd x))) members" by (rule size_list_estimation') simp
  then show ?thesis by simp
qed

fun check_values :: "'net externals \<Rightarrow> string \<Rightarrow> json \<Rightarrow> PolicyIssue list" where
  "check_values ext ptr (JNumber number) =
     (case canonical_json_bytes (ext_as_f64 ext) (JNumber number) of
        Inl _ \<Rightarrow> [PolicyIssue_located IC_NumberOutOfRange ptr]
      | Inr _ \<Rightarrow> [])"
| "check_values ext ptr JNull = (if is_element_id_pointer ptr then [] else [PolicyIssue_located IC_InvalidType ptr])"
| "check_values ext ptr (JArray items) =
     concat (map (\<lambda>(i, item). check_values ext (below ptr (dec_of_nat i)) item) (List.enumerate 0 items))"
| "check_values ext ptr (JObject members) =
     concat (map (\<lambda>name. case map_of members name of
                           None \<Rightarrow> []
                         | Some member \<Rightarrow> check_values ext (below ptr (pointer_token name)) member) (sorted_names members))"
| "check_values ext ptr (JBool _) = []"
| "check_values ext ptr (JString _) = []"

section \<open>The document\<close>

text \<open>One element of an identified section, with the ids seen before and after.\<close>

definition section_members :: "string \<Rightarrow> Members" where
  "section_members section_name =
     (if section_name = ''identity_mappings'' then IDENTITY_MAPPING_MEMBERS
      else if section_name = ''routes'' then ROUTE_MEMBERS
      else if section_name = ''rules'' then RULE_MEMBERS
      else RATE_LIMIT_MEMBERS)"

definition optional_check :: "'a option \<Rightarrow> ('a \<Rightarrow> PolicyIssue list) \<Rightarrow> PolicyIssue list" where
  "optional_check v check = (case v of None \<Rightarrow> [] | Some x \<Rightarrow> check x)"

definition check_element :: "string \<Rightarrow> string \<Rightarrow> string list \<Rightarrow> json \<Rightarrow> PolicyIssue list \<times> string list" where
  "check_element section_name ptr ids v =
     (case json_as_object v of
        None \<Rightarrow> ([PolicyIssue_located IC_InvalidType ptr], ids)
      | Some element \<Rightarrow>
          let (id_issues, ids') = check_element_id element ptr ids in
          (check_members element ptr (section_members section_name) @ id_issues
           @ optional_check (map_of element ''principal'') (\<lambda>p. check_object p (below ptr ''principal'') PRINCIPAL_MEMBERS)
           @ (if section_name = ''rules''
              then optional_check (map_of element ''dispatch'') (\<lambda>d. check_object d (below ptr ''dispatch'') DISPATCH_MEMBERS)
                   @ optional_check (map_of element ''conditions'') (\<lambda>c. check_conditions c (below ptr ''conditions''))
              else []),
           ids'))"

fun check_elements :: "string \<Rightarrow> string \<Rightarrow> nat \<Rightarrow> string list \<Rightarrow> json list \<Rightarrow> PolicyIssue list \<times> string list" where
  "check_elements section_name ptr i ids [] = ([], ids)"
| "check_elements section_name ptr i ids (v # vs) =
     (case check_element section_name (below ptr (dec_of_nat i)) ids v of
        (issues, ids') \<Rightarrow> apfst ((@) issues) (check_elements section_name ptr (Suc i) ids' vs))"

fun check_sections :: "(string \<times> json) list \<Rightarrow> string list \<Rightarrow> string list \<Rightarrow> PolicyIssue list \<times> string list" where
  "check_sections object ids [] = ([], ids)"
| "check_sections object ids (section_name # sections) =
     (case map_of object section_name of
        None \<Rightarrow> check_sections object ids sections
      | Some elements \<Rightarrow>
          let ptr = CHR ''/'' # section_name in
          (case json_as_array elements of
             None \<Rightarrow> apfst ((#) (PolicyIssue_located IC_InvalidType ptr)) (check_sections object ids sections)
           | Some vs \<Rightarrow>
               (case check_elements section_name ptr 0 ids vs of
                  (issues, ids') \<Rightarrow> apfst ((@) issues) (check_sections object ids' sections))))"

definition check_member_values :: "'net externals \<Rightarrow> (string \<times> json) list \<Rightarrow> string \<Rightarrow> PolicyIssue list" where
  "check_member_values ext object name =
     optional_check (map_of object name) (\<lambda>member.
       let ptr = CHR ''/'' # pointer_token name in
       case (if name = ''tools'' then json_as_object member else None) of
         Some tools \<Rightarrow>
           concat (map (\<lambda>tool_name.
               optional_check (map_of tools tool_name) (\<lambda>entry.
                 if length tool_name \<le> MAX_TOOL_NAME_BYTES
                 then check_values ext (below ptr (pointer_token tool_name)) entry else [])) (sorted_names tools))
       | None \<Rightarrow> check_values ext ptr member)"

definition check_v1_structure :: "'net externals \<Rightarrow> json \<Rightarrow> PolicyIssue list" where
  "check_v1_structure ext document =
     (case json_as_object document of
        None \<Rightarrow> [PolicyIssue_located IC_InvalidType []]
      | Some object \<Rightarrow>
          map (\<lambda>name. PolicyIssue_located IC_UnknownMember (CHR ''/'' # pointer_token name))
            (filter (\<lambda>name. name \<notin> set V1_TOP_LEVEL_KEYS) (sorted_names object))
          @ optional_check (map_of object ''roles'') (\<lambda>roles. check_entries roles ''/roles'' ROLE_MEMBERS False)
          @ fst (check_sections object [] IDENTIFIED_SECTIONS)
          @ optional_check (map_of object ''egress'') (\<lambda>egress. check_object egress ''/egress'' EGRESS_MEMBERS)
          @ optional_check (map_of object ''tools'') (\<lambda>tools. check_entries tools ''/tools'' TOOL_MEMBERS True)
          @ concat (map (check_member_values ext object) (sorted_names object)))"

section \<open>Where a typed reading fails\<close>

text \<open>
  Reading JSON as a typed value is generated code. \<open>typed_readers\<close> holds the reading of a policy and whether each part of one
  reads on its own.
\<close>

record typed_readers =
  rd_policy :: "json \<Rightarrow> Policy option"
  rd_optional_string :: "json \<Rightarrow> bool"
  rd_default_action :: "json \<Rightarrow> bool"
  rd_enforcement_mode :: "json \<Rightarrow> bool"
  rd_role :: "json \<Rightarrow> bool"
  rd_identity_mapping :: "json \<Rightarrow> bool"
  rd_route :: "json \<Rightarrow> bool"
  rd_rule :: "json \<Rightarrow> bool"
  rd_egress :: "json \<Rightarrow> bool"
  rd_rate_limit :: "json \<Rightarrow> bool"
  rd_tool :: "json \<Rightarrow> bool"

definition entry_pointer :: "string \<Rightarrow> string \<Rightarrow> string" where
  "entry_pointer ptr name = (if length name > MAX_TOOL_NAME_BYTES then ptr else below ptr (pointer_token name))"

definition failing_member :: "(json \<Rightarrow> bool) \<Rightarrow> (string \<times> json) list \<Rightarrow> string \<Rightarrow> string option" where
  "failing_member reads object name =
     (case map_of object name of
        None \<Rightarrow> None
      | Some v \<Rightarrow> if reads v then None else Some (CHR ''/'' # name))"

definition failing_element :: "(json \<Rightarrow> bool) \<Rightarrow> (string \<times> json) list \<Rightarrow> string \<Rightarrow> string option" where
  "failing_element reads object name =
     (case map_of object name of
        None \<Rightarrow> None
      | Some v \<Rightarrow>
          let ptr = CHR ''/'' # name in
          (case json_as_array v of
             None \<Rightarrow> Some ptr
           | Some elements \<Rightarrow> map_option (\<lambda>i. below ptr (dec_of_nat i)) (position (\<lambda>e. \<not> reads e) elements)))"

definition failing_entry :: "(json \<Rightarrow> bool) \<Rightarrow> (string \<times> json) list \<Rightarrow> string \<Rightarrow> string option" where
  "failing_entry reads object name =
     (case map_of object name of
        None \<Rightarrow> None
      | Some v \<Rightarrow>
          let ptr = CHR ''/'' # name in
          (case json_as_object v of
             None \<Rightarrow> Some ptr
           | Some entries \<Rightarrow>
               map_option (entry_pointer ptr)
                 (find (\<lambda>entry. case map_of entries entry of None \<Rightarrow> False | Some e \<Rightarrow> \<not> reads e) (sorted_names entries))))"

fun first_some :: "'a option list \<Rightarrow> 'a option" where
  "first_some [] = None"
| "first_some (Some x # _) = Some x"
| "first_some (None # rest) = first_some rest"

definition locate_typed_failure :: "typed_readers \<Rightarrow> json \<Rightarrow> string" where
  "locate_typed_failure rd document =
     (case json_as_object document of
        None \<Rightarrow> []
      | Some object \<Rightarrow>
          (case map_of object ''schema_version'' of
             Some (JString _) \<Rightarrow>
               (case first_some
                       [failing_member (rd_optional_string rd) object ''id'',
                        failing_member (rd_default_action rd) object ''default_action'',
                        failing_member (rd_enforcement_mode rd) object ''enforcement_mode'',
                        failing_entry (rd_role rd) object ''roles'',
                        failing_element (rd_identity_mapping rd) object ''identity_mappings'',
                        failing_element (rd_route rd) object ''routes'',
                        failing_element (rd_rule rd) object ''rules'',
                        failing_member (rd_egress rd) object ''egress'',
                        failing_element (rd_rate_limit rd) object ''rate_limits'',
                        failing_entry (rd_tool rd) object ''tools''] of
                  Some ptr \<Rightarrow> ptr
                | None \<Rightarrow> [])
           | _ \<Rightarrow> ''/schema_version''))"

section \<open>Reading a v1 document\<close>

definition parse_v1_document ::
    "'net externals \<Rightarrow> (string \<Rightarrow> string option) \<Rightarrow> typed_readers \<Rightarrow> json \<Rightarrow> (PolicyIssue list, Policy) result" where
  "parse_v1_document ext scheme_of rd document =
     (let issues = IssueList_of (check_v1_structure ext document) in
      if il_issues issues \<noteq> [] then Inl (IssueList_into_vec issues)
      else (case validate_rule_target_properties document of
              Inl issue \<Rightarrow> Inl [issue]
            | Inr _ \<Rightarrow>
                (case rd_policy rd document of
                   None \<Rightarrow> Inl [PolicyIssue_located IC_InvalidValue (locate_typed_failure rd document)]
                 | Some parsed \<Rightarrow>
                     let policy = canonicalize_issuers parsed in
                     (case check_semantics ext scheme_of policy of
                        Inl issue \<Rightarrow> Inl [issue]
                      | Inr _ \<Rightarrow> Inr policy))))"

text \<open>
  What the bytes show beyond the value. \<open>scanned\<close> is what a reader of the bytes sees: the members of every object in their
  order, repeated ones included, up to the end or the first error, and whether it reached the end.
\<close>

fun repeats_in :: "string \<Rightarrow> json \<Rightarrow> string list"
and member_repeats :: "string \<Rightarrow> string list \<Rightarrow> (string \<times> json) list \<Rightarrow> string list"
and item_repeats :: "string \<Rightarrow> nat \<Rightarrow> json list \<Rightarrow> string list" where
  "repeats_in ptr (JObject members) = member_repeats ptr [] members"
| "repeats_in ptr (JArray items) = item_repeats ptr 0 items"
| "repeats_in ptr _ = []"
| "member_repeats ptr seen [] = []"
| "member_repeats ptr seen ((name, v) # members) =
     (let here = below ptr (pointer_token name) in
      (if name \<in> set seen then [here] else []) @ repeats_in here v @ member_repeats ptr (name # seen) members)"
| "item_repeats ptr i [] = []"
| "item_repeats ptr i (v # vs) = repeats_in (below ptr (dec_of_nat i)) v @ item_repeats ptr (Suc i) vs"

fun first_repeat :: "string \<Rightarrow> json \<Rightarrow> string option"
and first_member_repeat :: "string \<Rightarrow> string list \<Rightarrow> (string \<times> json) list \<Rightarrow> string option"
and first_item_repeat :: "string \<Rightarrow> nat \<Rightarrow> json list \<Rightarrow> string option" where
  "first_repeat ptr (JObject members) = first_member_repeat ptr [] members"
| "first_repeat ptr (JArray items) = first_item_repeat ptr 0 items"
| "first_repeat ptr _ = None"
| "first_member_repeat ptr seen [] = None"
| "first_member_repeat ptr seen ((name, v) # members) =
     (let here = below ptr (pointer_token name) in
      if name \<in> set seen then Some here
      else (case first_repeat here v of
              Some p \<Rightarrow> Some p
            | None \<Rightarrow> first_member_repeat ptr (name # seen) members))"
| "first_item_repeat ptr i [] = None"
| "first_item_repeat ptr i (v # vs) =
     (case first_repeat (below ptr (dec_of_nat i)) v of
        Some p \<Rightarrow> Some p
      | None \<Rightarrow> first_item_repeat ptr (Suc i) vs)"

definition check_unique_members :: "json \<times> bool \<Rightarrow> (PolicyIssue, unit) result" where
  "check_unique_members scanned =
     (case first_repeat [] (fst scanned) of
        Some ptr \<Rightarrow> Inl (PolicyIssue_located IC_DuplicateMember ptr)
      | None \<Rightarrow> if snd scanned then Inr () else Inl (PolicyIssue_located IC_InvalidJson []))"

definition repeated_member_pointers :: "json \<times> bool \<Rightarrow> string list \<times> bool" where
  "repeated_member_pointers scanned =
     (let repeats = repeats_in [] (fst scanned) in
      (take MAX_REPORTED_ISSUES repeats, length repeats > MAX_REPORTED_ISSUES))"

definition MAX_POLICY_FILE_BYTES :: nat where "MAX_POLICY_FILE_BYTES = 1048576"

text \<open>Reading policy bytes as JSON, scanning them, and reading them straight into a policy.\<close>

record source_readers =
  sr_json :: "string \<Rightarrow> json option"
  sr_scan :: "string \<Rightarrow> json \<times> bool"
  sr_reads_policy :: "string \<Rightarrow> bool"
  sr_to_value :: "Policy \<Rightarrow> json option"

definition parse_v1_source ::
    "'net externals \<Rightarrow> (string \<Rightarrow> string option) \<Rightarrow> typed_readers \<Rightarrow> source_readers \<Rightarrow> string \<Rightarrow> json
       \<Rightarrow> (PolicyIssue list, Policy) result" where
  "parse_v1_source ext scheme_of rd sr source document =
     (if length source > MAX_POLICY_FILE_BYTES then Inl [PolicyIssue_located IC_DocumentTooLarge []]
      else (case check_unique_members (sr_scan sr source) of
              Inl issue \<Rightarrow> Inl [issue]
            | Inr _ \<Rightarrow>
                and_then (parse_v1_document ext scheme_of rd document) (\<lambda>policy.
                  if sr_reads_policy sr source then Inr policy else Inl [PolicyIssue_located IC_InvalidValue []])))"

section \<open>Reports are bounded\<close>

lemma IssueList_of_eq:
  "IssueList_of issues = \<lparr>il_issues = take MAX_REPORTED_ISSUES issues, il_overflowed = (MAX_REPORTED_ISSUES < length issues)\<rparr>"
proof (induction issues rule: rev_induct)
  case (snoc issue issues)
  then show ?case by (auto simp: IssueList_of_def IssueList_push_def)
qed (simp add: IssueList_of_def)

lemma IssueList_of_Nil: "il_issues (IssueList_of issues) = [] \<longleftrightarrow> issues = []"
  by (simp add: IssueList_of_eq MAX_REPORTED_ISSUES_def)

lemma IssueList_into_vec_bounds:
  "issues \<noteq> [] \<Longrightarrow> IssueList_into_vec (IssueList_of issues) \<noteq> [] \<and> length (IssueList_into_vec (IssueList_of issues)) \<le> Suc MAX_REPORTED_ISSUES"
  by (auto simp: IssueList_of_eq IssueList_into_vec_def MAX_REPORTED_ISSUES_def)

lemma parse_v1_document_cases:
  assumes "parse_v1_document ext scheme_of rd document = r"
  obtains issues where "r = Inl issues" "issues \<noteq> []" "length issues \<le> Suc MAX_REPORTED_ISSUES"
  | policy where "r = Inr policy" "check_v1_structure ext document = []" "validate_rule_target_properties document = Inr ()"
      "check_semantics ext scheme_of policy = Inr ()"
proof (cases "check_v1_structure ext document = []")
  case False
  with assms have "r = Inl (IssueList_into_vec (IssueList_of (check_v1_structure ext document)))"
    by (simp add: parse_v1_document_def IssueList_of_Nil)
  with that(1) IssueList_into_vec_bounds [OF False] show thesis by blast
next
  case True
  then show thesis using that assms
    by (auto simp: parse_v1_document_def IssueList_of_Nil MAX_REPORTED_ISSUES_def Let_def split: sum.splits option.splits)
qed

section \<open>Repeated members\<close>

fun unique_members :: "json \<Rightarrow> bool" where
  "unique_members (JObject members) \<longleftrightarrow> distinct (map fst members) \<and> list_all (\<lambda>m. unique_members (snd m)) members"
| "unique_members (JArray items) \<longleftrightarrow> list_all unique_members items"
| "unique_members _ \<longleftrightarrow> True"

lemma first_repeat_head:
  "first_repeat ptr v = (case repeats_in ptr v of [] \<Rightarrow> None | p # _ \<Rightarrow> Some p)"
  "first_member_repeat ptr seen members = (case member_repeats ptr seen members of [] \<Rightarrow> None | p # _ \<Rightarrow> Some p)"
  "first_item_repeat ptr i items = (case item_repeats ptr i items of [] \<Rightarrow> None | p # _ \<Rightarrow> Some p)"
  by (induction ptr v and ptr seen members and ptr i items rule: repeats_in_member_repeats_item_repeats.induct)
    (auto simp: Let_def split: list.splits option.splits)

lemma repeats_in_unique:
  "repeats_in ptr v = [] \<longleftrightarrow> unique_members v"
  "member_repeats ptr seen members = [] \<longleftrightarrow>
     distinct (map fst members) \<and> set (map fst members) \<inter> set seen = {} \<and> list_all (\<lambda>m. unique_members (snd m)) members"
  "item_repeats ptr i items = [] \<longleftrightarrow> list_all unique_members items"
  by (induction ptr v and ptr seen members and ptr i items rule: repeats_in_member_repeats_item_repeats.induct)
    (auto simp: Let_def)

lemma check_unique_members_Inr: "check_unique_members scanned = Inr () \<longleftrightarrow> snd scanned \<and> unique_members (fst scanned)"
  using repeats_in_unique(1) [of "[]" "fst scanned"]
  by (auto simp: check_unique_members_def first_repeat_head split: list.splits option.splits if_splits)

section \<open>Numbers\<close>

fun numbers_ok :: "(string \<Rightarrow> rat option) \<Rightarrow> json \<Rightarrow> bool" where
  "numbers_ok as_f64 (JNumber number) \<longleftrightarrow> \<not> isl (write_number as_f64 number)"
| "numbers_ok as_f64 (JArray items) \<longleftrightarrow> list_all (numbers_ok as_f64) items"
| "numbers_ok as_f64 (JObject members) \<longleftrightarrow> list_all (\<lambda>m. numbers_ok as_f64 (snd m)) members"
| "numbers_ok as_f64 _ \<longleftrightarrow> True"

lemma write_value_total: "(\<exists>b. write_value as_f64 v = Inr b) \<longleftrightarrow> numbers_ok as_f64 v"
proof (induction v)
  case (JNumber number)
  then show ?case by (cases "write_number as_f64 number") auto
next
  case (JArray items)
  have "(\<exists>ts. map (write_value as_f64) items = map Inr ts) \<longleftrightarrow> (\<forall>v\<in>set items. \<exists>b. write_value as_f64 v = Inr b)"
    by (induction items) (auto simp: Cons_eq_map_conv)
  with JArray show ?case by (simp add: and_then_eq_Inr collect_results_Inr list_all_iff)
next
  case (JObject members)
  define h where "h = (\<lambda>(name, v). and_then (write_value as_f64 v) (\<lambda>t. Inr (write_string name @ CHR '':'' # t)))"
  have "(\<exists>ts. map h ms = map Inr ts) \<longleftrightarrow> (\<forall>m\<in>set ms. \<exists>b. write_value as_f64 (snd m) = Inr b)" for ms
    by (induction ms) (auto simp: Cons_eq_map_conv h_def and_then_eq_Inr)
  from this [of "sorted_members members"] JObject show ?case
    by (simp add: and_then_eq_Inr collect_results_Inr list_all_iff h_def [symmetric]) (metis snds.intros)
qed simp_all

lemma check_values_numbers: "unique_members v \<Longrightarrow> check_values ext ptr v = [] \<Longrightarrow> numbers_ok (ext_as_f64 ext) v"
proof (induction ext ptr v rule: check_values.induct)
  case (1 ext ptr number)
  then show ?case by (auto simp: canonical_json_bytes_def split: sum.splits)
next
  case (3 ext ptr items)
  have "numbers_ok (ext_as_f64 ext) v" if "v \<in> set items" for v
  proof -
    from that obtain i where "i < length items" "items ! i = v" by (auto simp: in_set_conv_nth)
    then have "(i, v) \<in> set (List.enumerate 0 items)" by (force simp: enumerate_eq_zip in_set_zip)
    with "3.prems" that "3.IH" [OF this refl] show ?thesis by (force simp: list_all_iff)
  qed
  then show ?case by (simp add: list_all_iff)
next
  case (4 ext ptr members)
  have "numbers_ok (ext_as_f64 ext) (snd m)" if "m \<in> set members" for m
  proof -
    have get: "map_of members (fst m) = Some (snd m)" using "4.prems"(1) that by simp
    have name: "fst m \<in> set (sorted_names members)" using that by (simp add: sorted_names_def)
    have "(case map_of members (fst m) of None \<Rightarrow> [] | Some member \<Rightarrow> check_values ext (below ptr (pointer_token (fst m))) member) = []"
      using "4.prems"(2) name by auto
    then have "check_values ext (below ptr (pointer_token (fst m))) (snd m) = []" by (simp add: get)
    moreover have "unique_members (snd m)" using "4.prems"(1) that by (auto simp: list_all_iff)
    ultimately show ?thesis using "4.IH" [OF name get] by simp
  qed
  then show ?case by (simp add: list_all_iff)
qed simp_all

section \<open>Stable ids\<close>

definition element_id :: "json \<Rightarrow> string option" where
  "element_id v = Option.bind (json_as_object v) (\<lambda>element. Option.bind (map_of element ''id'') json_as_str)"

definition section_elements :: "(string \<times> json) list \<Rightarrow> string \<Rightarrow> json list" where
  "section_elements object section_name =
     (case map_of object section_name of
        None \<Rightarrow> []
      | Some v \<Rightarrow> (case json_as_array v of None \<Rightarrow> [] | Some vs \<Rightarrow> vs))"

text \<open>The ids are new, valid and pairwise distinct, and are remembered.\<close>

definition fresh_ids :: "string option list \<Rightarrow> string list \<Rightarrow> string list \<Rightarrow> bool" where
  "fresh_ids eids seen seen' =
     (\<exists>ss. eids = map Some ss \<and> list_all is_valid_element_id ss \<and> distinct ss \<and> set ss \<inter> set seen = {} \<and> set seen' = set ss \<union> set seen)"

lemma fresh_ids_append: "fresh_ids as seen seen' \<Longrightarrow> fresh_ids bs seen' seen'' \<Longrightarrow> fresh_ids (as @ bs) seen seen''"
proof -
  assume "fresh_ids as seen seen'" "fresh_ids bs seen' seen''"
  then obtain ss ts where "as = map Some ss" "list_all is_valid_element_id ss" "distinct ss" "set ss \<inter> set seen = {}"
    "set seen' = set ss \<union> set seen" "bs = map Some ts" "list_all is_valid_element_id ts" "distinct ts" "set ts \<inter> set seen' = {}"
    "set seen'' = set ts \<union> set seen'" unfolding fresh_ids_def by metis
  then show ?thesis unfolding fresh_ids_def by (intro exI [of _ "ss @ ts"]) auto
qed

lemma check_element_ids:
  assumes "check_element section_name ptr ids v = ([], ids')"
  shows "fresh_ids [element_id v] ids ids'"
proof -
  obtain element where v: "json_as_object v = Some element" using assms by (auto simp: check_element_def split: option.splits)
  then have "check_element_id element ptr ids = ([], ids')"
    using assms by (cases "check_element_id element ptr ids") (simp add: check_element_def)
  then obtain s where "map_of element ''id'' = Some (JString s)" "is_valid_element_id s" "s \<notin> set ids" "ids' = s # ids"
    by (auto simp: check_element_id_def Let_def split: option.splits json.splits if_splits)
  with v show ?thesis unfolding fresh_ids_def by (intro exI [of _ "[s]"]) (simp add: element_id_def)
qed

lemma check_elements_ids:
  "check_elements section_name ptr i ids vs = ([], ids') \<Longrightarrow> fresh_ids (map element_id vs) ids ids'"
proof (induction vs arbitrary: i ids)
  case (Cons v vs)
  obtain issues ids1 where step: "check_element section_name (below ptr (dec_of_nat i)) ids v = (issues, ids1)" by fastforce
  with Cons.prems have "issues = []" "check_elements section_name ptr (Suc i) ids1 vs = ([], ids')"
    by (cases "check_elements section_name ptr (Suc i) ids1 vs"; simp)+
  with step fresh_ids_append [OF check_element_ids Cons.IH] show ?case by simp
qed (simp add: fresh_ids_def)

lemma check_sections_ids:
  "check_sections object ids sections = ([], ids') \<Longrightarrow>
   fresh_ids (concat (map (\<lambda>section_name. map element_id (section_elements object section_name)) sections)) ids ids'"
proof (induction sections arbitrary: ids)
  case (Cons section_name sections)
  show ?case
  proof (cases "map_of object section_name")
    case None
    with Cons show ?thesis by (simp add: section_elements_def)
  next
    case (Some elements)
    then obtain vs where vs: "json_as_array elements = Some vs" using Cons.prems
      by (cases "check_sections object ids sections"; cases "json_as_array elements") (auto simp: Let_def)
    obtain issues ids1 where step: "check_elements section_name (CHR ''/'' # section_name) 0 ids vs = (issues, ids1)" by fastforce
    with Cons.prems Some vs have "issues = []" "check_sections object ids1 sections = ([], ids')"
      by (cases "check_sections object ids1 sections"; simp)+
    with step Some vs fresh_ids_append [OF check_elements_ids Cons.IH] show ?thesis by (simp add: section_elements_def)
  qed
qed (simp add: fresh_ids_def)

section \<open>Accepted documents\<close>

lemma check_named_entries_short:
  "check_named_entries entries ptr members True False names = [] \<Longrightarrow> name \<in> set names \<Longrightarrow> length name \<le> MAX_TOOL_NAME_BYTES"
  by (induction names) (auto split: if_splits)

lemma tools_numbers:
  assumes "unique_members (JObject tools)" "check_entries (JObject tools) ptr TOOL_MEMBERS True = []"
    and "concat (map (\<lambda>tool_name. optional_check (map_of tools tool_name) (\<lambda>entry.
           if length tool_name \<le> MAX_TOOL_NAME_BYTES then check_values ext (below ptr (pointer_token tool_name)) entry else []))
         (sorted_names tools)) = []"
  shows "numbers_ok (ext_as_f64 ext) (JObject tools)"
proof -
  have "numbers_ok (ext_as_f64 ext) (snd m)" if m: "m \<in> set tools" for m
  proof -
    have get: "map_of tools (fst m) = Some (snd m)" using assms(1) m by simp
    have name: "fst m \<in> set (sorted_names tools)" using m by (simp add: sorted_names_def)
    then have "length (fst m) \<le> MAX_TOOL_NAME_BYTES" using assms(2) check_named_entries_short by (fastforce simp: check_entries_def)
    with assms(3) name get have "check_values ext (below ptr (pointer_token (fst m))) (snd m) = []" by (auto simp: optional_check_def)
    with check_values_numbers assms(1) m show ?thesis by (auto simp: list_all_iff)
  qed
  then show ?thesis by (simp add: list_all_iff)
qed

lemma member_numbers:
  assumes "unique_members (JObject object)" "m \<in> set object" "check_member_values ext object (fst m) = []"
    and tools: "optional_check (map_of object ''tools'') (\<lambda>tools. check_entries tools ''/tools'' TOOL_MEMBERS True) = []"
  shows "numbers_ok (ext_as_f64 ext) (snd m)"
proof -
  have get: "map_of object (fst m) = Some (snd m)" using assms(1,2) by simp
  have unique: "unique_members (snd m)" using assms(1,2) by (auto simp: list_all_iff)
  show ?thesis
  proof (cases "fst m = ''tools'' \<and> json_as_object (snd m) \<noteq> None")
    case True
    then obtain entries where v: "snd m = JObject entries" by (cases "snd m") auto
    have "pointer_token ''tools'' = ''tools''" by code_simp
    with True v assms(3) tools get unique show ?thesis
      by (intro tools_numbers [where ptr = "''/tools''", of entries ext, folded v])
        (auto simp: check_member_values_def optional_check_def Let_def v)
  next
    case False
    with assms(3) get have "check_values ext (CHR ''/'' # pointer_token (fst m)) (snd m) = []"
      by (auto simp: check_member_values_def optional_check_def Let_def split: option.splits if_splits)
    with unique check_values_numbers show ?thesis by blast
  qed
qed

text \<open>
  C20. An accepted v1 document identifies its elements and has a digest. When the structural checks report nothing, the
  document's top-level members are known, every element of the four ordered sections carries a valid stable id, no two
  elements of any sections share one, and the document has canonical bytes: every number in it, wherever it is, has a
  canonical form.
\<close>

theorem v1_structure_accepted:
  assumes "unique_members document" "check_v1_structure ext document = []"
  shows "\<exists>object ids bytes. document = JObject object \<and> set (map fst object) \<subseteq> set V1_TOP_LEVEL_KEYS
    \<and> concat (map (\<lambda>section_name. map element_id (section_elements object section_name)) IDENTIFIED_SECTIONS) = map Some ids
    \<and> list_all is_valid_element_id ids \<and> distinct ids
    \<and> canonical_json_bytes (ext_as_f64 ext) document = Inr bytes"
proof -
  from assms(2) obtain object where doc: "document = JObject object" by (cases document) (auto simp: check_v1_structure_def)
  note clean = assms(2) [unfolded check_v1_structure_def doc, simplified]
  have keys: "set (map fst object) \<subseteq> set V1_TOP_LEVEL_KEYS"
    using clean by (auto simp: filter_empty_conv sorted_names_def)
  obtain ids' where "check_sections object [] IDENTIFIED_SECTIONS = ([], ids')"
    using clean by (cases "check_sections object [] IDENTIFIED_SECTIONS") auto
  from check_sections_ids [OF this] obtain ids where ids:
    "concat (map (\<lambda>section_name. map element_id (section_elements object section_name)) IDENTIFIED_SECTIONS) = map Some ids"
    "list_all is_valid_element_id ids" "distinct ids" unfolding fresh_ids_def by blast
  have "numbers_ok (ext_as_f64 ext) (snd m)" if m: "m \<in> set object" for m
    by (rule member_numbers [OF assms(1) [unfolded doc] m]) (use clean m in \<open>auto simp: sorted_names_def\<close>)
  then have "numbers_ok (ext_as_f64 ext) document" by (simp add: doc list_all_iff)
  then obtain bytes where "canonical_json_bytes (ext_as_f64 ext) document = Inr bytes"
    using write_value_total unfolding canonical_json_bytes_def by blast
  with doc keys ids show ?thesis by blast
qed

definition sample_document :: json where
  "sample_document =
     JObject [(''schema_version'', JString ''1.0.0''),
              (''routes'', JArray [JObject [(''id'', JString ''r1''), (''path_prefix'', JString ''/''), (''permission'', JString ''p'')]]),
              (''rules'', JArray [JObject [(''id'', JString ''r2''), (''path'', JString ''/x''), (''action'', JString ''deny''),
                                          (''conditions'', JObject [(''not'', JObject [(''header'',
                                              JObject [(''name'', JString ''x-env''), (''in'', JArray [JString ''prod''])])])])]]),
              (''tools'', JObject [(''search'', JObject [(''timeout_ms'', JNumber ''5'')])])]"

theorem v1_structure_accepted_witness:
  "check_v1_structure sample_externals sample_document = []
   \<and> (\<exists>bytes. canonical_json_bytes (ext_as_f64 sample_externals) sample_document = Inr bytes)"
proof -
  have five: "write_number as_f64 ''5'' = Inr ''5''" for as_f64
  proof -
    have "list_all is_ascii_digit ''5''" "digits_value 10 ''5'' = 5" "dec_of_nat 5 = ''5''" by code_simp+
    then show ?thesis by (simp add: write_number_def parse_unsigned_def integer_text_def MAX_SAFE_INTEGER_def)
  qed
  have "unique_members sample_document" by code_simp
  moreover have "pointer_token t = t" if "t \<in> {''schema_version'', ''routes'', ''rules'', ''tools'', ''id'', ''path_prefix'', ''permission'',
      ''path'', ''action'', ''conditions'', ''not'', ''header'', ''name'', ''in'', ''search'', ''timeout_ms''}" for t
    using that by (elim insertE emptyE; simp only:) code_simp+
  moreover have "is_valid_element_id ''r1''" "is_valid_element_id ''r2''" by code_simp+
  moreover have "length ''search'' \<le> MAX_TOOL_NAME_BYTES" by code_simp
  ultimately have "check_v1_structure sample_externals sample_document = []"
    by (simp add: check_v1_structure_def sample_document_def V1_TOP_LEVEL_KEYS_def sorted_names_def optional_check_def
        IDENTIFIED_SECTIONS_def Let_def check_element_def check_members_def section_members_def ROUTE_MEMBERS_def RULE_MEMBERS_def
        check_element_id_def check_conditions_def MAX_CONDITION_DEPTH_def MAX_CONDITION_NODES_def condition_leaf_members_def
        check_object_def check_entries_def TOOL_MEMBERS_def check_member_values_def canonical_json_bytes_def five)
  with \<open>unique_members sample_document\<close> show ?thesis using v1_structure_accepted [of sample_document sample_externals] by blast
qed

end
