(* ===== verification/Policy_Inspection.thy ===== *)
theory Policy_Inspection
  imports Policy_Document
begin

text \<open>
  The inspection of policy source bytes (\<open>gateway-config/src/rbac/policy_document.rs\<close>): diagnostics with their severity and
  what they block, the digests a clean document earns, and the parsed policy. The free text of a diagnostic is left out; its
  code determines its message and remediation.
\<close>

section \<open>Diagnostics\<close>

datatype DiagnosticSeverity = DS_Error | DS_Warning | DS_Risk

definition finding_severity :: "IssueCode \<Rightarrow> DiagnosticSeverity" where
  "finding_severity code =
     (if code \<in> {IC_RoleNotDefined, IC_RoutePermissionUngranted, IC_ToolRuleNeverDecides, IC_ToolNotRegistered,
                 IC_ConnectionEndpointEgressDenied, IC_NameCaseCollision, IC_ResourceUnavailable} then DS_Warning
      else if code \<in> {IC_DefaultActionAllow, IC_EnforcementModeShadow, IC_WildcardPermission} then DS_Risk
      else DS_Error)"

record DiagnosticBlocks =
  blk_simulation :: bool
  blk_tests :: bool
  blk_publication :: bool
  blk_evidence :: bool

definition DiagnosticBlocks_NONE :: DiagnosticBlocks where
  "DiagnosticBlocks_NONE = \<lparr>blk_simulation = False, blk_tests = False, blk_publication = False, blk_evidence = False\<rparr>"

definition DiagnosticBlocks_of :: "IssueCode \<Rightarrow> DiagnosticSeverity \<Rightarrow> DiagnosticBlocks" where
  "DiagnosticBlocks_of code severity =
     (case severity of
        DS_Error \<Rightarrow>
          if code \<in> {IC_DocumentFormatUnsupportedInCluster, IC_PolicyFileTooLarge, IC_PolicyWriteUnreachable,
                     IC_PublisherPolicyWriteLost, IC_EgressChangeRequiresRestart, IC_ClaimNotCaptured,
                     IC_ConditionPointerIneligible}
          then DiagnosticBlocks_NONE\<lparr>blk_publication := True\<rparr>
          else \<lparr>blk_simulation = True, blk_tests = True, blk_publication = True, blk_evidence = True\<rparr>
      | DS_Warning \<Rightarrow>
          if code \<in> {IC_RoleNotDefined, IC_RoutePermissionUngranted, IC_ToolRuleNeverDecides, IC_ToolNotRegistered,
                     IC_ConnectionEndpointEgressDenied, IC_NameCaseCollision}
          then DiagnosticBlocks_NONE
          else DiagnosticBlocks_NONE\<lparr>blk_evidence := True\<rparr>
      | DS_Risk \<Rightarrow> DiagnosticBlocks_NONE)"

record PolicyDiagnostic =
  pd_code :: IssueCode
  pd_severity :: DiagnosticSeverity
  pd_pointer :: string
  pd_element_id :: "string option"
  pd_blocks :: DiagnosticBlocks

definition PolicyDiagnostic_finding :: "IssueCode \<Rightarrow> string \<Rightarrow> string option \<Rightarrow> PolicyDiagnostic" where
  "PolicyDiagnostic_finding code ptr eid =
     \<lparr>pd_code = code, pd_severity = finding_severity code, pd_pointer = ptr, pd_element_id = eid,
      pd_blocks = DiagnosticBlocks_of code (finding_severity code)\<rparr>"

definition json_index :: "json \<Rightarrow> nat \<Rightarrow> json option" where
  "json_index v i =
     (case json_as_array v of
        None \<Rightarrow> None
      | Some items \<Rightarrow> if i < length items then Some (items ! i) else None)"

definition element_id_at :: "json \<Rightarrow> string \<Rightarrow> string option" where
  "element_id_at document ptr =
     Option.bind (strip_prefix ptr ''/'') (\<lambda>rest.
       case str_split (CHR ''/'') rest of
         section_name # index # _ \<Rightarrow>
           if section_name \<notin> set IDENTIFIED_SECTIONS then None
           else Option.bind (parse_unsigned (2 ^ 64) index) (\<lambda>i.
                Option.bind (json_get document section_name) (\<lambda>elements.
                Option.bind (json_index elements i) (\<lambda>element.
                Option.bind (json_get element ''id'') (\<lambda>eid.
                Option.bind (json_as_str eid) (\<lambda>s. if is_valid_element_id s then Some s else None)))))
       | _ \<Rightarrow> None)"

definition PolicyDiagnostic_new :: "IssueCode \<Rightarrow> DiagnosticSeverity \<Rightarrow> string \<Rightarrow> json option \<Rightarrow> PolicyDiagnostic" where
  "PolicyDiagnostic_new code severity ptr document =
     \<lparr>pd_code = code, pd_severity = severity, pd_pointer = ptr,
      pd_element_id = Option.bind document (\<lambda>d. element_id_at d ptr),
      pd_blocks = DiagnosticBlocks_of code severity\<rparr>"

section \<open>Inspections\<close>

record PolicyInspection =
  ins_schema_version :: "string option"
  ins_diagnostics :: "PolicyDiagnostic list"
  ins_source_digest :: "string option"
  ins_semantic_digest :: "string option"
  ins_policy :: "Policy option"

definition PolicyInspection_empty :: PolicyInspection where
  "PolicyInspection_empty =
     \<lparr>ins_schema_version = None, ins_diagnostics = [], ins_source_digest = None, ins_semantic_digest = None, ins_policy = None\<rparr>"

definition is_valid_inspection :: "PolicyInspection \<Rightarrow> bool" where
  "is_valid_inspection ins =
     (ins_policy ins \<noteq> None \<and> \<not> list_ex (\<lambda>d. blk_publication (pd_blocks d)) (ins_diagnostics ins))"

definition inspection_push :: "PolicyDiagnostic \<Rightarrow> PolicyInspection \<Rightarrow> PolicyInspection" where
  "inspection_push d ins = ins\<lparr>ins_diagnostics := ins_diagnostics ins @ [d]\<rparr>"

definition inspection_refuse :: "IssueCode \<Rightarrow> string \<Rightarrow> PolicyInspection \<Rightarrow> PolicyInspection" where
  "inspection_refuse code ptr ins = inspection_push (PolicyDiagnostic_new code DS_Error ptr None) ins"

definition record_finding :: "PolicyDiagnostic \<Rightarrow> PolicyInspection \<Rightarrow> PolicyInspection" where
  "record_finding d ins = inspection_push d ins"

definition refuse_with_errors_of :: "PolicyInspection \<Rightarrow> PolicyInspection \<Rightarrow> PolicyInspection" where
  "refuse_with_errors_of derived ins =
     ins\<lparr>ins_diagnostics := ins_diagnostics ins
          @ map (\<lambda>d. d\<lparr>pd_element_id := None\<rparr>) (filter (\<lambda>d. pd_severity d = DS_Error) (ins_diagnostics derived))\<rparr>"

definition inspection_error :: "json option \<Rightarrow> PolicyIssue \<Rightarrow> PolicyInspection \<Rightarrow> PolicyInspection" where
  "inspection_error document issue ins =
     inspection_push (PolicyDiagnostic_new (pi_code issue) DS_Error (pi_pointer issue) document) ins"

definition inspection_warning :: "json \<Rightarrow> IssueCode \<Rightarrow> string \<Rightarrow> PolicyInspection \<Rightarrow> PolicyInspection" where
  "inspection_warning document code ptr ins = inspection_push (PolicyDiagnostic_new code DS_Warning ptr (Some document)) ins"

text \<open>The policy if it may be published, or the error diagnostics, whose texts the code returns.\<close>

definition into_policy :: "PolicyInspection \<Rightarrow> (PolicyDiagnostic list, Policy) result" where
  "into_policy ins =
     (case (is_valid_inspection ins, ins_policy ins) of
        (True, Some policy) \<Rightarrow> Inr policy
      | _ \<Rightarrow> Inl (filter (\<lambda>d. pd_severity d = DS_Error) (ins_diagnostics ins)))"

section \<open>Inspecting a document\<close>

definition POLICY_MEDIA_TYPE :: string where "POLICY_MEDIA_TYPE = ''application/json''"

definition KNOWN_TOP_LEVEL_KEYS :: "string list" where
  "KNOWN_TOP_LEVEL_KEYS =
     [''schema_version'', ''id'', ''default_action'', ''enforcement_mode'', ''roles'', ''routes'', ''rules'', ''egress'',
      ''rate_limits'', ''tools'']"

definition V1_ONLY_TOP_LEVEL_KEYS :: "string list" where
  "V1_ONLY_TOP_LEVEL_KEYS = [''identity_mappings'']"

definition unknown_top_level_keys :: "json \<Rightarrow> string list" where
  "unknown_top_level_keys v =
     (case json_as_object v of
        None \<Rightarrow> []
      | Some object \<Rightarrow>
          filter (\<lambda>key. key \<notin> set KNOWN_TOP_LEVEL_KEYS \<and> key \<notin> set V1_ONLY_TOP_LEVEL_KEYS) (map fst object))"

datatype V0Rejection = V0_Parse | V0_Invalid PolicyIssue

definition parse_v0 ::
    "'net externals \<Rightarrow> (string \<Rightarrow> string option) \<Rightarrow> typed_readers \<Rightarrow> json \<Rightarrow> (V0Rejection, Policy) result" where
  "parse_v0 ext scheme_of rd v =
     (case validate_rule_target_properties v of
        Inl issue \<Rightarrow> Inl (V0_Invalid issue)
      | Inr _ \<Rightarrow>
          (case rd_policy rd v of
             None \<Rightarrow> Inl V0_Parse
           | Some parsed \<Rightarrow>
               let policy = canonicalize_issuers parsed in
               (case check_semantics ext scheme_of policy of
                  Inl issue \<Rightarrow> Inl (V0_Invalid issue)
                | Inr _ \<Rightarrow> Inr policy)))"

definition inspect_v1 ::
    "'net externals \<Rightarrow> (string \<Rightarrow> string option) \<Rightarrow> digest_env \<Rightarrow> (string \<Rightarrow> string) \<Rightarrow> typed_readers \<Rightarrow> source_readers
       \<Rightarrow> string \<Rightarrow> json \<Rightarrow> PolicyInspection \<Rightarrow> PolicyInspection" where
  "inspect_v1 ext scheme_of de hex rd sr source document ins =
     (case parse_v1_source ext scheme_of rd sr source document of
        Inl issues \<Rightarrow> foldl (\<lambda>ins issue. inspection_error (Some document) issue ins) ins issues
      | Inr policy \<Rightarrow>
          (case Option.bind (sr_to_value sr policy) (\<lambda>normalized.
                  case semantic_digest de hex (ext_as_f64 ext) POLICY_MEDIA_TYPE POLICY_V1_SCHEMA_VERSION normalized of
                    Inl _ \<Rightarrow> None | Inr d \<Rightarrow> Some d) of
             None \<Rightarrow> inspection_error (Some document) (PolicyIssue_located IC_NumberOutOfRange []) ins
           | Some d \<Rightarrow>
               ins\<lparr>ins_source_digest := Some (source_digest de hex POLICY_MEDIA_TYPE POLICY_V1_SCHEMA_VERSION source),
                   ins_semantic_digest := Some d, ins_policy := Some policy\<rparr>))"

definition v0_warnings :: "source_readers \<Rightarrow> string \<Rightarrow> json \<Rightarrow> PolicyInspection \<Rightarrow> PolicyInspection" where
  "v0_warnings sr source document ins =
     (if PolicySchema_of_document document = Some SchemaV0
      then let ins' = (case check_unique_members (sr_scan sr source) of
                         Inl issue \<Rightarrow>
                           if pi_code issue = IC_DuplicateMember
                           then inspection_warning document IC_DuplicateMember (pi_pointer issue) ins else ins
                       | Inr _ \<Rightarrow> ins)
           in foldl (\<lambda>ins key. inspection_warning document IC_UnknownTopLevelMember (CHR ''/'' # pointer_token key) ins) ins'
                (sort (unknown_top_level_keys document))
      else ins)"

definition inspect_v0 ::
    "'net externals \<Rightarrow> (string \<Rightarrow> string option) \<Rightarrow> digest_env \<Rightarrow> (string \<Rightarrow> string) \<Rightarrow> typed_readers \<Rightarrow> source_readers
       \<Rightarrow> string \<Rightarrow> json \<Rightarrow> PolicyInspection \<Rightarrow> PolicyInspection" where
  "inspect_v0 ext scheme_of de hex rd sr source document ins =
     (let ins = v0_warnings sr source document ins in
      case parse_v0 ext scheme_of rd document of
        Inl V0_Parse \<Rightarrow>
          inspection_error (Some document) (PolicyIssue_located IC_InvalidValue (locate_typed_failure rd document)) ins
      | Inl (V0_Invalid issue) \<Rightarrow> inspection_error (Some document) issue ins
      | Inr policy \<Rightarrow>
          let ins = (if pol_routes policy \<noteq> [] \<or> pol_rate_limits policy \<noteq> []
                        \<or> list_ex (\<lambda>rule. rule_id rule = None) (pol_rules policy)
                     then inspection_warning document IC_StableIdsUnavailable [] ins else ins)
          in ins\<lparr>ins_source_digest := Some (source_digest de hex POLICY_MEDIA_TYPE (pol_schema_version policy) source),
                 ins_policy := Some policy\<rparr>)"

definition inspect_source ::
    "'net externals \<Rightarrow> (string \<Rightarrow> string option) \<Rightarrow> digest_env \<Rightarrow> (string \<Rightarrow> string) \<Rightarrow> typed_readers \<Rightarrow> source_readers
       \<Rightarrow> string \<Rightarrow> PolicyInspection" where
  "inspect_source ext scheme_of de hex rd sr source =
     (case sr_json sr source of
        None \<Rightarrow> inspection_error None (PolicyIssue_located IC_InvalidJson []) PolicyInspection_empty
      | Some document \<Rightarrow>
          let schema = PolicySchema_of_document document;
              ins = (if schema \<noteq> None
                     then PolicyInspection_empty\<lparr>ins_schema_version :=
                            Option.bind (json_get document ''schema_version'') json_as_str\<rparr>
                     else PolicyInspection_empty)
          in if schema = Some SchemaV1 then inspect_v1 ext scheme_of de hex rd sr source document ins
             else inspect_v0 ext scheme_of de hex rd sr source document ins)"

section \<open>What an inspection establishes\<close>

lemma error_blocks_publication: "blk_publication (DiagnosticBlocks_of code DS_Error)"
  by (simp add: DiagnosticBlocks_of_def)

lemma warning_publishes: "\<not> blk_publication (DiagnosticBlocks_of code DS_Warning)"
  by (simp add: DiagnosticBlocks_of_def DiagnosticBlocks_NONE_def)

text \<open>Diagnostics that only warn, and the invariant of an inspection under way.\<close>

definition warns :: "PolicyDiagnostic \<Rightarrow> bool" where
  "warns d = (pd_severity d = DS_Warning \<and> \<not> blk_publication (pd_blocks d))"

definition refuses :: "PolicyDiagnostic \<Rightarrow> bool" where
  "refuses d = (pd_severity d = DS_Error \<and> blk_publication (pd_blocks d))"

definition open_inspection :: "PolicyInspection \<Rightarrow> bool" where
  "open_inspection ins = (ins_policy ins = None \<and> ins_semantic_digest ins = None \<and> list_all warns (ins_diagnostics ins))"

lemma new_diagnostics:
  "refuses (PolicyDiagnostic_new code DS_Error ptr document)" "warns (PolicyDiagnostic_new code DS_Warning ptr document)"
  by (simp_all add: refuses_def warns_def PolicyDiagnostic_new_def error_blocks_publication warning_publishes)

lemma open_warning: "open_inspection ins \<Longrightarrow> open_inspection (inspection_warning document code ptr ins)"
  by (simp add: open_inspection_def inspection_warning_def inspection_push_def new_diagnostics)

lemma open_warnings: "open_inspection ins \<Longrightarrow> open_inspection (foldl (\<lambda>ins key. inspection_warning document code (ptr key) ins) ins keys)"
  by (induction keys arbitrary: ins) (simp_all add: open_warning)

lemma open_v0_warnings: "open_inspection ins \<Longrightarrow> open_inspection (v0_warnings sr source document ins)"
  by (auto simp: v0_warnings_def Let_def intro!: open_warnings open_warning split: sum.splits)

definition refused :: "PolicyInspection \<Rightarrow> bool" where
  "refused ins = (ins_policy ins = None \<and> list_ex refuses (ins_diagnostics ins))"

lemma refused_error: "ins_policy ins = None \<Longrightarrow> refused (inspection_error document issue ins)"
  by (simp add: refused_def inspection_error_def inspection_push_def new_diagnostics)

lemma refused_errors:
  "ins_policy ins = None \<Longrightarrow> issues \<noteq> [] \<Longrightarrow> refused (foldl (\<lambda>ins issue. inspection_error document issue ins) ins issues)"
proof (induction issues rule: rev_induct)
  case (snoc issue issues)
  have "ins_policy (foldl (\<lambda>ins issue. inspection_error document issue ins) ins issues) = None"
    using snoc.prems(1) by (induction issues rule: rev_induct) (simp_all add: inspection_error_def inspection_push_def)
  then show ?case by (simp add: refused_error)
qed simp

lemma parse_v1_source_cases:
  assumes "parse_v1_source ext scheme_of rd sr source document = r"
  obtains issues where "r = Inl issues" "issues \<noteq> []" "length issues \<le> Suc MAX_REPORTED_ISSUES"
  | policy where "r = Inr policy" "unique_members (fst (sr_scan sr source))" "check_v1_structure ext document = []"
      "check_semantics ext scheme_of policy = Inr ()"
proof (cases "MAX_POLICY_FILE_BYTES < length source \<or> check_unique_members (sr_scan sr source) \<noteq> Inr ()")
  case True
  with assms obtain issue where "r = Inl [issue]" by (auto simp: parse_v1_source_def split: sum.splits if_splits)
  with that(1) show thesis by (simp add: MAX_REPORTED_ISSUES_def)
next
  case False
  with assms have r: "r = and_then (parse_v1_document ext scheme_of rd document) (\<lambda>policy.
      if sr_reads_policy sr source then Inr policy else Inl [PolicyIssue_located IC_InvalidValue []])"
    by (simp add: parse_v1_source_def)
  show thesis
  proof (rule parse_v1_document_cases [OF refl, of ext scheme_of rd document])
    fix issues
    assume "parse_v1_document ext scheme_of rd document = Inl issues" "issues \<noteq> []" "length issues \<le> Suc MAX_REPORTED_ISSUES"
    with that(1) r show thesis by simp
  next
    fix policy
    assume "parse_v1_document ext scheme_of rd document = Inr policy" "check_v1_structure ext document = []"
      "check_semantics ext scheme_of policy = Inr ()"
    with that r False show thesis
      by (cases "sr_reads_policy sr source") (auto simp: check_unique_members_Inr MAX_REPORTED_ISSUES_def)
  qed
qed

lemma parse_v0_Inr: "parse_v0 ext scheme_of rd v = Inr policy \<Longrightarrow> check_semantics ext scheme_of policy = Inr ()"
  by (auto simp: parse_v0_def Let_def split: sum.splits option.splits)

lemma inspect_v1_cases:
  assumes "open_inspection ins" "inspect_v1 ext scheme_of de hex rd sr source document ins = ins'"
  obtains "refused ins'"
  | policy where "ins_policy ins' = Some policy" "check_semantics ext scheme_of policy = Inr ()"
      "check_v1_structure ext document = []" "list_all warns (ins_diagnostics ins')"
      "ins_source_digest ins' = Some (source_digest de hex POLICY_MEDIA_TYPE POLICY_V1_SCHEMA_VERSION source)"
      "ins_semantic_digest ins' \<noteq> None"
proof (rule parse_v1_source_cases [OF refl, of ext scheme_of rd sr source document])
  fix issues
  assume "parse_v1_source ext scheme_of rd sr source document = Inl issues" "issues \<noteq> []"
  with that(1) assms refused_errors [of ins issues "Some document"] show thesis by (simp add: inspect_v1_def open_inspection_def)
next
  fix policy
  assume "parse_v1_source ext scheme_of rd sr source document = Inr policy" "check_v1_structure ext document = []"
    "check_semantics ext scheme_of policy = Inr ()"
  with that assms refused_error [of ins "Some document"] show thesis
    by (auto simp: inspect_v1_def open_inspection_def split: option.splits)
qed

lemma inspect_v0_cases:
  assumes "open_inspection ins" "inspect_v0 ext scheme_of de hex rd sr source document ins = ins'"
  obtains "refused ins'"
  | policy where "ins_policy ins' = Some policy" "check_semantics ext scheme_of policy = Inr ()"
      "list_all warns (ins_diagnostics ins')" "ins_semantic_digest ins' = None"
      "ins_source_digest ins' = Some (source_digest de hex POLICY_MEDIA_TYPE (pol_schema_version policy) source)"
proof -
  have warned: "open_inspection (v0_warnings sr source document ins)" using open_v0_warnings assms(1) .
  show thesis
  proof (cases "parse_v0 ext scheme_of rd document")
    case (Inl rejection)
    with warned that(1) assms(2) refused_error [of "v0_warnings sr source document ins" "Some document"] show thesis
      by (cases rejection) (auto simp: inspect_v0_def open_inspection_def)
  next
    case (Inr policy)
    with warned that(2) assms(2) parse_v0_Inr [OF Inr] open_warning [OF warned, of document IC_StableIdsUnavailable "[]"] show thesis
      by (auto simp: inspect_v0_def Let_def open_inspection_def split: if_splits)
  qed
qed

lemma open_start: "open_inspection PolicyInspection_empty" "open_inspection (PolicyInspection_empty\<lparr>ins_schema_version := v\<rparr>)"
  by (simp_all add: open_inspection_def PolicyInspection_empty_def)

lemma warned_is_valid: "ins_policy ins = Some policy \<Longrightarrow> list_all warns (ins_diagnostics ins) \<Longrightarrow> is_valid_inspection ins"
  by (auto simp: is_valid_inspection_def warns_def list_all_iff list_ex_iff)

lemma inspect_source_cases:
  assumes "inspect_source ext scheme_of de hex rd sr source = ins"
  obtains "refused ins"
  | policy document where "sr_json sr source = Some document" "ins_policy ins = Some policy" "check_semantics ext scheme_of policy = Inr ()"
      "list_all warns (ins_diagnostics ins)" "PolicySchema_of_document document = Some SchemaV1" "check_v1_structure ext document = []"
      "ins_source_digest ins = Some (source_digest de hex POLICY_MEDIA_TYPE POLICY_V1_SCHEMA_VERSION source)" "ins_semantic_digest ins \<noteq> None"
  | policy document where "sr_json sr source = Some document" "ins_policy ins = Some policy" "check_semantics ext scheme_of policy = Inr ()"
      "list_all warns (ins_diagnostics ins)" "PolicySchema_of_document document \<noteq> Some SchemaV1"
      "ins_source_digest ins = Some (source_digest de hex POLICY_MEDIA_TYPE (pol_schema_version policy) source)" "ins_semantic_digest ins = None"
proof (cases "sr_json sr source")
  case None
  with assms that(1) refused_error [of PolicyInspection_empty None "PolicyIssue_located IC_InvalidJson []"] show thesis
    by (simp add: inspect_source_def PolicyInspection_empty_def)
next
  case (Some document)
  define start where "start = (if PolicySchema_of_document document \<noteq> None
    then PolicyInspection_empty\<lparr>ins_schema_version := Option.bind (json_get document ''schema_version'') json_as_str\<rparr>
    else PolicyInspection_empty)"
  have start: "open_inspection start" using open_start by (simp add: start_def)
  show thesis
  proof (cases "PolicySchema_of_document document = Some SchemaV1")
    case True
    then have "inspect_v1 ext scheme_of de hex rd sr source document start = ins"
      using assms Some by (simp add: inspect_source_def Let_def start_def)
    from inspect_v1_cases [OF start this] show thesis using that(1,2) Some True by metis
  next
    case False
    then have "inspect_v0 ext scheme_of de hex rd sr source document start = ins"
      using assms Some unfolding inspect_source_def Let_def start_def by simp
    from inspect_v0_cases [OF start this] show thesis using that(1,3) Some False by metis
  qed
qed

text \<open>
  C19. An inspection accepts or refuses, and never both. Whatever the bytes and whatever the readers make of them, an
  inspection without a policy has an error diagnostic that blocks publication. One with a policy is handed out by
  \<open>into_policy\<close>, its policy passed semantic validation, its diagnostics are warnings that do not block publication, and it
  carries the digest of its source bytes under the schema it was read with. It has a semantic digest just when the document
  is of schema v1, whose structural checks then reported nothing.
\<close>

theorem inspection_accepts_or_refuses:
  "let ins = inspect_source ext scheme_of de hex rd sr source;
       is_v1 = (Option.bind (sr_json sr source) PolicySchema_of_document = Some SchemaV1)
   in case ins_policy ins of
        None \<Rightarrow> \<not> is_valid_inspection ins
          \<and> list_ex (\<lambda>d. pd_severity d = DS_Error \<and> blk_publication (pd_blocks d)) (ins_diagnostics ins)
      | Some policy \<Rightarrow> into_policy ins = Inr policy \<and> check_semantics ext scheme_of policy = Inr ()
          \<and> list_all (\<lambda>d. pd_severity d = DS_Warning \<and> \<not> blk_publication (pd_blocks d)) (ins_diagnostics ins)
          \<and> ins_source_digest ins = Some (source_digest de hex POLICY_MEDIA_TYPE
                (if is_v1 then POLICY_V1_SCHEMA_VERSION else pol_schema_version policy) source)
          \<and> (ins_semantic_digest ins \<noteq> None) = is_v1
          \<and> (if is_v1 then check_v1_structure ext (the (sr_json sr source)) = [] else True)"
proof -
  define ins where "ins = inspect_source ext scheme_of de hex rd sr source"
  show ?thesis
  proof (cases rule: inspect_source_cases [OF ins_def [symmetric]])
    case 1
    then show ?thesis unfolding ins_def [symmetric] by (simp add: refused_def is_valid_inspection_def refuses_def [abs_def])
  next
    case 2
    with warned_is_valid [OF 2(2,4)] show ?thesis unfolding ins_def [symmetric] Let_def by (simp add: into_policy_def warns_def [abs_def])
  next
    case 3
    with warned_is_valid [OF 3(2,4)] show ?thesis unfolding ins_def [symmetric] Let_def by (simp add: into_policy_def warns_def [abs_def])
  qed
qed

end
