(* ===== verification/Spec2Isabelle.thy ===== *)
theory Spec2Isabelle
  imports Binding_Properties Tool_Properties Egress_Properties Egress_Body Circuit_Breaker Client_Address Rate_Properties Validation_Properties Policy_Inspection
begin

text \<open>
  GreenGateway is a policy-enforcing reverse proxy and tool gateway. This development models its decision core: everything
  between a request, or the bytes of a policy, and the answer the gateway gives.

  \<^bold>\<open>The program's parts and how they interact.\<close>
  A policy document is read, checked and digested (\<open>gateway-config\<close>). The policy it holds is compiled with its rules, routes,
  conditions and identity mappings. For every request a lane captures the facts the policy reads and asks the pure policy
  kernel (\<open>gateway/src/policy_eval\<close>): the HTTP lane before proxying, the rate lane before charging a bucket, the tool lane
  before showing or invoking a tool, the egress lane before connecting to a destination. Around these lie the trusted-proxy
  walk that finds the client address, the rate limiter, the egress client and the circuit breaker of an upstream.

  \<^bold>\<open>Foundations.\<close>
  \<^item> \<open>Prelude\<close>: strings are byte lists, with the \<open>str\<close> operations of the Rust library the source uses; \<open>result\<close> is the
    sum type with \<open>Inl\<close> for the error; the collections \<open>str_defs\<close> and \<open>eval_defs\<close>.
  \<^item> \<open>Net_Parse\<close>, \<open>Ip_Text\<close>: the number, address and socket parsers and printers of the Rust standard library.
  \<^item> \<open>Samples\<close>: a small policy on which the witnesses of the decision properties are evaluated.

  \<^bold>\<open>Matching and facts.\<close>
  \<^item> \<open>Path_Matching\<close> (\<open>path_match.rs\<close>, \<open>rbac/path_pattern.rs\<close>, \<open>rbac/matcher.rs\<close>): prefixes, unsafe paths, methods and path
    patterns. The reachability-vector matcher decides the declarative language \<open>seg_match\<close>.
  \<^item> \<open>Principals\<close> (\<open>auth/principal.rs\<close>, \<open>auth.rs\<close>, \<open>rbac/rule.rs\<close>): principals and their bounds, issuers, claims, principal
    matchers, roles and the permission lookup.
  \<^item> \<open>Conditions\<close> (\<open>rbac/conditions.rs\<close>): condition trees, their compilation, and three-valued evaluation over captured facts.
    The locale \<open>truth_source\<close> is the contract of whatever answers from facts: more facts may settle an answer and never
    change a settled one. It is interpreted on conditions, identity mappings, HTTP rules, tool rules and rule actions.
  \<^item> \<open>Rule_Matching\<close> (\<open>rbac/matcher.rs\<close>): compiled rules and every scan over them, by priority of action and over
    equivalent spellings of a path.
  \<^item> \<open>Identity_Mappings\<close> (\<open>rbac/identity_mappings.rs\<close>): the roles a principal holds under mappings.
  \<^item> \<open>Upstream_Route\<close> (\<open>upstream_route.rs\<close>, \<open>request_bounds.rs\<close>): hosts and the selection of the most specific route.
  \<^item> \<open>Fact_Capture\<close> (\<open>FactNeeds\<close> and \<open>middleware/policy_facts.rs\<close>): what a policy reads and how it is captured; capturing
    only that gives every scan the answer full capture would give.

  \<^bold>\<open>The kernel and its lanes.\<close>
  \<^item> \<open>Policy_Kernel\<close> and \<open>Policy_Eval\<close> (\<open>policy_eval/mod.rs\<close>, \<open>stages.rs\<close>): policies, snapshots, contexts and their
    validation, digests, the decision with its stages, the rate lane. \<open>decide\<close> is cut at its returns, one definition each.
  \<^item> \<open>Decision_Laws\<close>: laws of the decision; the locale \<open>sink_hom\<close> relates two sinks for stages and is interpreted on the
    collecting and the forgetting sink and on replaying into any sink.
  \<^item> \<open>Http_Properties\<close>, \<open>Binding_Properties\<close>: an allowing decision is justified, a deny is not overridden, a selected
    upstream needs a bound route, incomplete evaluations block, complete ones are stable under further facts, errors are
    exactly input errors, and an evaluation is reused only for the request it was made for.
  \<^item> \<open>Tool_Eval\<close>, \<open>Tool_Properties\<close> (\<open>policy_eval/tools.rs\<close>): the tool lane, and that its previews agree with invocation.
  \<^item> \<open>Address_Classes\<close>, \<open>Egress_Eval\<close> (\<open>policy_eval/egress.rs\<close>, \<open>egress.rs\<close>): non-global addresses with NAT64, and the
    static egress lane.
  \<^item> \<open>Egress_Config\<close>, \<open>Egress_Client\<close>, \<open>Egress_Properties\<close>, \<open>Egress_Body\<close> (\<open>egress.rs\<close>, \<open>egress/grpc.rs\<close>, \<open>compiler.rs\<close>):
    the effective configuration and its generations, checked, rebound and revalidated destinations, bounded bodies. A
    destination is returned only if admitted, and a name is looked up only after admission.

  \<^bold>\<open>Stateful components.\<close>
  \<^item> \<open>Circuit_Breaker\<close> (\<open>proxy/circuit.rs\<close>): the state and its permits; \<open>circuit_step\<close> interleaves acquiring, reporting and
    dropping permits with time, and \<open>circuit_run\<close> counts steps. The invariant is by rule induction; the breaker recovers.
  \<^item> \<open>Client_Address\<close> (\<open>client_ip.rs\<close>): the trusted-proxy walk, and that a client cannot forge its own address.
  \<^item> \<open>Rate_Limit\<close>, \<open>Rate_Properties\<close> (\<open>middleware/rate_limit.rs\<close>): token buckets, the bounded store and its second-chance
    eviction, both stages. The locale \<open>keyed_limiter\<close> is the contract of a store of buckets with room for its callers and
    is interpreted on the live limiter; callers then do not affect each other.

  \<^bold>\<open>Policy documents.\<close>
  \<^item> \<open>Number_Text\<close>, \<open>Canonical_Json\<close> (\<open>canonical_json.rs\<close>): numbers as ECMAScript prints them, the canonical encoder and the
    digests. Bytes are equal exactly for equal values up to member order and number spelling; digests bind the value.
  \<^item> \<open>Condition_Validation\<close>, \<open>Policy_Validation\<close>, \<open>Validation_Properties\<close> (\<open>rbac/conditions.rs\<close>, \<open>rbac/identity_mappings.rs\<close>
    and \<open>rbac/policy.rs\<close> of \<open>gateway-config\<close>): semantic validation, and what it gives the components that serve the policy.
  \<^item> \<open>Policy_Document\<close>, \<open>Policy_Inspection\<close> (\<open>rbac/policy_document.rs\<close>): the structural checks of schema v1, repeated
    members, the reading of both schemas, diagnostics and inspections. An inspection accepts or refuses, never both.

  \<^bold>\<open>State and effects.\<close>
  Structs are records and enums datatypes with the source's constructors, prefixed where two would clash. Operations that
  change state take and return it, and every error or early return is a branch. A hash map is a map, or an association list
  where the source iterates over it; where the source sorts, the model sorts.

  \<^bold>\<open>Parameters.\<close>
  \<open>externals\<close>, \<open>egress_env\<close> and \<open>registries\<close> hold the network, URL, number, pointer and timestamp libraries;
  \<open>digest_env\<close> SHA-256 and the JSON encoder; \<open>runtime\<close> the resolver and the transport of the egress client; \<open>rounding\<close> IEEE
  rounding of the limiter's arithmetic; \<open>typed_readers\<close> and \<open>source_readers\<close> the generated readers of JSON. Where a
  property relies on one of them it states the documented law as a hypothesis: \<open>ieee_rounding\<close>, \<open>reads_doubles\<close>,
  \<open>cidr_library\<close>, or that the hash does not collide on the two inputs at hand.

  \<^bold>\<open>Bounds and fuel.\<close>
  Every function is total. Only \<open>drive_body\<close>, which polls a body to its end, takes fuel, and one more than the number of
  chunks is proved to be enough. \<open>shortest_digits\<close> tries one to seventeen digits, and seventeen are proved to identify a
  double. Circuit generations are 64-bit words that wrap around; the properties of the breaker are about runs of fewer than
  \<open>2 ^ 64\<close> steps, within which no generation is used twice. Counters saturate at their width, as in the source. The depth
  and node bounds of conditions are those of the source, and validation is proved to enforce exactly them.

  \<^bold>\<open>Not modelled.\<close>
  Network and database code: proxying and WebSockets, health checks, token verification, storage, audit sinks, discovery,
  cluster membership, TLS, connections and secret back ends. The tool catalogue and its execution, the administration API
  and user interface, \<open>ggctl\<close>, the MCP endpoint. The consumers of the kernel (analysis, simulation, replay, tests), the
  conversion of 0.x policies, and most of the configuration compiler are pure in part and left for later. In modelled
  components, log lines, metrics, audit records, message texts, trace encodings and static response fields are left out.
\<close>

end
